(* ===== verification/Furan_Prelude.thy ===== *)
theory Furan_Prelude
  imports Main "HOL-Library.Word" "HOL-Library.AList"
begin

text \<open>
  Shared ground of the development: Go's outcomes (a value, an \<^verbatim>\<open>error\<close>, a panic), the
  functions of Go's \<^verbatim>\<open>strings\<close> and \<^verbatim>\<open>strconv\<close> packages that furan calls, contexts, and the
  generic lemmas the component theories rely on.  A Go string is a sequence of bytes, hence a
  \<^typ>\<open>string\<close> whose characters are the bytes.

  Collections: \<open>go_simps\<close> holds the unfolding rules of outcomes, \<open>str_simps\<close> the rules of the
  string functions.
\<close>

named_theorems go_simps "unfolding rules for Go outcomes"
named_theorems str_simps "rules for the modelled string functions"

section \<open>Errors and outcomes\<close>

text \<open>Status codes of \<^verbatim>\<open>google.golang.org/grpc/codes\<close> that furan uses.\<close>

datatype grpc_code =
  CodeUnknown | InvalidArgument | FailedPrecondition | Internal | Unauthenticated

text \<open>
  Go errors.  \<open>ErrMsg\<close> is an error made by \<^verbatim>\<open>errors.New\<close> or \<^verbatim>\<open>fmt.Errorf\<close> without \<^verbatim>\<open>%w\<close>;
  \<open>Wrapf p e\<close> is \<^verbatim>\<open>fmt.Errorf("p%w", e)\<close>.  The sentinels and the concrete error types furan
  inspects have constructors of their own.
\<close>

datatype goerr =
  ErrMsg string
| Wrapf string goerr
| ErrNotFound
| ErrNoRows
| ErrEOF
| ErrCanceled
| OpError bool bool string
| AwsErr string string
| StatusErr grpc_code string

primrec errstr :: "goerr \<Rightarrow> string" where
  "errstr (ErrMsg m) = m"
| "errstr (Wrapf p e) = p @ errstr e"
| "errstr ErrNotFound = ''not found''"
| "errstr ErrNoRows = ''no rows in result set''"
| "errstr ErrEOF = ''EOF''"
| "errstr ErrCanceled = ''context canceled''"
| "errstr (OpError t tmp m) = m"
| "errstr (AwsErr c m) = c @ '': '' @ m"
| "errstr (StatusErr c m) = m"

text \<open>What a Go call that returns \<^verbatim>\<open>(T, error)\<close> can do.\<close>

datatype 'a go = Ok 'a | Err goerr | Panic string

abbreviation is_ok :: "'a go \<Rightarrow> bool" where
  "is_ok r \<equiv> (case r of Ok _ \<Rightarrow> True | Err _ \<Rightarrow> False | Panic _ \<Rightarrow> False)"

text \<open>
  \<^verbatim>\<open>if err != nil { return fmt.Errorf("p%w", err) }\<close> in a function that goes on with the value.
\<close>

definition wrap_err :: "string \<Rightarrow> 'a go \<Rightarrow> 'a go" where
  "wrap_err p r = (case r of Ok x \<Rightarrow> Ok x | Err e \<Rightarrow> Err (Wrapf p e) | Panic m \<Rightarrow> Panic m)"

definition bind_go :: "'a go \<Rightarrow> ('a \<Rightarrow> 'b go) \<Rightarrow> 'b go" where
  "bind_go r f = (case r of Ok x \<Rightarrow> f x | Err e \<Rightarrow> Err e | Panic m \<Rightarrow> Panic m)"

lemma wrap_err_simps [simp, go_simps]:
  "wrap_err p (Ok x) = Ok x"
  "wrap_err p (Err e) = Err (Wrapf p e)"
  "wrap_err p (Panic m) = Panic m"
  by (simp_all add: wrap_err_def)

lemma bind_go_simps [simp, go_simps]:
  "bind_go (Ok x) f = f x"
  "bind_go (Err e) f = Err e"
  "bind_go (Panic m) f = Panic m"
  by (simp_all add: bind_go_def)

lemma wrap_err_eq_Ok [simp]: "wrap_err p r = Ok x \<longleftrightarrow> r = Ok x"
  by (cases r) simp_all

lemma bind_go_eq_Ok: "bind_go r f = Ok y \<longleftrightarrow> (\<exists>x. r = Ok x \<and> f x = Ok y)"
  by (cases r) simp_all

text \<open>A call that acts on the state of the world: the new state and the outcome.\<close>

type_synonym ('s, 'a) act = "'s \<Rightarrow> 's \<times> 'a go"

text \<open>
  Sequencing of calls: \<open>bind_act\<close> goes on with the value and returns at once on an error or a
  panic, \<open>wrap_act\<close> adds the text of \<^verbatim>\<open>fmt.Errorf("p%w", err)\<close>.
\<close>

definition bind_act :: "('s, 'a) act \<Rightarrow> ('a \<Rightarrow> ('s, 'b) act) \<Rightarrow> ('s, 'b) act" where
  "bind_act m f s =
     (case m s of
        (s', Ok x) \<Rightarrow> f x s' | (s', Err e) \<Rightarrow> (s', Err e) | (s', Panic p) \<Rightarrow> (s', Panic p))"

definition wrap_act :: "string \<Rightarrow> ('s, 'a) act \<Rightarrow> ('s, 'a) act" where
  "wrap_act p m s = (case m s of (s', r) \<Rightarrow> (s', wrap_err p r))"

definition ret_act :: "'a go \<Rightarrow> ('s, 'a) act" where
  "ret_act r s = (s, r)"

lemma bind_act_Ok: "bind_act m f s = (s', Ok y) \<longleftrightarrow> (\<exists>s1 x. m s = (s1, Ok x) \<and> f x s1 = (s', Ok y))"
  by (auto simp: bind_act_def split: prod.splits go.splits)

lemma wrap_act_Ok [simp]: "wrap_act p m s = (s', Ok y) \<longleftrightarrow> m s = (s', Ok y)"
  by (auto simp: wrap_act_def split: prod.splits)

lemma ret_act_Ok [simp]: "ret_act r s = (s', x) \<longleftrightarrow> s' = s \<and> x = r"
  by (auto simp: ret_act_def)

text \<open>A call keeps \<open>P\<close>: every state it can leave behind satisfies \<open>P\<close> if the first one does.\<close>

definition keeps :: "('s \<Rightarrow> bool) \<Rightarrow> ('s, 'a) act \<Rightarrow> bool" where
  "keeps P m \<longleftrightarrow> (\<forall>s. P s \<longrightarrow> P (fst (m s)))"

text \<open>A call never panics in a state with \<open>P\<close>.\<close>

definition calm :: "('s \<Rightarrow> bool) \<Rightarrow> ('s, 'a) act \<Rightarrow> bool" where
  "calm P m \<longleftrightarrow> (\<forall>s p. P s \<longrightarrow> snd (m s) \<noteq> Panic p)"

lemma keepsD: "keeps P m \<Longrightarrow> P s \<Longrightarrow> m s = (s', r) \<Longrightarrow> P s'"
  by (metis fst_conv keeps_def)

lemma calmD: "calm P m \<Longrightarrow> P s \<Longrightarrow> m s = (s', r) \<Longrightarrow> r \<noteq> Panic p"
  by (metis snd_conv calm_def)

lemma keeps_bind [intro]: "keeps P m \<Longrightarrow> (\<And>x. keeps P (f x)) \<Longrightarrow> keeps P (bind_act m f)"
  by (fastforce simp: keeps_def bind_act_def split: prod.splits go.splits)

lemma calm_bind [intro]:
  "keeps P m \<Longrightarrow> calm P m \<Longrightarrow> (\<And>x. calm P (f x)) \<Longrightarrow> calm P (bind_act m f)"
  by (fastforce simp: keeps_def calm_def bind_act_def split: prod.splits go.splits)

lemma keeps_wrap [intro]: "keeps P m \<Longrightarrow> keeps P (wrap_act p m)"
  by (fastforce simp: keeps_def wrap_act_def split: prod.splits)

lemma calm_wrap [intro]: "calm P m \<Longrightarrow> calm P (wrap_act p m)"
  by (auto simp: calm_def wrap_act_def wrap_err_def split: prod.splits go.splits)

lemma keeps_ret [intro, simp]: "keeps P (ret_act r)"
  by (simp add: keeps_def ret_act_def)

lemma calm_ret [simp]: "calm P (ret_act (Ok x))" "calm P (ret_act (Err e))"
  by (simp_all add: calm_def ret_act_def)

text \<open>A \<^verbatim>\<open>context.Context\<close> at the time of a call: whether it is done already.\<close>

datatype ctx = Active | Done

abbreviation (input) Background :: ctx where "Background \<equiv> Active"

section \<open>Polling\<close>

text \<open>
  The loop that waits for a peer to listen, which two places of the code write out: it returns once
  \<open>dial\<close> succeeds, fails with \<open>timeout\<close> from the deadline on, and sleeps between two attempts.  \<open>None\<close>
  is a loop that never ends.  It ends if the clock does not run backwards while it dials and the
  sleep takes some time.
\<close>

partial_function (option) poll ::
  "('s \<Rightarrow> int) \<Rightarrow> ('s, unit) act \<Rightarrow> ('s \<Rightarrow> 's) \<Rightarrow> goerr \<Rightarrow> int \<Rightarrow> 's \<Rightarrow> ('s \<times> unit go) option" where
  "poll now dial sleep timeout deadline s =
     (if now s \<ge> deadline then Some (s, Err timeout)
      else (case dial s of
              (s1, Err e) \<Rightarrow> poll now dial sleep timeout deadline (sleep s1)
            | (s1, Panic p) \<Rightarrow> Some (s1, Panic p)
            | (s1, Ok _) \<Rightarrow> Some (s1, Ok ())))"

declare poll.simps [code]

lemma poll_ends:
  assumes dial: "\<And>s. now s \<le> now (fst (dial s))" and sleep: "\<And>s. now s < now (sleep s)"
  shows "\<exists>r. poll now dial sleep timeout deadline s = Some r"
proof (induction "nat (deadline - now s)" arbitrary: s rule: less_induct)
  case less
  show ?case
  proof (cases "now s \<ge> deadline")
    case False
    obtain s1 r where d: "dial s = (s1, r)" by fastforce
    have "now s < now (sleep s1)" using dial [of s] sleep [of s1] d by simp
    then have "\<exists>r. poll now dial sleep timeout deadline (sleep s1) = Some r" using less False by simp
    then show ?thesis using d by (subst poll.simps) (auto split: go.splits)
  qed (subst poll.simps, simp)
qed

section \<open>strings\<close>

definition HasPrefix :: "string \<Rightarrow> string \<Rightarrow> bool" where
  "HasPrefix s p \<longleftrightarrow> take (length p) s = p"

definition HasSuffix :: "string \<Rightarrow> string \<Rightarrow> bool" where
  "HasSuffix s p \<longleftrightarrow> length p \<le> length s \<and> drop (length s - length p) s = p"

definition TrimPrefix :: "string \<Rightarrow> string \<Rightarrow> string" where
  "TrimPrefix s p = (if HasPrefix s p then drop (length p) s else s)"

text \<open>\<^verbatim>\<open>strings.Split(s, sep)\<close> and \<^verbatim>\<open>strings.SplitN(s, sep, 2)\<close> for a one-byte separator.\<close>

fun Split :: "string \<Rightarrow> char \<Rightarrow> string list" where
  "Split [] c = [[]]"
| "Split (x # xs) c =
     (if x = c then [] # Split xs c
      else (case Split xs c of [] \<Rightarrow> [[x]] | y # ys \<Rightarrow> (x # y) # ys))"

definition SplitN2 :: "string \<Rightarrow> char \<Rightarrow> string list" where
  "SplitN2 s c =
     (if c \<in> set s then [takeWhile (\<lambda>x. x \<noteq> c) s, tl (dropWhile (\<lambda>x. x \<noteq> c) s)] else [s])"

text \<open>\<^verbatim>\<open>strings.ReplaceAll\<close> of a one-byte pattern.\<close>

definition ReplaceAll :: "string \<Rightarrow> char \<Rightarrow> string \<Rightarrow> string" where
  "ReplaceAll s c r = concat (map (\<lambda>x. if x = c then r else [x]) s)"

text \<open>\<^verbatim>\<open>strings.Replace(s, old, new, 1)\<close> for a non-empty \<^verbatim>\<open>old\<close>.\<close>

fun Replace1 :: "string \<Rightarrow> string \<Rightarrow> string \<Rightarrow> string" where
  "Replace1 [] old new = []"
| "Replace1 (x # xs) old new =
     (if HasPrefix (x # xs) old then new @ drop (length old) (x # xs)
      else x # Replace1 xs old new)"

fun Join :: "string list \<Rightarrow> string \<Rightarrow> string" where
  "Join [] sep = []"
| "Join [x] sep = x"
| "Join (x # y # ys) sep = x @ sep @ Join (y # ys) sep"

text \<open>
  \<^verbatim>\<open>strings.TrimSpace\<close>: the UTF-8 encodings of the runes for which \<^verbatim>\<open>unicode.IsSpace\<close> holds are
  cut off both ends.
\<close>

definition byte :: "nat \<Rightarrow> char" where
  "byte n = char_of n"

definition space_runes :: "string list" where
  "space_runes =
     [[byte 9], [byte 10], [byte 11], [byte 12], [byte 13], [byte 32],
      [byte 194, byte 133], [byte 194, byte 160], [byte 225, byte 154, byte 128],
      [byte 226, byte 128, byte 128], [byte 226, byte 128, byte 129],
      [byte 226, byte 128, byte 130], [byte 226, byte 128, byte 131],
      [byte 226, byte 128, byte 132], [byte 226, byte 128, byte 133],
      [byte 226, byte 128, byte 134], [byte 226, byte 128, byte 135],
      [byte 226, byte 128, byte 136], [byte 226, byte 128, byte 137],
      [byte 226, byte 128, byte 138], [byte 226, byte 128, byte 168],
      [byte 226, byte 128, byte 169], [byte 226, byte 128, byte 175],
      [byte 226, byte 129, byte 159], [byte 227, byte 128, byte 128]]"

function trim_left :: "string list \<Rightarrow> string \<Rightarrow> string" where
  "trim_left rs s =
     (case find (\<lambda>r. r \<noteq> [] \<and> HasPrefix s r) rs of
        None \<Rightarrow> s | Some r \<Rightarrow> trim_left rs (drop (length r) s))"
  by pat_completeness auto
termination
proof (relation "measure (\<lambda>(rs, s). length s)")
  fix rs :: "string list" and s r :: string
  assume "find (\<lambda>r. r \<noteq> [] \<and> HasPrefix s r) rs = Some r"
  then have "r \<noteq> []" and "HasPrefix s r" by (auto simp: find_Some_iff)
  then have "0 < length r" "length r \<le> length s"
    by (auto simp: HasPrefix_def) (metis length_take min.cobounded1)
  then have "length s - length r < length s" by linarith
  then show "((rs, drop (length r) s), (rs, s)) \<in> measure (\<lambda>(rs, s). length s)" by simp
qed simp

declare trim_left.simps [simp del]

definition TrimSpace :: "string \<Rightarrow> string" where
  "TrimSpace s = rev (trim_left (map rev space_runes) (rev (trim_left space_runes s)))"

section \<open>path/filepath\<close>

text \<open>
  \<^verbatim>\<open>filepath.Clean\<close> on Unix, by path elements: empty elements and \<^verbatim>\<open>.\<close> are dropped, \<^verbatim>\<open>..\<close> removes
  the element before it, at the root it is dropped.  The accumulator is the reversed output.
\<close>

fun clean_elems :: "bool \<Rightarrow> string list \<Rightarrow> string list \<Rightarrow> string list" where
  "clean_elems rooted acc [] = rev acc"
| "clean_elems rooted acc (e # es) =
     (if e = [] \<or> e = ''.'' then clean_elems rooted acc es
      else if e = ''..'' then
        (case acc of
           [] \<Rightarrow> clean_elems rooted (if rooted then [] else [e]) es
         | a # as \<Rightarrow> if a = ''..'' then clean_elems rooted (e # acc) es
                     else clean_elems rooted as es)
      else clean_elems rooted (e # acc) es)"

definition Clean :: "string \<Rightarrow> string" where
  "Clean p =
     (let rooted = HasPrefix p ''/'';
          es = clean_elems rooted [] (Split p CHR ''/'')
      in if rooted then CHR ''/'' # Join es ''/''
         else if es = [] then ''.'' else Join es ''/'')"

definition filepath_Join :: "string list \<Rightarrow> string" where
  "filepath_Join elem =
     (case dropWhile (\<lambda>e. e = []) elem of [] \<Rightarrow> [] | es \<Rightarrow> Clean (Join es ''/''))"

section \<open>strconv\<close>

fun string_of_nat :: "nat \<Rightarrow> string" where
  "string_of_nat n =
     (if n < 10 then [char_of (48 + n)]
      else string_of_nat (n div 10) @ [char_of (48 + n mod 10)])"

declare string_of_nat.simps [simp del]

text \<open>\<^verbatim>\<open>%d\<close>, \<^verbatim>\<open>%v\<close> of an integer, \<^verbatim>\<open>strconv.FormatInt(i, 10)\<close>.\<close>

definition itoa :: "int \<Rightarrow> string" where
  "itoa i = (if i < 0 then CHR ''-'' # string_of_nat (nat (- i)) else string_of_nat (nat i))"

text \<open>
  \<^verbatim>\<open>time.Duration.String\<close>: a duration is a number of nanoseconds.  \<open>frac_text v n\<close> is the decimal
  fraction \<open>v / 10\<^sup>n\<close> without trailing zeros, empty when it is zero.
\<close>

definition frac_text :: "nat \<Rightarrow> nat \<Rightarrow> string" where
  "frac_text v n =
     (let ds = string_of_nat v;
          padded = replicate (n - length ds) CHR ''0'' @ ds;
          trimmed = rev (dropWhile (\<lambda>c. c = CHR ''0'') (rev padded))
      in if v = 0 then [] else CHR ''.'' # trimmed)"

definition Duration_String :: "int \<Rightarrow> string" where
  "Duration_String d =
     (let u = nat \<bar>d\<bar>;
          sec = u div 10 ^ 9;
          txt = (if u = 0 then ''0s''
                 else if u < 10 ^ 3 then string_of_nat u @ ''ns''
                 else if u < 10 ^ 6 then
                   string_of_nat (u div 10 ^ 3) @ frac_text (u mod 10 ^ 3) 3 @ [byte 194, byte 181, CHR ''s'']
                 else if u < 10 ^ 9 then
                   string_of_nat (u div 10 ^ 6) @ frac_text (u mod 10 ^ 6) 6 @ ''ms''
                 else (if 3600 \<le> sec then string_of_nat (sec div 3600) @ ''h'' else [])
                      @ (if 60 \<le> sec then string_of_nat (sec div 60 mod 60) @ ''m'' else [])
                      @ string_of_nat (sec mod 60) @ frac_text (u mod 10 ^ 9) 9 @ ''s'')
      in if d < 0 then CHR ''-'' # txt else txt)"

definition digit_val :: "char \<Rightarrow> nat option" where
  "digit_val c =
     (let n = (of_char c :: nat) in if 48 \<le> n \<and> n < 58 then Some (n - 48) else None)"

fun parse_digits :: "nat \<Rightarrow> string \<Rightarrow> nat option" where
  "parse_digits acc [] = Some acc"
| "parse_digits acc (c # cs) =
     (case digit_val c of None \<Rightarrow> None | Some d \<Rightarrow> parse_digits (10 * acc + d) cs)"

text \<open>\<^verbatim>\<open>strconv.Atoi\<close> on a platform with a 64-bit \<^verbatim>\<open>int\<close>.\<close>

definition Atoi :: "string \<Rightarrow> int go" where
  "Atoi s =
     (let neg = HasPrefix s ''-'';
          ds = (if neg \<or> HasPrefix s ''+'' then tl s else s)
      in case (if ds = [] then None else parse_digits 0 ds) of
           None \<Rightarrow> Err (ErrMsg ''strconv.Atoi: parsing: invalid syntax'')
         | Some n \<Rightarrow>
             let i = (if neg then - int n else int n)
             in if - (2 ^ 63) \<le> i \<and> i < 2 ^ 63 then Ok i
                else Err (ErrMsg ''strconv.Atoi: parsing: value out of range''))"

section \<open>Lemmas on the string functions\<close>

lemma HasPrefix_append [simp, str_simps]: "HasPrefix (p @ s) p"
  by (simp add: HasPrefix_def)

lemma HasPrefix_iff: "HasPrefix s p \<longleftrightarrow> (\<exists>t. s = p @ t)"
  by (auto simp: HasPrefix_def) (metis append_take_drop_id)

lemma HasSuffix_iff: "HasSuffix s p \<longleftrightarrow> (\<exists>t. s = t @ p)"
proof
  assume "HasSuffix s p"
  then have "s = take (length s - length p) s @ p"
    by (metis HasSuffix_def append_take_drop_id)
  then show "\<exists>t. s = t @ p" ..
qed (auto simp: HasSuffix_def)

lemma Split_nonempty [simp]: "Split s c \<noteq> []"
  by (induction s) (auto split: list.splits)

lemma Split_no_sep: "\<forall>p \<in> set (Split s c). c \<notin> set p"
  by (induction s) (auto split: list.splits)

text \<open>Joining the pieces with the separator gives the string back.\<close>

lemma Join_Split: "Join (Split s c) [c] = s"
proof (induction s)
  case (Cons x xs)
  then show ?case
    by (cases "Split xs c" rule: list.exhaust; cases "tl (Split xs c)")
      (auto split: list.splits)
qed simp

lemma Split_hd: "hd (Split s c) = takeWhile (\<lambda>x. x \<noteq> c) s"
  by (induction s) (auto split: list.splits)

lemma SplitN2_length: "length (SplitN2 s c) = (if c \<in> set s then 2 else 1)"
  by (simp add: SplitN2_def)

lemma SplitN2_join: "c \<in> set s \<Longrightarrow> SplitN2 s c = [a, b] \<Longrightarrow> s = a @ [c] @ b"
proof -
  assume c: "c \<in> set s" and ab: "SplitN2 s c = [a, b]"
  have d: "dropWhile (\<lambda>x. x \<noteq> c) s = c # tl (dropWhile (\<lambda>x. x \<noteq> c) s)"
    using c by (induction s) auto
  from c ab have "a = takeWhile (\<lambda>x. x \<noteq> c) s" "b = tl (dropWhile (\<lambda>x. x \<noteq> c) s)"
    by (simp_all add: SplitN2_def)
  with d show ?thesis by (metis append_Cons append_Nil takeWhile_dropWhile_id)
qed

lemma ReplaceAll_append [str_simps]: "ReplaceAll (s @ t) c r = ReplaceAll s c r @ ReplaceAll t c r"
  by (simp add: ReplaceAll_def)

lemma ReplaceAll_Cons [str_simps]:
  "ReplaceAll (x # s) c r = (if x = c then r else [x]) @ ReplaceAll s c r"
  by (simp add: ReplaceAll_def)

lemma ReplaceAll_Nil [simp]: "ReplaceAll [] c r = []"
  by (simp add: ReplaceAll_def)

lemma length_ReplaceAll1 [simp]: "length (ReplaceAll s c [d]) = length s"
  by (induction s) (auto simp: str_simps)

lemma ReplaceAll1_map: "ReplaceAll s c [d] = map (\<lambda>x. if x = c then d else x) s"
  by (induction s) (auto simp: str_simps)

lemma Replace1_prefix [simp]: "old \<noteq> [] \<Longrightarrow> Replace1 (old @ s) old new = new @ s"
  by (cases old) (simp_all add: HasPrefix_def)

lemma digit_val_char_of [simp]: "n < 10 \<Longrightarrow> digit_val (char_of (48 + n)) = Some n"
  by (simp add: digit_val_def of_char_of)

lemma digit_val_char_of' [simp]: "n < 10 \<Longrightarrow> digit_val (char_of (n + 48)) = Some n"
  using digit_val_char_of [of n] by (simp add: add.commute)

lemma parse_digits_append:
  "parse_digits a (xs @ ys) =
     (case parse_digits a xs of None \<Rightarrow> None | Some b \<Rightarrow> parse_digits b ys)"
  by (induction xs arbitrary: a) (auto split: option.splits)

lemma parse_string_of_nat: "parse_digits 0 (string_of_nat n) = Some n"
proof (induction n rule: string_of_nat.induct)
  case (1 n)
  then show ?case
    by (subst string_of_nat.simps) (auto simp: parse_digits_append)
qed

lemma string_of_nat_digits: "c \<in> set (string_of_nat n) \<Longrightarrow> \<exists>d < 10. c = char_of (48 + d :: nat)"
proof (induction n rule: string_of_nat.induct)
  case (1 n)
  show ?case
  proof (cases "n < 10")
    case True
    with 1 show ?thesis by (auto simp: string_of_nat.simps [of n])
  next
    case False
    with 1 consider "c \<in> set (string_of_nat (n div 10))" | "c = char_of (48 + n mod 10)"
      by (auto simp: string_of_nat.simps [of n])
    then show ?thesis
    proof cases
      case 1
      with "1.IH" False show ?thesis by blast
    next
      case 2
      have "n mod 10 < 10" by simp
      with 2 show ?thesis by blast
    qed
  qed
qed

lemma string_of_nat_nonempty [simp]: "string_of_nat n \<noteq> []"
  by (subst string_of_nat.simps) simp

lemma string_of_nat_not_sign:
  "c \<in> set (string_of_nat n) \<Longrightarrow> c \<noteq> CHR ''-'' \<and> c \<noteq> CHR ''+''"
proof -
  assume "c \<in> set (string_of_nat n)"
  then obtain d :: nat where "d < 10" and c: "c = char_of (48 + d)"
    using string_of_nat_digits by blast
  then have "(of_char c :: nat) = 48 + d" by (simp add: of_char_of)
  then show ?thesis by auto
qed

text \<open>Printing an integer and reading it back is the identity on the range of \<^verbatim>\<open>int\<close>.\<close>

lemma Atoi_itoa:
  assumes "- (2 ^ 63) \<le> i" "i < 2 ^ 63"
  shows "Atoi (itoa i) = Ok i"
proof -
  obtain c cs where s: "string_of_nat (nat i) = c # cs"
    by (cases "string_of_nat (nat i)") auto
  then have "c \<noteq> CHR ''-'' \<and> c \<noteq> CHR ''+''"
    using string_of_nat_not_sign by (metis list.set_intros(1))
  then have nosign: "\<not> HasPrefix (string_of_nat (nat i)) ''-''"
    "\<not> HasPrefix (string_of_nat (nat i)) ''+''"
    by (simp_all add: s HasPrefix_def)
  show ?thesis
  proof (cases "i < 0")
    case True
    with assms show ?thesis
      by (simp add: Atoi_def itoa_def Let_def HasPrefix_def parse_string_of_nat)
  next
    case False
    with assms nosign show ?thesis
      by (simp add: Atoi_def itoa_def Let_def parse_string_of_nat)
  qed
qed

section \<open>Lemmas on words\<close>

lemma sint_small:
  fixes w :: "64 word"
  assumes "w < 2 ^ 63"
  shows "sint w = int (unat w)"
proof -
  have "uint w < 2 ^ 63" using assms by (simp add: word_less_alt)
  moreover have "- (2 ^ 63) \<le> uint w" by (rule order_trans [OF _ uint_ge_0]) simp
  ultimately have "signed_take_bit 63 (uint w) = uint w"
    by (intro signed_take_bit_int_eq_self)
  then show ?thesis by (simp add: sint_uint)
qed

section \<open>Lemmas on association lists\<close>

lemma map_of_update [simp]: "map_of (AList.update k v xs) = (map_of xs)(k \<mapsto> v)"
  by (simp add: update_conv')

lemma map_of_delete [simp]: "map_of (AList.delete k xs) = (map_of xs)(k := None)"
  by (simp add: delete_conv')

lemma distinct_keys_update: "distinct (map fst xs) \<Longrightarrow> distinct (map fst (AList.update k v xs))"
  by (rule distinct_update)

lemma distinct_keys_delete: "distinct (map fst xs) \<Longrightarrow> distinct (map fst (AList.delete k xs))"
  by (rule distinct_delete)

end
