(* ===== verification/Furan_Uuid.thy ===== *)
theory Furan_Uuid
  imports Furan_Prelude
begin

text \<open>
  The identifiers of builds and API keys: \<^verbatim>\<open>vendor/github.com/gofrs/uuid\<close>.  A \<^verbatim>\<open>UUID\<close> is an array
  of 16 bytes; it is modelled as the 128-bit word with these bytes, the first byte the most
  significant.  The printer \<open>uuid_String\<close> and the parser \<open>FromString\<close> with its six formats are
  translated, and the parser is shown to invert the printer.
\<close>

type_synonym uuid = "128 word"

section \<open>Hexadecimal digits\<close>

definition hextable :: string where
  "hextable = ''0123456789abcdef''"

definition hex_digit :: "nat \<Rightarrow> char" where
  "hex_digit d = hextable ! d"

text \<open>\<^verbatim>\<open>fromHexChar\<close> of \<^verbatim>\<open>encoding/hex\<close>.\<close>

definition fromHexChar :: "char \<Rightarrow> nat option" where
  "fromHexChar c =
     (let n = (of_char c :: nat)
      in if 48 \<le> n \<and> n \<le> 57 then Some (n - 48)
         else if 97 \<le> n \<and> n \<le> 102 then Some (n - 87)
         else if 65 \<le> n \<and> n \<le> 70 then Some (n - 55)
         else None)"

text \<open>
  \<^verbatim>\<open>hex.Decode\<close> of an even number of characters: the half-bytes in order, or the error of the
  first character that is no hexadecimal digit.
\<close>

fun hex_Decode :: "string \<Rightarrow> nat list go" where
  "hex_Decode [] = Ok []"
| "hex_Decode (c # cs) =
     (case fromHexChar c of
        None \<Rightarrow> Err (ErrMsg (''encoding/hex: invalid byte: '' @ [c]))
      | Some d \<Rightarrow> bind_go (hex_Decode cs) (\<lambda>ds. Ok (d # ds)))"

text \<open>The half-bytes of a UUID, most significant first, and the UUID with given half-bytes.\<close>

fun nibbles :: "nat \<Rightarrow> nat \<Rightarrow> nat list" where
  "nibbles 0 v = []"
| "nibbles (Suc k) v = nibbles k (v div 16) @ [v mod 16]"

definition hex_value :: "nat list \<Rightarrow> nat" where
  "hex_value ds = foldl (\<lambda>a d. 16 * a + d) 0 ds"

definition uuid_of_nibbles :: "nat list \<Rightarrow> uuid" where
  "uuid_of_nibbles ds = word_of_nat (hex_value ds)"

definition uuid_hex :: "uuid \<Rightarrow> string" where
  "uuid_hex u = map hex_digit (nibbles 32 (unat u))"

section \<open>Printing\<close>

definition uuid_String :: "uuid \<Rightarrow> string" where
  "uuid_String u =
     (let h = uuid_hex u
      in take 8 h @ ''-'' @ take 4 (drop 8 h) @ ''-'' @ take 4 (drop 12 h) @ ''-''
         @ take 4 (drop 16 h) @ ''-'' @ drop 20 h)"

section \<open>Parsing\<close>

definition byteGroups :: "nat list" where
  "byteGroups = [8, 4, 4, 4, 12]"

definition urnPrefix :: string where
  "urnPrefix = ''urn:uuid:''"

definition uuid_format_err :: goerr where
  "uuid_format_err = ErrMsg ''uuid: incorrect UUID format in string''"

definition uuid_length_err :: goerr where
  "uuid_length_err = ErrMsg ''uuid: incorrect UUID length in string''"

text \<open>The loop of \<^verbatim>\<open>decodeCanonical\<close>: each group is decoded, the dash before it skipped.\<close>

fun decode_groups :: "nat list \<Rightarrow> bool \<Rightarrow> string \<Rightarrow> nat list go" where
  "decode_groups [] first src = Ok []"
| "decode_groups (g # gs) first src =
     (let src' = (if first then src else tl src)
      in bind_go (hex_Decode (take g src'))
           (\<lambda>ds. bind_go (decode_groups gs False (drop g src')) (\<lambda>ds'. Ok (ds @ ds'))))"

definition decodeCanonical :: "string \<Rightarrow> uuid go" where
  "decodeCanonical t =
     (if t ! 8 \<noteq> CHR ''-'' \<or> t ! 13 \<noteq> CHR ''-'' \<or> t ! 18 \<noteq> CHR ''-'' \<or> t ! 23 \<noteq> CHR ''-''
      then Err uuid_format_err
      else bind_go (decode_groups byteGroups True t) (\<lambda>ds. Ok (uuid_of_nibbles ds)))"

definition decodeHashLike :: "string \<Rightarrow> uuid go" where
  "decodeHashLike t = bind_go (hex_Decode t) (\<lambda>ds. Ok (uuid_of_nibbles ds))"

definition decodePlain :: "string \<Rightarrow> uuid go" where
  "decodePlain t =
     (if length t = 32 then decodeHashLike t
      else if length t = 36 then decodeCanonical t
      else Err uuid_length_err)"

definition decodeBraced :: "string \<Rightarrow> uuid go" where
  "decodeBraced t =
     (if t ! 0 \<noteq> CHR ''{'' \<or> t ! (length t - 1) \<noteq> CHR ''}'' then Err uuid_format_err
      else decodePlain (take (length t - 2) (drop 1 t)))"

definition decodeURN :: "string \<Rightarrow> uuid go" where
  "decodeURN t =
     (if take 9 t \<noteq> urnPrefix then Err uuid_format_err else decodePlain (drop 9 t))"

definition UnmarshalText :: "string \<Rightarrow> uuid go" where
  "UnmarshalText t =
     (if length t = 32 then decodeHashLike t
      else if length t = 34 \<or> length t = 38 then decodeBraced t
      else if length t = 36 then decodeCanonical t
      else if length t = 41 \<or> length t = 45 then decodeURN t
      else Err uuid_length_err)"

definition FromString :: "string \<Rightarrow> uuid go" where
  "FromString s = UnmarshalText s"

section \<open>The parser inverts the printer\<close>

lemma length_nibbles [simp]: "length (nibbles k v) = k"
  by (induction k arbitrary: v) auto

lemma nibbles_lt: "d \<in> set (nibbles k v) \<Longrightarrow> d < 16"
  by (induction k arbitrary: v) auto

lemma hex_value_snoc [simp]: "hex_value (ds @ [d]) = 16 * hex_value ds + d"
  by (simp add: hex_value_def)

lemma hex_value_nibbles: "hex_value (nibbles k v) = v mod 16 ^ k"
proof (induction k arbitrary: v)
  case 0
  show ?case by (simp add: hex_value_def)
next
  case (Suc k)
  have "16 * ((v div 16) mod 16 ^ k) + v mod 16 = v mod (16 * 16 ^ k)"
    by (simp add: mod_mult2_eq)
  then show ?case by (simp add: Suc)
qed

lemma fromHexChar_hex_digit: "d < 16 \<Longrightarrow> fromHexChar (hex_digit d) = Some d"
proof -
  have "\<forall>d \<in> {..<16}. fromHexChar (hex_digit d) = Some d" by code_simp
  then show "d < 16 \<Longrightarrow> ?thesis" by simp
qed

lemma hex_digit_not_dash: "d < 16 \<Longrightarrow> hex_digit d \<noteq> CHR ''-''"
  using fromHexChar_hex_digit [of d] by (auto simp: fromHexChar_def)

lemma hex_Decode_map: "(\<And>d. d \<in> set ds \<Longrightarrow> d < 16) \<Longrightarrow> hex_Decode (map hex_digit ds) = Ok ds"
  by (induction ds) (auto simp: fromHexChar_hex_digit)

lemma length_uuid_hex [simp]: "length (uuid_hex u) = 32"
  by (simp add: uuid_hex_def)

lemma length_uuid_String [simp]: "length (uuid_String u) = 36"
  by (simp add: uuid_String_def Let_def)

lemma uuid_of_nibbles_32: "uuid_of_nibbles (nibbles 32 (unat u)) = u"
proof -
  have "unat u < 16 ^ 32" using unsigned_less [of u] by simp
  then show ?thesis by (simp add: uuid_of_nibbles_def hex_value_nibbles)
qed

lemma decode_groups_String:
  assumes "length ds = 32" "\<And>d. d \<in> set ds \<Longrightarrow> d < 16"
  shows "decode_groups byteGroups True
           (map hex_digit (take 8 ds) @ ''-'' @ map hex_digit (take 4 (drop 8 ds)) @ ''-''
            @ map hex_digit (take 4 (drop 12 ds)) @ ''-'' @ map hex_digit (take 4 (drop 16 ds))
            @ ''-'' @ map hex_digit (drop 20 ds)) = Ok ds"
proof -
  have in_ds: "\<And>n m. \<forall>d \<in> set (take n (drop m ds)). d < 16" "\<And>m. \<forall>d \<in> set (drop m ds). d < 16"
    "\<And>m. \<forall>d \<in> set (take m ds). d < 16"
    using assms(2) by (auto dest: in_set_takeD in_set_dropD)
  have split: "take 8 ds @ take 4 (drop 8 ds) @ take 4 (drop 12 ds) @ take 4 (drop 16 ds) @ drop 20 ds
      = ds"
    using append_take_drop_id [of 4 "drop 16 ds"] append_take_drop_id [of 4 "drop 12 ds"]
      append_take_drop_id [of 4 "drop 8 ds"] append_take_drop_id [of 8 ds]
    by simp
  show ?thesis
    using assms(1) in_ds
    by (simp add: byteGroups_def Let_def hex_Decode_map split)
qed

lemma decodeCanonical_String: "decodeCanonical (uuid_String u) = Ok u"
proof -
  let ?ds = "nibbles 32 (unat u)"
  have "decode_groups byteGroups True (uuid_String u) = Ok ?ds"
    using decode_groups_String [of ?ds]
    by (simp add: uuid_String_def uuid_hex_def Let_def take_map drop_map nibbles_lt)
  moreover have "uuid_String u ! 8 = CHR ''-''" "uuid_String u ! 13 = CHR ''-''"
    "uuid_String u ! 18 = CHR ''-''" "uuid_String u ! 23 = CHR ''-''"
    by (simp_all add: uuid_String_def Let_def nth_append)
  ultimately show ?thesis by (simp add: decodeCanonical_def uuid_of_nibbles_32)
qed

lemma FromString_String [simp]: "FromString (uuid_String u) = Ok u"
  by (simp add: FromString_def UnmarshalText_def decodeCanonical_String)

text \<open>Distinct identifiers print differently.\<close>

lemma uuid_String_inject: "uuid_String u = uuid_String v \<longleftrightarrow> u = v"
  by (metis FromString_String go.inject(1))

section \<open>Properties\<close>

lemma decodeHashLike_hex: "decodeHashLike (uuid_hex u) = Ok u"
  by (simp add: decodeHashLike_def uuid_hex_def hex_Decode_map nibbles_lt uuid_of_nibbles_32)

lemma decodePlain_forms: "decodePlain (uuid_hex u) = Ok u" "decodePlain (uuid_String u) = Ok u"
  by (simp_all add: decodePlain_def decodeHashLike_hex decodeCanonical_String)


end
