(* ===== verification/Furan_Models.thy ===== *)
theory Furan_Models
  imports Furan_Uuid "HOL-Library.Signed_Division"
begin

text \<open>
  The data the components exchange: the messages of \<^verbatim>\<open>pkg/generated/furanrpc/api.pb.go\<close> and the
  types of \<^verbatim>\<open>pkg/models\<close>.  A Go struct is a record, a pointer to a message an option, an
  \<^verbatim>\<open>int\<close>-based enumeration the integer itself, since values outside the named constants occur
  (a request carries any \<^verbatim>\<open>int32\<close>) and every \<^verbatim>\<open>switch\<close> has a default branch for them.  A Go
  map that is only ranged over is the list of its entries in the order of the iteration.
\<close>

section \<open>time.Time\<close>

text \<open>
  A \<^verbatim>\<open>time.Time\<close> without monotonic reading: signed 64-bit seconds since January 1, year 1, and
  nanoseconds in \<open>[0, 10\<^sup>9)\<close>.
\<close>

datatype gotime = Time (tm_sec: "64 word") (tm_nsec: nat)

text \<open>\<^verbatim>\<open>Before\<close> is \<open><\<close>, \<^verbatim>\<open>After\<close> its converse, \<^verbatim>\<open>Equal\<close> is equality.\<close>

instantiation gotime :: linorder
begin

definition less_gotime :: "gotime \<Rightarrow> gotime \<Rightarrow> bool" where
  "t < u \<longleftrightarrow> sint (tm_sec t) < sint (tm_sec u)
     \<or> (tm_sec t = tm_sec u \<and> tm_nsec t < tm_nsec u)"

definition less_eq_gotime :: "gotime \<Rightarrow> gotime \<Rightarrow> bool" where
  "t \<le> u \<longleftrightarrow> t < u \<or> t = (u :: gotime)"

instance
proof
  fix t u v :: gotime
  show "t < u \<longleftrightarrow> t \<le> u \<and> \<not> u \<le> t"
    by (auto simp: less_gotime_def less_eq_gotime_def)
  show "t \<le> t" by (simp add: less_eq_gotime_def)
  show "t \<le> u \<Longrightarrow> u \<le> v \<Longrightarrow> t \<le> v"
    by (auto simp: less_gotime_def less_eq_gotime_def)
  show "t \<le> u \<Longrightarrow> u \<le> t \<Longrightarrow> t = u"
    by (auto simp: less_gotime_def less_eq_gotime_def)
  show "t \<le> u \<or> u \<le> t"
  proof (cases "tm_sec t = tm_sec u")
    case True
    then show ?thesis
      by (cases t; cases u) (auto simp: less_gotime_def less_eq_gotime_def)
  next
    case False
    then have "sint (tm_sec t) \<noteq> sint (tm_sec u)" by (metis signed_word_eqI)
    then show ?thesis by (auto simp: less_gotime_def less_eq_gotime_def)
  qed
qed

end

definition zero_time :: gotime where
  "zero_time = Time 0 0"

definition IsZero :: "gotime \<Rightarrow> bool" where
  "IsZero t \<longleftrightarrow> t = zero_time"

definition unixToInternal :: "64 word" where
  "unixToInternal = 62135596800"

definition time_valid :: "gotime \<Rightarrow> bool" where
  "time_valid t \<longleftrightarrow> tm_nsec t < 10 ^ 9"

text \<open>\<^verbatim>\<open>time.Unix(sec, nsec)\<close>: nanoseconds outside \<open>[0, 10\<^sup>9)\<close> are carried into the seconds.\<close>

definition time_Unix :: "64 word \<Rightarrow> int \<Rightarrow> gotime" where
  "time_Unix sec nsec =
     (if nsec < 0 \<or> 10 ^ 9 \<le> nsec then
        (let n = nsec sdiv 10 ^ 9;
             sec1 = sec + of_int n;
             nsec1 = nsec - n * 10 ^ 9
         in if nsec1 < 0 then Time (sec1 - 1 + unixToInternal) (nat (nsec1 + 10 ^ 9))
            else Time (sec1 + unixToInternal) (nat nsec1))
      else Time (sec + unixToInternal) (nat nsec))"

text \<open>\<^verbatim>\<open>Time.Add\<close> and \<^verbatim>\<open>Time.Sub\<close>; a duration is a signed 64-bit number of nanoseconds.\<close>

definition time_Add :: "gotime \<Rightarrow> 64 word \<Rightarrow> gotime" where
  "time_Add t d =
     (let n = int (tm_nsec t) + sint d
      in Time (tm_sec t + of_int (n div 10 ^ 9)) (nat (n mod 10 ^ 9)))"

definition time_Sub :: "gotime \<Rightarrow> gotime \<Rightarrow> 64 word" where
  "time_Sub t u =
     (let d = (tm_sec t - tm_sec u) * 10 ^ 9 + (of_nat (tm_nsec t) - of_nat (tm_nsec u))
      in if time_Add u d = t then d else if t < u then 2 ^ 63 else 2 ^ 63 - 1)"

lemma time_Add_valid: "time_valid (time_Add t d)"
  by (simp add: time_valid_def time_Add_def Let_def nat_less_iff)

section \<open>furanrpc messages\<close>

abbreviation (input) "BuildState_UNKNOWN \<equiv> 0 :: int"
abbreviation (input) "BuildState_NOTSTARTED \<equiv> 1 :: int"
abbreviation (input) "BuildState_SKIPPED \<equiv> 2 :: int"
abbreviation (input) "BuildState_RUNNING \<equiv> 3 :: int"
abbreviation (input) "BuildState_FAILURE \<equiv> 4 :: int"
abbreviation (input) "BuildState_SUCCESS \<equiv> 5 :: int"
abbreviation (input) "BuildState_CANCEL_REQUESTED \<equiv> 6 :: int"
abbreviation (input) "BuildState_CANCELLED \<equiv> 7 :: int"

type_synonym BuildState = int

definition BuildState_name :: "(int \<times> string) list" where
  "BuildState_name =
     [(0, ''UNKNOWN''), (1, ''NOTSTARTED''), (2, ''SKIPPED''), (3, ''RUNNING''),
      (4, ''FAILURE''), (5, ''SUCCESS''), (6, ''CANCEL_REQUESTED''), (7, ''CANCELLED'')]"

text \<open>\<^verbatim>\<open>BuildState.String\<close>: the name from the table, or the number when the table has none.\<close>

definition BuildState_String :: "BuildState \<Rightarrow> string" where
  "BuildState_String x =
     (case map_of BuildState_name x of Some n \<Rightarrow> n | None \<Rightarrow> itoa x)"

abbreviation (input) "BuildCacheOpts_UNKNOWN \<equiv> 0 :: int"
abbreviation (input) "BuildCacheOpts_DISABLED \<equiv> 1 :: int"
abbreviation (input) "BuildCacheOpts_S3 \<equiv> 2 :: int"
abbreviation (input) "BuildCacheOpts_INLINE \<equiv> 3 :: int"

record Timestamp =
  ts_Seconds :: "64 word"
  ts_Nanos :: "32 word"

record BuildCacheOpts =
  co_Type :: int
  co_MaxMode :: bool

record BuildResources =
  br_CpuRequest :: string
  br_CpuLimit :: string
  br_MemoryRequest :: string
  br_MemoryLimit :: string

record BuildDefinition =
  bd_GithubRepo :: string
  bd_GithubCredential :: string
  bd_DockerfilePath :: string
  bd_Ref :: string
  bd_Tags :: "string list"
  bd_TagWithCommitSha :: bool
  bd_Args :: "(string \<times> string) list"
  bd_CacheOptions :: "BuildCacheOpts option"
  bd_Resources :: "BuildResources option"

record PushRegistryDefinition =
  pr_Repo :: string

record PushDefinition =
  pd_Registries :: "PushRegistryDefinition option list"

record BuildRequest =
  rq_Build :: "BuildDefinition option"
  rq_Push :: "PushDefinition option"
  rq_SkipIfExists :: bool

record BuildStatusResponse =
  sr_BuildId :: string
  sr_BuildRequest :: "BuildRequest option"
  sr_State :: BuildState
  sr_Started :: "Timestamp option"
  sr_Completed :: "Timestamp option"

record BuildEvent =
  ev_BuildId :: string
  ev_Message :: string
  ev_CurrentState :: BuildState

record BuildEventsResponse =
  er_BuildId :: string
  er_CurrentState :: BuildState
  er_Messages :: "string list"

record ListBuildsRequest =
  lr_WithGithubRepo :: string
  lr_WithGithubRef :: string
  lr_WithImageRepo :: string
  lr_WithBuildState :: BuildState
  lr_CompletedAfter :: "Timestamp option"
  lr_StartedAfter :: "Timestamp option"
  lr_CompletedBefore :: "Timestamp option"
  lr_StartedBefore :: "Timestamp option"
  lr_Limit :: "32 word"

text \<open>The nil-safe getters.\<close>

definition GetRegistries :: "PushDefinition option \<Rightarrow> PushRegistryDefinition option list" where
  "GetRegistries m = (case m of Some p \<Rightarrow> pd_Registries p | None \<Rightarrow> [])"

definition GetTags :: "BuildDefinition option \<Rightarrow> string list" where
  "GetTags m = (case m of Some b \<Rightarrow> bd_Tags b | None \<Rightarrow> [])"

definition GetArgs :: "BuildDefinition option \<Rightarrow> (string \<times> string) list" where
  "GetArgs m = (case m of Some b \<Rightarrow> bd_Args b | None \<Rightarrow> [])"

definition zero_Timestamp :: Timestamp where
  "zero_Timestamp = \<lparr>ts_Seconds = 0, ts_Nanos = 0\<rparr>"

definition zero_CacheOpts :: BuildCacheOpts where
  "zero_CacheOpts = \<lparr>co_Type = BuildCacheOpts_UNKNOWN, co_MaxMode = False\<rparr>"

definition zero_Resources :: BuildResources where
  "zero_Resources =
     \<lparr>br_CpuRequest = [], br_CpuLimit = [], br_MemoryRequest = [], br_MemoryLimit = []\<rparr>"

definition zero_Request :: BuildRequest where
  "zero_Request = \<lparr>rq_Build = None, rq_Push = None, rq_SkipIfExists = False\<rparr>"

section \<open>models.BuildStatus\<close>

type_synonym BuildStatus = int

abbreviation (input) "BuildStatusUnknown \<equiv> 0 :: int"
abbreviation (input) "BuildStatusNotStarted \<equiv> 1 :: int"
abbreviation (input) "BuildStatusSkipped \<equiv> 2 :: int"
abbreviation (input) "BuildStatusRunning \<equiv> 3 :: int"
abbreviation (input) "BuildStatusFailure \<equiv> 4 :: int"
abbreviation (input) "BuildStatusSuccess \<equiv> 5 :: int"
abbreviation (input) "BuildStatusCancelRequested \<equiv> 6 :: int"
abbreviation (input) "BuildStatusCancelled \<equiv> 7 :: int"

definition State :: "BuildStatus \<Rightarrow> BuildState" where
  "State bs =
     (if bs = BuildStatusUnknown then BuildState_UNKNOWN
      else if bs = BuildStatusNotStarted then BuildState_NOTSTARTED
      else if bs = BuildStatusSkipped then BuildState_SKIPPED
      else if bs = BuildStatusRunning then BuildState_RUNNING
      else if bs = BuildStatusFailure then BuildState_FAILURE
      else if bs = BuildStatusSuccess then BuildState_SUCCESS
      else if bs = BuildStatusCancelRequested then BuildState_CANCEL_REQUESTED
      else if bs = BuildStatusCancelled then BuildState_CANCELLED
      else BuildState_UNKNOWN)"

definition BuildStatusFromState :: "BuildState \<Rightarrow> BuildStatus" where
  "BuildStatusFromState s =
     (if s = BuildState_UNKNOWN then BuildStatusUnknown
      else if s = BuildState_NOTSTARTED then BuildStatusNotStarted
      else if s = BuildState_SKIPPED then BuildStatusSkipped
      else if s = BuildState_RUNNING then BuildStatusRunning
      else if s = BuildState_FAILURE then BuildStatusFailure
      else if s = BuildState_SUCCESS then BuildStatusSuccess
      else if s = BuildState_CANCEL_REQUESTED then BuildStatusCancelRequested
      else if s = BuildState_CANCELLED then BuildStatusCancelled
      else BuildStatusUnknown)"

definition TerminalState :: "BuildStatus \<Rightarrow> bool" where
  "TerminalState bs \<longleftrightarrow>
     bs = BuildStatusSuccess \<or> bs = BuildStatusFailure \<or> bs = BuildStatusSkipped
     \<or> bs = BuildStatusCancelled"

text \<open>The declared constants.\<close>

definition known_status :: "BuildStatus \<Rightarrow> bool" where
  "known_status bs \<longleftrightarrow> BuildStatusUnknown \<le> bs \<and> bs \<le> BuildStatusCancelled"

lemma known_status_consts [simp, intro]:
  "known_status BuildStatusUnknown" "known_status BuildStatusNotStarted" "known_status BuildStatusRunning"
  "known_status BuildStatusFailure" "known_status BuildStatusSuccess" "known_status BuildStatusSkipped"
  "known_status BuildStatusCancelRequested" "known_status BuildStatusCancelled"
  by (simp_all add: known_status_def)

lemma TerminalState_known: "TerminalState bs \<Longrightarrow> known_status bs"
  by (auto simp: TerminalState_def known_status_def)

text \<open>The string table that \<^verbatim>\<open>stringer\<close> generated, and the lookup in it.\<close>

definition BuildStatus_name :: string where
  "BuildStatus_name =
     ''BuildStatusUnknownBuildStatusNotStartedBuildStatusSkippedBuildStatusRunningBuildStatusFailureBuildStatusSuccessBuildStatusCancelRequestedBuildStatusCancelled''"

definition BuildStatus_index :: "nat list" where
  "BuildStatus_index = [0, 18, 39, 57, 75, 93, 111, 137, 157]"

definition BuildStatus_String :: "BuildStatus \<Rightarrow> string" where
  "BuildStatus_String i =
     (if i < 0 \<or> i \<ge> int (length BuildStatus_index) - 1 then ''BuildStatus('' @ itoa i @ '')''
      else (let lo = BuildStatus_index ! nat i; hi = BuildStatus_index ! (nat i + 1)
            in take (hi - lo) (drop lo BuildStatus_name)))"

section \<open>models.Build and its relatives\<close>

record BuildOpts =
  bo_BuildID :: uuid
  bo_ContextPath :: string
  bo_CommitSHA :: string
  bo_RelativeDockerfilePath :: string
  bo_BuildArgs :: "(string \<times> string) list"
  bo_Cache :: BuildCacheOpts
  bo_Resources :: BuildResources

record Build =
  b_ID :: uuid
  b_Created :: gotime
  b_Updated :: gotime
  b_Completed :: gotime
  b_GitHubRepo :: string
  b_GitHubRef :: string
  b_EncryptedGitHubCredential :: string
  b_ImageRepos :: "string list"
  b_Tags :: "string list"
  b_CommitSHATag :: bool
  b_BuildOptions :: BuildOpts
  b_Request :: BuildRequest
  b_Status :: BuildStatus
  b_Events :: "string list"

record APIKey =
  ak_ID :: uuid
  ak_Created :: gotime
  ak_GitHubUser :: string
  ak_Name :: string
  ak_Description :: string
  ak_ReadOnly :: bool

definition zero_BuildOpts :: BuildOpts where
  "zero_BuildOpts =
     \<lparr>bo_BuildID = 0, bo_ContextPath = [], bo_CommitSHA = [], bo_RelativeDockerfilePath = [],
      bo_BuildArgs = [], bo_Cache = zero_CacheOpts, bo_Resources = zero_Resources\<rparr>"

definition zero_Build :: Build where
  "zero_Build =
     \<lparr>b_ID = 0, b_Created = zero_time, b_Updated = zero_time, b_Completed = zero_time,
      b_GitHubRepo = [], b_GitHubRef = [], b_EncryptedGitHubCredential = [], b_ImageRepos = [],
      b_Tags = [], b_CommitSHATag = False, b_BuildOptions = zero_BuildOpts,
      b_Request = zero_Request, b_Status = BuildStatusUnknown, b_Events = []\<rparr>"

definition EventListenable :: "Build \<Rightarrow> bool" where
  "EventListenable b \<longleftrightarrow> \<not> TerminalState (b_Status b)"

definition CanAddEvent :: "Build \<Rightarrow> bool" where
  "CanAddEvent b \<longleftrightarrow> EventListenable b"

definition Running :: "Build \<Rightarrow> bool" where
  "Running b \<longleftrightarrow> b_Status b = BuildStatusRunning"

definition TimeFromRPCTimestamp :: "Timestamp \<Rightarrow> gotime" where
  "TimeFromRPCTimestamp ts = time_Unix (ts_Seconds ts) (sint (ts_Nanos ts))"

definition RPCTimestampFromTime :: "gotime \<Rightarrow> Timestamp" where
  "RPCTimestampFromTime t =
     \<lparr>ts_Seconds = tm_sec t - unixToInternal, ts_Nanos = word_of_nat (tm_nsec t)\<rparr>"

text \<open>
  The credential is sealed with \<^verbatim>\<open>nacl/secretbox\<close>, which is not furan's code: \<open>seal\<close> and
  \<open>open_box\<close> stand for \<^verbatim>\<open>secretbox.Seal(nil, \<dots>)\<close> and \<^verbatim>\<open>secretbox.Open(nil, \<dots>)\<close>.  \<open>rd\<close> is what
  \<^verbatim>\<open>rand.Read(nonce[:])\<close> did: the bytes of the nonce, the count and the error.
  \<^verbatim>\<open>errors.Wrapf\<close> of a nil error is nil, hence the branch that reports success.
\<close>

definition nonce_read_msg :: "nat \<Rightarrow> string" where
  "nonce_read_msg n =
     ''error reading random bytes for nonce (read: '' @ itoa (int n) @ ''): ''"

definition EncryptAndSetGitHubCredential ::
  "(string \<Rightarrow> string \<Rightarrow> string \<Rightarrow> string) \<Rightarrow> string \<times> nat \<times> goerr option \<Rightarrow> string \<Rightarrow> string
     \<Rightarrow> Build \<Rightarrow> Build \<times> unit go" where
  "EncryptAndSetGitHubCredential seal rd cred key b =
     (case rd of (nonce, n, err) \<Rightarrow>
        if err \<noteq> None \<or> n \<noteq> 24 then
          (b, case err of None \<Rightarrow> Ok () | Some e \<Rightarrow> Err (Wrapf (nonce_read_msg n) e))
        else (b\<lparr>b_EncryptedGitHubCredential := nonce @ seal nonce key cred\<rparr>, Ok ()))"

text \<open>
  \<^verbatim>\<open>secretbox.Open(nil, \<dots>)\<close> of a box with an empty message returns a nil slice, so that an
  empty token is reported as an error.  The slice expressions panic on fewer than 24 bytes.
\<close>

definition GetGitHubCredential ::
  "(string \<Rightarrow> string \<Rightarrow> string \<Rightarrow> string option) \<Rightarrow> Build \<Rightarrow> string \<Rightarrow> string go" where
  "GetGitHubCredential open_box b key =
     (let enc = b_EncryptedGitHubCredential b
      in if length enc < 24 then Panic ''slice bounds out of range''
         else case open_box (take 24 enc) key (drop 24 enc) of
                None \<Rightarrow> Err (ErrMsg ''decryption error (incorrect key?)'')
              | Some tkn \<Rightarrow>
                  if tkn = [] then Err (ErrMsg ''decrypted token was nil'') else Ok tkn)"

section \<open>Lemmas\<close>

lemma State_range: "State bs \<in> {0..7}"
  by (simp add: State_def)

lemma FromState_State: "bs \<in> {0..7} \<Longrightarrow> BuildStatusFromState (State bs) = bs"
  by (auto simp: State_def BuildStatusFromState_def)

lemma State_FromState: "s \<in> {0..7} \<Longrightarrow> State (BuildStatusFromState s) = s"
  by (auto simp: State_def BuildStatusFromState_def)

lemma TerminalState_simps [simp]:
  "\<not> TerminalState BuildStatusUnknown" "\<not> TerminalState BuildStatusNotStarted"
  "TerminalState BuildStatusSkipped" "\<not> TerminalState BuildStatusRunning"
  "TerminalState BuildStatusFailure" "TerminalState BuildStatusSuccess"
  "\<not> TerminalState BuildStatusCancelRequested" "TerminalState BuildStatusCancelled"
  by (simp_all add: TerminalState_def)

lemma TerminalState_one [simp]: "\<not> TerminalState 1"
  by (simp add: TerminalState_def)

lemma time_le_refl_cases: "t \<le> u \<longleftrightarrow> t < u \<or> t = (u :: gotime)"
  by (rule less_eq_gotime_def)

text \<open>The carry of \<^verbatim>\<open>time.Unix\<close> leaves nanoseconds in range.\<close>

lemma time_Unix_valid: "time_valid (time_Unix sec n)"
proof -
  let ?m = "n - n sdiv 10 ^ 9 * 10 ^ 9"
  have m: "?m = n smod 10 ^ 9"
    by (rule minus_sdiv_mult_eq_smod)
  have "n smod 10 ^ 9 \<in> {- \<bar>10 ^ 9\<bar> + 1..\<bar>10 ^ 9\<bar> - 1}"
    by (rule smod_int_range) simp
  then have b: "?m < 10 ^ 9" "- (10 ^ 9) < ?m" unfolding m by auto
  show ?thesis
  proof (cases "n < 0 \<or> 10 ^ 9 \<le> n")
    case True
    then have "tm_nsec (time_Unix sec n) = (if ?m < 0 then nat (?m + 10 ^ 9) else nat ?m)"
      by (simp only: time_Unix_def Let_def if_True if_distrib [of tm_nsec] gotime.sel)
    with b show ?thesis by (auto simp: time_valid_def simp del: minus_sdiv_mult_eq_smod)
  next
    case False
    then show ?thesis by (auto simp: time_Unix_def time_valid_def)
  qed
qed

lemma TimeFromRPC_valid: "time_valid (TimeFromRPCTimestamp ts)"
  unfolding TimeFromRPCTimestamp_def by (rule time_Unix_valid)

lemma nanos_small:
  assumes "time_valid t"
  shows "sint (word_of_nat (tm_nsec t) :: 32 word) = int (tm_nsec t)"
proof -
  have "tm_nsec t < 2 ^ 31" using assms by (simp add: time_valid_def)
  then show ?thesis
    by (simp add: signed_of_nat signed_take_bit_int_eq_self)
qed

lemma TimeFromRPC_RPCTimestamp:
  assumes "time_valid t"
  shows "TimeFromRPCTimestamp (RPCTimestampFromTime t) = t"
proof -
  have "sint (word_of_nat (tm_nsec t) :: 32 word) = int (tm_nsec t)" "tm_nsec t < 10 ^ 9"
    using assms nanos_small by (simp_all add: time_valid_def)
  then show ?thesis
    by (simp add: TimeFromRPCTimestamp_def RPCTimestampFromTime_def time_Unix_def)
qed

section \<open>Properties\<close>

text \<open>
  The statuses and the wire states correspond: going to the wire and back is the identity on
  the eight named values, both ways, and every other value becomes the unknown one.
\<close>

theorem status_wire_roundtrip:
  "BuildStatusFromState (State bs) = (if bs \<in> {0..7} then bs else BuildStatusUnknown)
   \<and> State (BuildStatusFromState st) = (if st \<in> {0..7} then st else BuildState_UNKNOWN)"
proof -
  have "x \<in> {0..7} \<longleftrightarrow> x \<in> {0, 1, 2, 3, 4, 5, 6, 7}" for x :: int by auto
  then show ?thesis by (simp add: State_def BuildStatusFromState_def)
qed

text \<open>
  The table that \<^verbatim>\<open>stringer\<close> generated is right: the slice of the name string that belongs
  to each named status is the name of its constant, and other values print their number.
\<close>

theorem status_names:
  "map BuildStatus_String [0..7] =
     [''BuildStatusUnknown'', ''BuildStatusNotStarted'', ''BuildStatusSkipped'', ''BuildStatusRunning'',
      ''BuildStatusFailure'', ''BuildStatusSuccess'', ''BuildStatusCancelRequested'', ''BuildStatusCancelled'']
   \<and> (if bs \<in> {0..7} then True else BuildStatus_String bs = ''BuildStatus('' @ itoa bs @ '')'')"
proof -
  have "map BuildStatus_String [0..7] =
     [''BuildStatusUnknown'', ''BuildStatusNotStarted'', ''BuildStatusSkipped'', ''BuildStatusRunning'',
      ''BuildStatusFailure'', ''BuildStatusSuccess'', ''BuildStatusCancelRequested'', ''BuildStatusCancelled'']"
    by code_simp
  then show ?thesis
    by (auto simp: BuildStatus_String_def BuildStatus_index_def)
qed

text \<open>
  C38: a time goes to the wire and back unchanged, whatever its seconds, also for the zero time
  and for times before 1970.
\<close>

theorem timestamp_roundtrip:
  assumes "time_valid t"
  shows "TimeFromRPCTimestamp (RPCTimestampFromTime t) = t"
  by (rule TimeFromRPC_RPCTimestamp [OF assms])

theorem timestamp_roundtrip_witness:
  "TimeFromRPCTimestamp (RPCTimestampFromTime (Time (- 5) 999999999)) = Time (- 5) 999999999"
  by (rule timestamp_roundtrip) (simp add: time_valid_def)

text \<open>
  A credential that was sealed with a nonce of 24 bytes is what the build gives back under the
  same key, provided the box opens what it sealed and the credential is not empty; the rest of the
  build is untouched.
\<close>

theorem credential_roundtrip:
  assumes "\<And>n k m. length n = 24 \<Longrightarrow> open_box n k (seal n k m) = Some m"
    and "length nonce = 24" "cred \<noteq> []"
  shows "\<exists>b'. EncryptAndSetGitHubCredential seal (nonce, 24, None) cred key b = (b', Ok ())
    \<and> GetGitHubCredential open_box b' key = Ok cred
    \<and> b'\<lparr>b_EncryptedGitHubCredential := b_EncryptedGitHubCredential b\<rparr> = b"
  using assms by (simp add: EncryptAndSetGitHubCredential_def GetGitHubCredential_def Let_def)

theorem credential_roundtrip_witness:
  "\<exists>b'. EncryptAndSetGitHubCredential (\<lambda>n k m. rev m) (replicate 24 CHR ''n'', 24, None) ''token'' ''key'' zero_Build
      = (b', Ok ())
    \<and> GetGitHubCredential (\<lambda>n k box. Some (rev box)) b' ''key'' = Ok ''token''
    \<and> b'\<lparr>b_EncryptedGitHubCredential := b_EncryptedGitHubCredential zero_Build\<rparr> = zero_Build"
  by (rule credential_roundtrip) simp_all

end
