(* ===== verification/Furan_Datalayer.thy ===== *)
theory Furan_Datalayer
  imports Furan_Models
begin

text \<open>
  The interface \<^verbatim>\<open>DataLayer\<close> of \<^verbatim>\<open>pkg/datalayer/datalayer.go\<close>.  A Go interface value is a record
  of functions; the components that use a data layer take such a record as an argument, as the
  code does.  What a data layer promises is the locale \<open>data_layer\<close>; \<open>reliable_layer\<close> adds that
  calls succeed while the store is healthy.  Both implementations in the repository
  (\<^verbatim>\<open>FakeDataLayer\<close> and \<^verbatim>\<open>PostgresDBLayer\<close>) are interpretations.

  The methods that block take two functions on the state: what the rest of the system does
  between the look at the build's status and the registration of the listener, and what it does
  while the call waits.  \<open>dl_ListenForBuildEvents\<close> returns the events it forwarded and the error it
  ended with, or \<open>None\<close> if it goes on for ever.
\<close>

record ListBuildsOptions =
  lo_WithGitHubRepo :: string
  lo_WithGitHubRef :: string
  lo_WithImageRepo :: string
  lo_WithStatus :: BuildStatus
  lo_CompletedAfter :: gotime
  lo_StartedAfter :: gotime
  lo_CompletedBefore :: gotime
  lo_StartedBefore :: gotime
  lo_Limit :: "64 word"

definition zero_ListBuildsOptions :: ListBuildsOptions where
  "zero_ListBuildsOptions =
     \<lparr>lo_WithGitHubRepo = [], lo_WithGitHubRef = [], lo_WithImageRepo = [],
      lo_WithStatus = BuildStatusUnknown, lo_CompletedAfter = zero_time,
      lo_StartedAfter = zero_time, lo_CompletedBefore = zero_time,
      lo_StartedBefore = zero_time, lo_Limit = 0\<rparr>"

type_synonym 's interference = "'s \<Rightarrow> 's"

record 's DataLayer =
  dl_CreateBuild :: "ctx \<Rightarrow> Build \<Rightarrow> ('s, uuid) act"
  dl_GetBuildByID :: "ctx \<Rightarrow> uuid \<Rightarrow> ('s, Build) act"
  dl_ListBuilds :: "ctx \<Rightarrow> ListBuildsOptions \<Rightarrow> ('s, Build list) act"
  dl_SetBuildCompletedTimestamp :: "ctx \<Rightarrow> uuid \<Rightarrow> gotime \<Rightarrow> ('s, unit) act"
  dl_SetBuildStatus :: "ctx \<Rightarrow> uuid \<Rightarrow> BuildStatus \<Rightarrow> ('s, unit) act"
  dl_DeleteBuild :: "ctx \<Rightarrow> uuid \<Rightarrow> ('s, unit) act"
  dl_CancelBuild :: "ctx \<Rightarrow> uuid \<Rightarrow> ('s, unit) act"
  dl_ListenForCancellation ::
    "'s interference \<Rightarrow> 's interference \<Rightarrow> ctx \<Rightarrow> uuid \<Rightarrow> ('s, unit) act"
  dl_ListenForBuildEvents ::
    "'s interference \<Rightarrow> 's interference \<Rightarrow> ctx \<Rightarrow> uuid
       \<Rightarrow> 's \<Rightarrow> ('s \<times> string list \<times> goerr) option"
  dl_AddEvent :: "ctx \<Rightarrow> uuid \<Rightarrow> string \<Rightarrow> ('s, unit) act"
  dl_SetBuildAsRunning :: "ctx \<Rightarrow> uuid \<Rightarrow> ('s, unit) act"
  dl_ListenForBuildRunning ::
    "'s interference \<Rightarrow> 's interference \<Rightarrow> ctx \<Rightarrow> uuid \<Rightarrow> ('s, unit) act"
  dl_SetBuildAsCompleted :: "ctx \<Rightarrow> uuid \<Rightarrow> BuildStatus \<Rightarrow> ('s, unit) act"
  dl_ListenForBuildCompleted ::
    "'s interference \<Rightarrow> 's interference \<Rightarrow> ctx \<Rightarrow> uuid \<Rightarrow> ('s, BuildStatus) act"
  dl_CreateAPIKey :: "ctx \<Rightarrow> APIKey \<Rightarrow> ('s, uuid) act"
  dl_GetAPIKey :: "ctx \<Rightarrow> uuid \<Rightarrow> ('s, APIKey) act"
  dl_DeleteAPIKey :: "ctx \<Rightarrow> uuid \<Rightarrow> ('s, unit) act"

section \<open>The abstract store\<close>

text \<open>
  The abstract state of a data layer: the builds by identifier, without the time stamps, which
  the implementations take from different clocks and store with different resolution.
\<close>

definition erase :: "Build \<Rightarrow> Build" where
  "erase b = b\<lparr>b_Created := zero_time, b_Updated := zero_time, b_Completed := zero_time\<rparr>"

type_synonym store = "uuid \<rightharpoonup> Build"

definition set_status :: "store \<Rightarrow> uuid \<Rightarrow> BuildStatus \<Rightarrow> store" where
  "set_status m bid st =
     (case m bid of None \<Rightarrow> m | Some b \<Rightarrow> m(bid \<mapsto> b\<lparr>b_Status := st\<rparr>))"

definition push_event :: "store \<Rightarrow> uuid \<Rightarrow> string \<Rightarrow> store" where
  "push_event m bid e =
     (case m bid of None \<Rightarrow> m | Some b \<Rightarrow> m(bid \<mapsto> b\<lparr>b_Events := b_Events b @ [e]\<rparr>))"

definition status_of :: "store \<Rightarrow> uuid \<Rightarrow> BuildStatus option" where
  "status_of m bid = map_option b_Status (m bid)"

text \<open>\<open>b'\<close> is what \<^verbatim>\<open>CreateBuild\<close> stores for \<open>b\<close> under \<open>bid\<close>.\<close>

definition created_as :: "Build \<Rightarrow> uuid \<Rightarrow> Build \<Rightarrow> bool" where
  "created_as b bid b' \<longleftrightarrow>
     b_ID b' = bid \<and> b_Status b' = BuildStatusNotStarted
     \<and> b_GitHubRepo b' = b_GitHubRepo b \<and> b_GitHubRef b' = b_GitHubRef b
     \<and> b_EncryptedGitHubCredential b' = b_EncryptedGitHubCredential b
     \<and> b_ImageRepos b' = b_ImageRepos b \<and> b_Tags b' = b_Tags b
     \<and> b_CommitSHATag b' = b_CommitSHATag b
     \<and> bo_Resources (b_BuildOptions b') = bo_Resources (b_BuildOptions b)
     \<and> bo_RelativeDockerfilePath (b_BuildOptions b') = bo_RelativeDockerfilePath (b_BuildOptions b)
     \<and> bo_BuildArgs (b_BuildOptions b') = bo_BuildArgs (b_BuildOptions b)
     \<and> bo_Cache (b_BuildOptions b') = bo_Cache (b_BuildOptions b)
     \<and> rq_SkipIfExists (b_Request b') = rq_SkipIfExists (b_Request b)
     \<and> (rq_Build (b_Request b') = None \<longleftrightarrow> rq_Build (b_Request b) = None)"

lemma erase_fields [simp]:
  "b_ID (erase b) = b_ID b" "b_Status (erase b) = b_Status b" "b_Events (erase b) = b_Events b"
  "b_GitHubRepo (erase b) = b_GitHubRepo b" "b_GitHubRef (erase b) = b_GitHubRef b"
  "b_EncryptedGitHubCredential (erase b) = b_EncryptedGitHubCredential b"
  "b_ImageRepos (erase b) = b_ImageRepos b" "b_Tags (erase b) = b_Tags b"
  "b_CommitSHATag (erase b) = b_CommitSHATag b" "b_BuildOptions (erase b) = b_BuildOptions b"
  "b_Request (erase b) = b_Request b"
  by (simp_all add: erase_def)

lemma erase_idem [simp]: "erase (erase b) = erase b"
  by (simp add: erase_def)

lemma erase_update [simp]:
  "erase (b\<lparr>b_Status := st\<rparr>) = (erase b)\<lparr>b_Status := st\<rparr>"
  "erase (b\<lparr>b_Events := es\<rparr>) = (erase b)\<lparr>b_Events := es\<rparr>"
  "erase (b\<lparr>b_Updated := t\<rparr>) = erase b"
  "erase (b\<lparr>b_Completed := t\<rparr>) = erase b"
  "erase (b\<lparr>b_Created := t\<rparr>) = erase b"
  by (simp_all add: erase_def)

lemma set_status_apply:
  "set_status m bid st i = (if i = bid then map_option (\<lambda>b. b\<lparr>b_Status := st\<rparr>) (m bid) else m i)"
  by (auto simp: set_status_def split: option.splits)

lemma push_event_apply:
  "push_event m bid e i =
     (if i = bid then map_option (\<lambda>b. b\<lparr>b_Events := b_Events b @ [e]\<rparr>) (m bid) else m i)"
  by (auto simp: push_event_def split: option.splits)

lemma dom_set_status [simp]: "dom (set_status m bid st) = dom m"
  by (auto simp: set_status_def split: option.splits)

lemma status_of_set_status [simp]:
  "status_of (set_status m bid st) i =
     (if i = bid \<and> m bid \<noteq> None then Some st else status_of m i)"
  by (auto simp: status_of_def set_status_apply)

lemma status_of_push_event [simp]: "status_of (push_event m bid e) i = status_of m i"
  by (auto simp: status_of_def push_event_apply option.map_comp comp_def)

section \<open>What the options of a listing select\<close>

definition selects :: "ListBuildsOptions \<Rightarrow> Build \<Rightarrow> bool" where
  "selects opts b \<longleftrightarrow>
     (lo_WithGitHubRepo opts \<noteq> [] \<longrightarrow> b_GitHubRepo b = lo_WithGitHubRepo opts)
     \<and> (lo_WithGitHubRef opts \<noteq> [] \<longrightarrow> b_GitHubRef b = lo_WithGitHubRef opts)
     \<and> (lo_WithImageRepo opts \<noteq> [] \<longrightarrow> lo_WithImageRepo opts \<in> set (b_ImageRepos b))
     \<and> (lo_WithStatus opts \<noteq> BuildStatusUnknown \<longrightarrow> b_Status b = lo_WithStatus opts)
     \<and> (\<not> IsZero (lo_CompletedAfter opts) \<longrightarrow> lo_CompletedAfter opts \<le> b_Completed b)
     \<and> (\<not> IsZero (lo_StartedAfter opts) \<longrightarrow> lo_StartedAfter opts \<le> b_Created b)
     \<and> (\<not> IsZero (lo_CompletedBefore opts) \<longrightarrow>
          \<not> IsZero (b_Completed b) \<and> b_Completed b < lo_CompletedBefore opts)
     \<and> (\<not> IsZero (lo_StartedBefore opts) \<longrightarrow>
          \<not> IsZero (b_Created b) \<and> b_Created b < lo_StartedBefore opts)"

definition options_ok :: "ListBuildsOptions \<Rightarrow> bool" where
  "options_ok opts \<longleftrightarrow>
     opts \<noteq> zero_ListBuildsOptions
     \<and> \<not> (\<not> IsZero (lo_CompletedBefore opts) \<and> lo_CompletedBefore opts = lo_CompletedAfter opts)
     \<and> \<not> (\<not> IsZero (lo_StartedBefore opts) \<and> lo_StartedBefore opts = lo_StartedAfter opts)"

lemma options_ok_guards:
  assumes "options_ok opts"
  shows "opts \<noteq> zero_ListBuildsOptions"
    "\<not> (\<not> IsZero (lo_CompletedBefore opts) \<and> \<not> IsZero (lo_CompletedAfter opts)
         \<and> lo_CompletedBefore opts = lo_CompletedAfter opts)"
    "\<not> (\<not> IsZero (lo_StartedBefore opts) \<and> \<not> IsZero (lo_StartedAfter opts)
         \<and> lo_StartedBefore opts = lo_StartedAfter opts)"
  using assms by (auto simp: options_ok_def)

section \<open>The contract\<close>

locale data_layer =
  fixes dl :: "'s DataLayer"
    and view :: "'s \<Rightarrow> store"
    and keys :: "'s \<Rightarrow> uuid \<rightharpoonup> APIKey"
    and inv :: "'s \<Rightarrow> bool"
  assumes get_step:
    "inv s \<Longrightarrow> dl_GetBuildByID dl c bid s = (s', rb) \<Longrightarrow>
       inv s' \<and> view s' = view s \<and> keys s' = keys s
       \<and> (\<forall>b. rb = Ok b \<longrightarrow> view s bid = Some (erase b) \<and> b_ID b = bid)
       \<and> (rb = Err ErrNotFound \<longrightarrow> view s bid = None) \<and> (\<forall>m. rb \<noteq> Panic m)"
  and create_step:
    "inv s \<Longrightarrow> dl_CreateBuild dl c b s = (s', Ok bid) \<Longrightarrow>
       inv s' \<and> keys s' = keys s
       \<and> (\<exists>b'. created_as b bid b' \<and> view s' = (view s)(bid \<mapsto> b'))"
  and event_step:
    "inv s \<Longrightarrow> dl_AddEvent dl c bid e s = (s', r) \<Longrightarrow>
       inv s' \<and> keys s' = keys s \<and> (\<forall>m. r \<noteq> Panic m)
       \<and> (view s' = view s \<or> view s' = push_event (view s) bid e)"
  and event_ok:
    "inv s \<Longrightarrow> dl_AddEvent dl c bid e s = (s', Ok ()) \<Longrightarrow> view s' = push_event (view s) bid e"
  and running_step:
    "inv s \<Longrightarrow> dl_SetBuildAsRunning dl c bid s = (s', r) \<Longrightarrow>
       inv s' \<and> keys s' = keys s \<and> (\<forall>m. r \<noteq> Panic m)
       \<and> (view s' = view s \<or> view s' = set_status (view s) bid BuildStatusRunning)"
  and running_ok:
    "inv s \<Longrightarrow> dl_SetBuildAsRunning dl c bid s = (s', Ok ()) \<Longrightarrow>
       view s' = set_status (view s) bid BuildStatusRunning"
  and completed_step:
    "inv s \<Longrightarrow> TerminalState st \<Longrightarrow> dl_SetBuildAsCompleted dl c bid st s = (s', r) \<Longrightarrow>
       inv s' \<and> keys s' = keys s \<and> (\<forall>m. r \<noteq> Panic m)
       \<and> (view s' = view s \<or> view s' = set_status (view s) bid st)"
  and completed_ok:
    "inv s \<Longrightarrow> TerminalState st \<Longrightarrow> dl_SetBuildAsCompleted dl c bid st s = (s', Ok ()) \<Longrightarrow>
       view s' = set_status (view s) bid st"
  and cancel_ok:
    "inv s \<Longrightarrow> dl_CancelBuild dl c bid s = (s', Ok ()) \<Longrightarrow>
       inv s' \<and> keys s' = keys s
       \<and> view s' = set_status (view s) bid BuildStatusCancelRequested"
  and delete_ok:
    "inv s \<Longrightarrow> dl_DeleteBuild dl c bid s = (s', Ok ()) \<Longrightarrow>
       inv s' \<and> view s' = (view s)(bid := None)"
  and getkey_step:
    "inv s \<Longrightarrow> dl_GetAPIKey dl c bid s = (s', rk) \<Longrightarrow>
       inv s' \<and> view s' = view s \<and> keys s' = keys s
       \<and> (\<forall>k. rk = Ok k \<longrightarrow> keys s bid = Some k) \<and> (\<forall>m. rk \<noteq> Panic m)"
begin

text \<open>Adding an event never changes the status of a build.\<close>

lemma event_keeps_status:
  "inv s \<Longrightarrow> dl_AddEvent dl c bid e s = (s', r) \<Longrightarrow> status_of (view s') i = status_of (view s) i"
  using event_step by (metis status_of_push_event)

lemma event_inv: "inv s \<Longrightarrow> dl_AddEvent dl c bid e s = (s', r) \<Longrightarrow> inv s'"
  using event_step by blast

lemma get_status:
  "inv s \<Longrightarrow> dl_GetBuildByID dl c bid s = (s', Ok b) \<Longrightarrow> status_of (view s) bid = Some (b_Status b)"
  using get_step by (fastforce simp: status_of_def)

text \<open>A build that was created is found again, not started.\<close>

lemma get_after_create:
  assumes "inv s" "dl_CreateBuild dl c b s = (s', Ok bid)"
    and "dl_GetBuildByID dl c' bid s' = (s'', Ok b')"
  shows "created_as b bid b'"
proof -
  from create_step [OF assms(1,2)] obtain b1
    where b1: "created_as b bid b1" "view s' = (view s)(bid \<mapsto> b1)" and inv': "inv s'" by blast
  from get_step [OF inv' assms(3)] have "view s' bid = Some (erase b')" by blast
  with b1 show ?thesis by (auto simp: created_as_def)
qed

text \<open>A deleted build is gone.\<close>

lemma get_after_delete:
  assumes "inv s" "dl_DeleteBuild dl c bid s = (s', Ok ())"
    and "dl_GetBuildByID dl c' bid s' = (s'', r)"
  shows "\<nexists>b. r = Ok b"
  using delete_ok [OF assms(1,2)] get_step [of s' c' bid s'' r] assms(3) by auto

text \<open>Completion of one build leaves every other build alone.\<close>

lemma completed_frame:
  assumes "inv s" "TerminalState st" "dl_SetBuildAsCompleted dl c bid st s = (s', r)" "i \<noteq> bid"
  shows "view s' i = view s i"
  using completed_step [OF assms(1-3)] assms(4) by (auto simp: set_status_apply)

end

text \<open>A data layer whose calls succeed while the store is healthy and the context not done.\<close>

locale reliable_layer = data_layer dl view keys inv
  for dl :: "'s DataLayer" and view keys inv +
  fixes healthy :: "'s \<Rightarrow> bool"
  assumes get_found:
    "inv s \<Longrightarrow> healthy s \<Longrightarrow> view s bid = Some b \<Longrightarrow>
       \<exists>s' b'. dl_GetBuildByID dl Active bid s = (s', Ok b') \<and> healthy s'"
  and get_missing:
    "inv s \<Longrightarrow> healthy s \<Longrightarrow> view s bid = None \<Longrightarrow>
       \<exists>s'. dl_GetBuildByID dl Active bid s = (s', Err ErrNotFound) \<and> healthy s'"
  and event_healthy: "healthy s \<Longrightarrow> dl_AddEvent dl c bid e s = (s', r) \<Longrightarrow> healthy s'"
  and running_healthy: "healthy s \<Longrightarrow> dl_SetBuildAsRunning dl c bid s = (s', r) \<Longrightarrow> healthy s'"
  and completed_healthy:
    "healthy s \<Longrightarrow> TerminalState st \<Longrightarrow> dl_SetBuildAsCompleted dl c bid st s = (s', r) \<Longrightarrow> healthy s'"
  and running_works:
    "inv s \<Longrightarrow> healthy s \<Longrightarrow> \<exists>s'. dl_SetBuildAsRunning dl Active bid s = (s', Ok ()) \<and> healthy s'"
  and completed_works:
    "inv s \<Longrightarrow> healthy s \<Longrightarrow> TerminalState st \<Longrightarrow>
       \<exists>s'. dl_SetBuildAsCompleted dl Active bid st s = (s', Ok ()) \<and> healthy s'"
  and cancel_works:
    "inv s \<Longrightarrow> healthy s \<Longrightarrow> status_of (view s) bid = Some BuildStatusRunning \<Longrightarrow>
       \<exists>s'. dl_CancelBuild dl Active bid s = (s', Ok ()) \<and> healthy s'"
begin

lemma completed_terminal:
  assumes "inv s" "healthy s" "TerminalState st" "view s bid \<noteq> None"
    and "dl_SetBuildAsCompleted dl Active bid st s = (s', r)"
  shows "r = Ok () \<and> status_of (view s') bid = Some st \<and> inv s' \<and> healthy s'"
proof -
  from completed_works [OF assms(1-3), of bid] assms(5) have r: "r = Ok ()" "healthy s'" by auto
  with completed_ok [OF assms(1,3)] completed_step [OF assms(1,3)] assms(4,5) show ?thesis
    by auto
qed

end

end
