(* ===== verification/Furan_Contract.thy ===== *)
theory Furan_Contract
  imports Furan_Datalayer
begin

text \<open>
  The full contract of a data layer: what every method returns and leaves behind while the layer
  works, with the time stamps of the builds, the API keys, the listings and the listeners that
  wait.  It extends \<open>data_layer\<close>, which speaks of single calls that may fail.

  Implementations differ in the resolution of times (\<open>res\<close>), in where identifiers come from
  (\<open>source\<close>) and in when a build was last updated, which the contract leaves out (\<open>settle\<close>).
\<close>

section \<open>Texts and times\<close>

text \<open>Texts that any store takes as they are: bytes other than zero, below 128.\<close>

definition ascii_text :: "string \<Rightarrow> bool" where
  "ascii_text t \<longleftrightarrow> list_all (\<lambda>c. 0 < (of_char c :: nat) \<and> (of_char c :: nat) < 128) t"

definition definition_texts :: "BuildDefinition \<Rightarrow> string list" where
  "definition_texts d =
     [bd_GithubRepo d, bd_GithubCredential d, bd_DockerfilePath d, bd_Ref d] @ bd_Tags d
     @ concat (map (\<lambda>(k, v). [k, v]) (bd_Args d))"

definition resource_texts :: "BuildResources \<Rightarrow> string list" where
  "resource_texts r = [br_CpuRequest r, br_CpuLimit r, br_MemoryRequest r, br_MemoryLimit r]"

definition build_texts :: "Build \<Rightarrow> string list" where
  "build_texts b =
     [b_GitHubRepo b, b_GitHubRef b] @ b_ImageRepos b @ b_Tags b
     @ [bo_RelativeDockerfilePath (b_BuildOptions b)]
     @ concat (map (\<lambda>(k, v). [k, v]) (bo_BuildArgs (b_BuildOptions b)))
     @ resource_texts (bo_Resources (b_BuildOptions b))
     @ (case rq_Build (b_Request b) of None \<Rightarrow> []
        | Some d \<Rightarrow> definition_texts d @ (case bd_Resources d of None \<Rightarrow> [] | Some r \<Rightarrow> resource_texts r))
     @ (case rq_Push (b_Request b) of None \<Rightarrow> []
        | Some p \<Rightarrow> concat (map (\<lambda>r. case r of None \<Rightarrow> [] | Some x \<Rightarrow> [pr_Repo x]) (pd_Registries p)))"

definition key_texts :: "APIKey \<Rightarrow> string list" where
  "key_texts k = [ak_GitHubUser k, ak_Name k, ak_Description k]"

text \<open>An event that fits into a notification, whatever is quoted in it.\<close>

definition event_text :: "string \<Rightarrow> bool" where
  "event_text e \<longleftrightarrow> ascii_text e \<and> length e < 1000"

definition settle :: "Build \<Rightarrow> Build" where
  "settle b = b\<lparr>b_Updated := zero_time\<rparr>"

definition change :: "(uuid \<rightharpoonup> Build) \<Rightarrow> uuid \<Rightarrow> (Build \<Rightarrow> Build) \<Rightarrow> uuid \<rightharpoonup> Build" where
  "change m bid f = (case m bid of None \<Rightarrow> m | Some b \<Rightarrow> m(bid \<mapsto> f b))"

definition at_res :: "(gotime \<Rightarrow> gotime) \<Rightarrow> ListBuildsOptions \<Rightarrow> ListBuildsOptions" where
  "at_res res opts =
     opts\<lparr>lo_CompletedAfter := res (lo_CompletedAfter opts), lo_StartedAfter := res (lo_StartedAfter opts),
          lo_CompletedBefore := res (lo_CompletedBefore opts), lo_StartedBefore := res (lo_StartedBefore opts)\<rparr>"

definition option_times :: "ListBuildsOptions \<Rightarrow> gotime set" where
  "option_times opts = {lo_CompletedAfter opts, lo_StartedAfter opts, lo_CompletedBefore opts, lo_StartedBefore opts}"

definition option_texts :: "ListBuildsOptions \<Rightarrow> string list" where
  "option_texts opts = [lo_WithGitHubRepo opts, lo_WithGitHubRef opts, lo_WithImageRepo opts]"

text \<open>
  Times that any store takes, from the year 1 on and before the year 294276, the last one of PostgreSQL; a
  clock that is read is an hour before that at least.
\<close>

definition storable :: "gotime \<Rightarrow> bool" where
  "storable t \<longleftrightarrow> time_valid t \<and> 0 < sint (tm_sec t) \<and> sint (tm_sec t) < 9200000000000"

definition sane :: "gotime \<Rightarrow> bool" where
  "sane t \<longleftrightarrow> time_valid t \<and> 0 < sint (tm_sec t) \<and> sint (tm_sec t) < 9199999990000"

lemma sane_storable: "sane t \<Longrightarrow> storable t"
  by (simp add: sane_def storable_def)

text \<open>Rounding down within the second.\<close>

definition rounds :: "(gotime \<Rightarrow> gotime) \<Rightarrow> bool" where
  "rounds res \<longleftrightarrow> (\<forall>t. tm_sec (res t) = tm_sec t \<and> tm_nsec (res t) \<le> tm_nsec t) \<and> (\<forall>t u. t \<le> u \<longrightarrow> res t \<le> res u)"

text \<open>What is stored for a new build, beyond \<open>created_as\<close>.\<close>

definition new_build :: "Build \<Rightarrow> bool" where
  "new_build b \<longleftrightarrow> b_Completed b = zero_time \<and> b_Events b = [] \<and> list_all ascii_text (build_texts b)"

definition stored_as :: "Build \<Rightarrow> uuid \<Rightarrow> Build \<Rightarrow> bool" where
  "stored_as b bid b' \<longleftrightarrow>
     created_as b bid b' \<and> b_Completed b' = zero_time \<and> b_Events b' = [] \<and> settle b' = b'
     \<and> map_option bd_GithubRepo (rq_Build (b_Request b')) = map_option bd_GithubRepo (rq_Build (b_Request b))"

lemma settle_fields [simp]:
  "b_ID (settle b) = b_ID b" "b_Created (settle b) = b_Created b" "b_Completed (settle b) = b_Completed b"
  "b_GitHubRepo (settle b) = b_GitHubRepo b" "b_GitHubRef (settle b) = b_GitHubRef b"
  "b_ImageRepos (settle b) = b_ImageRepos b" "b_Status (settle b) = b_Status b" "b_Request (settle b) = b_Request b"
  "b_Events (settle b) = b_Events b" "b_Updated (settle b) = zero_time"
  by (simp_all add: settle_def)

lemma settle_idem [simp]: "settle (settle b) = settle b" "erase (settle b) = erase b"
  by (simp_all add: settle_def erase_def)

lemma selects_settle [simp]: "selects opts (settle b) = selects opts b"
  by (simp add: selects_def)

lemma change_apply: "change m bid f i = (if i = bid then map_option f (m bid) else m i)"
  by (auto simp: change_def split: option.splits)

lemma rounds_sec: "rounds res \<Longrightarrow> tm_sec (res t) = tm_sec t"
  by (simp add: rounds_def)

lemma rounds_mono: "rounds res \<Longrightarrow> t \<le> u \<Longrightarrow> res t \<le> res u"
  by (simp add: rounds_def)

lemma rounds_le: "rounds res \<Longrightarrow> res t \<le> t"
  unfolding rounds_def by (metis gotime.expand le_less less_gotime_def linorder_not_less)

lemma storable_pos: "rounds res \<Longrightarrow> storable t \<Longrightarrow> zero_time < res t"
  by (simp add: less_gotime_def storable_def zero_time_def rounds_sec)

lemma sec_less: "sint (tm_sec t) < sint (tm_sec u) \<Longrightarrow> t < u"
  by (simp add: less_gotime_def)

text \<open>Events that are added one after another, up to the first call that fails.\<close>

fun add_events :: "'s DataLayer \<Rightarrow> uuid \<Rightarrow> string list \<Rightarrow> 's \<Rightarrow> 's" where
  "add_events dl bid [] s = s"
| "add_events dl bid (e # es) s =
     (case dl_AddEvent dl Active bid e s of (s', Ok _) \<Rightarrow> add_events dl bid es s' | (s', _) \<Rightarrow> s')"

lemma settle_update [simp]:
  "settle (b\<lparr>b_Status := st\<rparr>) = (settle b)\<lparr>b_Status := st\<rparr>" "settle (b\<lparr>b_Completed := t\<rparr>) = (settle b)\<lparr>b_Completed := t\<rparr>"
  "settle (b\<lparr>b_Events := es\<rparr>) = (settle b)\<lparr>b_Events := es\<rparr>"
  by (simp_all add: settle_def)

text \<open>The next identifiers that are drawn are \<open>us\<close>; they differ from each other and are not in \<open>X\<close>.\<close>

primrec draws :: "uuid list \<Rightarrow> (nat \<Rightarrow> uuid go) \<Rightarrow> nat \<Rightarrow> uuid set \<Rightarrow> bool" where
  "draws [] f k X = True"
| "draws (u # us) f k X = (f k = Ok u \<and> u \<notin> X \<and> draws us f (k + 1) (insert u X))"

lemma draws_mono: "draws us f k X \<Longrightarrow> Y \<subseteq> X \<Longrightarrow> draws us f k Y"
proof (induction us arbitrary: k X Y)
  case (Cons u us)
  then show ?case by (auto dest: Cons.IH [of _ _ "insert u Y"])
qed simp

lemma draws_new: "draws us f k X \<Longrightarrow> distinct us \<and> set us \<inter> X = {}"
  by (induction us arbitrary: k X) auto

text \<open>Counting up, for the examples.\<close>

definition counted :: "nat \<Rightarrow> uuid list" where
  "counted n = map of_nat [1..<Suc n]"

lemma draws_count:
  "k \<le> n \<Longrightarrow> n < 99 \<Longrightarrow> \<forall>u \<in> X. u = 99 \<or> unat u \<le> k \<Longrightarrow> draws (map of_nat [Suc k..<Suc n]) (\<lambda>i. Ok (of_nat (Suc i))) k X"
proof (induction "n - k" arbitrary: k X)
  case (Suc m)
  have u: "unat (of_nat (Suc k) :: uuid) = Suc k"
    using Suc.prems(1,2) Suc.hyps(2) by (simp only: unat_of_nat) simp
  have "of_nat (Suc k) \<notin> X"
  proof
    assume "of_nat (Suc k) \<in> X"
    then have "of_nat (Suc k) = (99 :: uuid) \<or> Suc k \<le> k" using Suc.prems(3) u by metis
    then have "Suc k = unat (99 :: uuid)" using u by auto
    then show False using Suc.prems(1,2) Suc.hyps(2) by simp
  qed
  moreover have "draws (map of_nat [Suc (Suc k)..<Suc n]) (\<lambda>i. Ok (of_nat (Suc i))) (Suc k) (insert (of_nat (Suc k)) X)"
    by (rule Suc.hyps(1)) (use Suc.prems Suc.hyps(2) u in \<open>auto simp del: of_nat_Suc\<close>)
  moreover have "[Suc k..<Suc n] = Suc k # [Suc (Suc k)..<Suc n]" using Suc.hyps(2) by (intro upt_conv_Cons) simp
  ultimately show ?case by simp
qed simp

lemma draws_counted: "n < 99 \<Longrightarrow> X \<subseteq> {0, 99} \<Longrightarrow> draws (counted n) (\<lambda>i. Ok (of_nat (Suc i))) 0 X"
  unfolding counted_def One_nat_def by (rule draws_count) auto

text \<open>
  The errors of a call that was waiting when its context ended.  A call that is given a context without
  an end and returns such an error in the model waits for ever in the program.
\<close>

primrec ctx_ended :: "goerr \<Rightarrow> bool" where
  "ctx_ended (ErrMsg m) = (m = ''context cancelled'')"
| "ctx_ended (Wrapf p e) = ctx_ended e"
| "ctx_ended ErrNotFound = False"
| "ctx_ended ErrNoRows = False"
| "ctx_ended ErrEOF = False"
| "ctx_ended ErrCanceled = True"
| "ctx_ended (OpError a b m) = False"
| "ctx_ended (AwsErr c m) = False"
| "ctx_ended (StatusErr c m) = False"

section \<open>The contract\<close>

text \<open>
  \<open>full\<close> are the settled builds, \<open>ready us\<close> says that the layer works, that the next identifiers it draws are
  \<open>us\<close>, which are new to the store, and that none of its listeners has waited so far; \<open>usable us\<close> says that a
  new layer on the same store would be ready (\<open>renew\<close>).  Identifiers are finite, so no layer is ready for ever.
\<close>

locale full_layer = data_layer dl view keys inv
  for dl :: "'s DataLayer" and view keys inv +
  fixes full :: "'s \<Rightarrow> uuid \<rightharpoonup> Build" and ready usable :: "uuid list \<Rightarrow> 's \<Rightarrow> bool" and clock :: "'s \<Rightarrow> gotime"
    and res :: "gotime \<Rightarrow> gotime" and source :: "uuid set" and renew :: "'s \<Rightarrow> 's"
  assumes ready_inv: "ready us s \<Longrightarrow> inv s \<and> usable us s \<and> sane (clock s) \<and> distinct us"
    and view_full: "inv s \<Longrightarrow> view s bid = map_option erase (full s bid)"
    and full_wf: "ready us s \<Longrightarrow> full s bid = Some b \<Longrightarrow> b_ID b = bid \<and> settle b = b"
    and res_rounds: "rounds res" and res_zero: "res zero_time = zero_time" and source_zero: "0 \<notin> source"
    and renew_works: "usable us s \<Longrightarrow> ready us (renew s) \<and> full (renew s) \<subseteq>\<^sub>m full s"
    and create_works:
      "ready (bid # us) s \<Longrightarrow> new_build b \<Longrightarrow> \<exists>s' b'. dl_CreateBuild dl Active b s = (s', Ok bid)
         \<and> ready us s' \<and> clock s \<le> clock s' \<and> full s' = (full s)(bid \<mapsto> b') \<and> bid \<in> source \<and> full s bid = None
         \<and> stored_as b bid b' \<and> res (clock s) \<le> b_Created b' \<and> b_Created b' \<le> clock s'"
    and get_works:
      "ready us s \<Longrightarrow> \<exists>s' r. dl_GetBuildByID dl Active bid s = (s', r)
         \<and> ready us s' \<and> clock s \<le> clock s' \<and> full s' = full s
         \<and> (case full s bid of None \<Rightarrow> r = Err ErrNotFound | Some b \<Rightarrow> \<exists>b'. r = Ok b' \<and> settle b' = b)"
    and status_works:
      "ready us s \<Longrightarrow> known_status st \<Longrightarrow> \<exists>s'. dl_SetBuildStatus dl Active bid st s = (s', Ok ())
         \<and> ready us s' \<and> clock s \<le> clock s' \<and> full s' = change (full s) bid (\<lambda>b. b\<lparr>b_Status := st\<rparr>)"
    and stamp_works:
      "ready us s \<Longrightarrow> storable t \<Longrightarrow> \<exists>s'. dl_SetBuildCompletedTimestamp dl Active bid t s = (s', Ok ())
         \<and> ready us s' \<and> clock s \<le> clock s' \<and> full s' = change (full s) bid (\<lambda>b. b\<lparr>b_Completed := res t\<rparr>)"
    and delete_works:
      "ready us s \<Longrightarrow> \<exists>s'. dl_DeleteBuild dl Active bid s = (s', Ok ())
         \<and> ready us s' \<and> clock s \<le> clock s' \<and> full s' = (full s)(bid := None)"
    and list_works:
      "ready us s \<Longrightarrow> options_ok opts \<Longrightarrow> \<forall>t \<in> option_times opts. IsZero t \<or> storable t \<Longrightarrow>
       list_all ascii_text (option_texts opts) \<Longrightarrow> known_status (lo_WithStatus opts) \<Longrightarrow> lo_Limit opts < 2 ^ 63 \<Longrightarrow>
       opts\<lparr>lo_Limit := 0\<rparr> \<noteq> zero_ListBuildsOptions \<Longrightarrow>
       \<exists>s' out. dl_ListBuilds dl Active opts s = (s', Ok out) \<and> ready us s' \<and> clock s \<le> clock s' \<and> full s' = full s
         \<and> distinct (map settle out) \<and> settle ` set out \<subseteq> {b \<in> ran (full s). selects (at_res res opts) b}
         \<and> length out =
             (let n = card {b \<in> ran (full s). selects (at_res res opts) b}
              in if lo_Limit opts = 0 then n else min (unat (lo_Limit opts)) n)"
    and list_refused:
      "ready us s \<Longrightarrow> \<not> options_ok opts \<Longrightarrow> \<exists>s' e. dl_ListBuilds dl Active opts s = (s', Err e)
         \<and> ready us s' \<and> clock s \<le> clock s' \<and> full s' = full s"
    and createkey_works:
      "ready (kid # us) s \<Longrightarrow> list_all ascii_text (key_texts k) \<Longrightarrow> \<exists>s' k'. dl_CreateAPIKey dl Active k s = (s', Ok kid)
         \<and> ready us s' \<and> keys s' = (keys s)(kid \<mapsto> k') \<and> kid \<in> source \<and> keys s kid = None
         \<and> ak_ReadOnly k' = ak_ReadOnly k"
    and getkey_works:
      "ready us s \<Longrightarrow> \<exists>s'. dl_GetAPIKey dl Active kid s
           = (s', case keys s kid of None \<Rightarrow> Err ErrNotFound | Some k \<Rightarrow> Ok k)
         \<and> ready us s' \<and> keys s' = keys s"
    and deletekey_works:
      "ready us s \<Longrightarrow> \<exists>s'. dl_DeleteAPIKey dl Active kid s = (s', Ok ()) \<and> ready us s' \<and> keys s' = (keys s)(kid := None)"
    and keys_source: "ready us s \<Longrightarrow> dom (keys s) \<subseteq> source"
    and builds_source: "ready us s \<Longrightarrow> dom (full s) \<subseteq> source"
    and events_refused:
      "ready us s \<Longrightarrow> full s bid = Some b \<Longrightarrow> TerminalState (b_Status b) \<Longrightarrow>
       \<exists>s' e. dl_ListenForBuildEvents dl g1 g2 Active bid s = Some (s', [], e)
         \<and> \<not> ctx_ended e \<and> ready us s' \<and> clock s \<le> clock s' \<and> full s' = full s"
    and events_heard:
      "ready us s \<Longrightarrow> full s bid = Some b \<Longrightarrow> \<not> TerminalState (b_Status b) \<Longrightarrow> list_all event_text es \<Longrightarrow>
       \<exists>s' e. dl_ListenForBuildEvents dl (\<lambda>t. t) (add_events dl bid es) Active bid s
           = Some (s', es, e) \<and> usable us s'"
    and cancel_refused:
      "ready us s \<Longrightarrow> full s bid = Some b \<Longrightarrow>
       b_Status b \<notin> {BuildStatusRunning, BuildStatusCancelRequested, BuildStatusCancelled} \<Longrightarrow>
       \<exists>s' e. dl_ListenForCancellation dl g1 g2 Active bid s = (s', Err e)
         \<and> \<not> ctx_ended e \<and> ready us s' \<and> clock s \<le> clock s' \<and> full s' = full s"
    and cancel_returns:
      "ready us s \<Longrightarrow> full s bid = Some b \<Longrightarrow> b_Status b \<in> {BuildStatusCancelRequested, BuildStatusCancelled} \<Longrightarrow>
       \<exists>s'. dl_ListenForCancellation dl g1 g2 Active bid s = (s', Ok ())
         \<and> ready us s' \<and> clock s \<le> clock s' \<and> full s' = full s"
    and cancel_waits:
      "ready us s \<Longrightarrow> full s bid = Some b \<Longrightarrow> b_Status b = BuildStatusRunning \<Longrightarrow>
       \<exists>s' e. dl_ListenForCancellation dl (\<lambda>t. t) (\<lambda>t. t) Active bid s = (s', Err e) \<and> ctx_ended e"
    and cancel_heard:
      "ready us s \<Longrightarrow> full s bid = Some b \<Longrightarrow> b_Status b = BuildStatusRunning \<Longrightarrow>
       \<exists>s'. dl_ListenForCancellation dl (\<lambda>t. t) (\<lambda>t. fst (dl_CancelBuild dl Active bid t)) Active bid s
           = (s', Ok ()) \<and> usable us s'"
    and running_refused:
      "ready us s \<Longrightarrow> full s bid = Some b \<Longrightarrow> b_Status b \<notin> {BuildStatusRunning, BuildStatusNotStarted} \<Longrightarrow>
       \<exists>s' e. dl_ListenForBuildRunning dl g1 g2 Active bid s = (s', Err e)
         \<and> \<not> ctx_ended e \<and> ready us s' \<and> clock s \<le> clock s' \<and> full s' = full s"
    and running_returns:
      "ready us s \<Longrightarrow> full s bid = Some b \<Longrightarrow> b_Status b = BuildStatusRunning \<Longrightarrow>
       \<exists>s'. dl_ListenForBuildRunning dl g1 g2 Active bid s = (s', Ok ())
         \<and> ready us s' \<and> clock s \<le> clock s' \<and> full s' = full s"
    and running_waits:
      "ready us s \<Longrightarrow> full s bid = Some b \<Longrightarrow> b_Status b = BuildStatusNotStarted \<Longrightarrow>
       \<exists>s' e. dl_ListenForBuildRunning dl (\<lambda>t. t) (\<lambda>t. t) Active bid s = (s', Err e) \<and> ctx_ended e"
    and running_heard:
      "ready us s \<Longrightarrow> full s bid = Some b \<Longrightarrow> b_Status b = BuildStatusNotStarted \<Longrightarrow>
       \<exists>s'. dl_ListenForBuildRunning dl (\<lambda>t. t) (\<lambda>t. fst (dl_SetBuildAsRunning dl Active bid t)) Active bid s
           = (s', Ok ()) \<and> usable us s'"
    and completed_refused:
      "ready us s \<Longrightarrow> full s bid = Some b \<Longrightarrow> b_Status b \<notin> {BuildStatusRunning, BuildStatusNotStarted} \<Longrightarrow>
       \<not> TerminalState (b_Status b) \<Longrightarrow>
       \<exists>s' e. dl_ListenForBuildCompleted dl g1 g2 Active bid s = (s', Err e)
         \<and> \<not> ctx_ended e \<and> ready us s' \<and> clock s \<le> clock s' \<and> full s' = full s"
    and completed_returns:
      "ready us s \<Longrightarrow> full s bid = Some b \<Longrightarrow> TerminalState (b_Status b) \<Longrightarrow>
       \<exists>s'. dl_ListenForBuildCompleted dl g1 g2 Active bid s = (s', Ok (b_Status b))
         \<and> ready us s' \<and> clock s \<le> clock s' \<and> full s' = full s"
    and completed_waits:
      "ready us s \<Longrightarrow> full s bid = Some b \<Longrightarrow> b_Status b \<in> {BuildStatusRunning, BuildStatusNotStarted} \<Longrightarrow>
       \<exists>s' e. dl_ListenForBuildCompleted dl (\<lambda>t. t) (\<lambda>t. t) Active bid s = (s', Err e) \<and> ctx_ended e"
    and completed_heard:
      "ready us s \<Longrightarrow> full s bid = Some b \<Longrightarrow> b_Status b \<in> {BuildStatusRunning, BuildStatusNotStarted} \<Longrightarrow>
       TerminalState st \<Longrightarrow>
       \<exists>s'. dl_ListenForBuildCompleted dl (\<lambda>t. t) (\<lambda>t. fst (dl_SetBuildAsCompleted dl Active bid st t)) Active bid s
           = (s', Ok st) \<and> usable us s'"
    and set_running:
      "ready us s \<Longrightarrow> \<exists>s'. dl_SetBuildAsRunning dl Active bid s = (s', Ok ())
         \<and> ready us s' \<and> clock s \<le> clock s' \<and> full s' = change (full s) bid (\<lambda>b. b\<lparr>b_Status := BuildStatusRunning\<rparr>)"
    and set_cancelled:
      "ready us s \<Longrightarrow> full s bid = Some b \<Longrightarrow> b_Status b = BuildStatusRunning \<Longrightarrow> \<exists>s'. dl_CancelBuild dl Active bid s = (s', Ok ())
         \<and> ready us s' \<and> clock s \<le> clock s' \<and> full s' = change (full s) bid (\<lambda>b. b\<lparr>b_Status := BuildStatusCancelRequested\<rparr>)"
    and add_event:
      "ready us s \<Longrightarrow> full s bid = Some b \<Longrightarrow> \<not> TerminalState (b_Status b) \<Longrightarrow> event_text e \<Longrightarrow>
       \<exists>s'. dl_AddEvent dl Active bid e s = (s', Ok ())
         \<and> ready us s' \<and> clock s \<le> clock s' \<and> full s' = change (full s) bid (\<lambda>b. b\<lparr>b_Events := b_Events b @ [e]\<rparr>)"

end
