(* ===== verification/Furan_Testsuite.thy ===== *)
theory Furan_Testsuite
  imports Furan_Contract
begin

text \<open>
  \<^verbatim>\<open>pkg/datalayer/testsuite/testsuite.go\<close>: the tests that every data layer has to pass.

  A test returns the failures it has reported, and \<open>None\<close> when it was ended by \<^verbatim>\<open>t.Fatalf\<close> or a
  panic.  Builds and times that are printed in a failure are left out.  The tests of the listeners run
  a second goroutine; \<open>early\<close> says that it runs before the listener is registered.  A listener whose
  call returns because its context ended was still waiting, so the test sees a timeout, or hangs
  where it calls the listener itself.  The error of the second goroutine's call is not printed: a
  call that fails shows in the listener, which goes on waiting.
\<close>

section \<open>Tests\<close>

type_synonym ('s, 'a) tst = "'s \<Rightarrow> 's \<times> string list \<times> 'a option"

definition t_ret :: "'a \<Rightarrow> ('s, 'a) tst" where
  "t_ret x s = (s, [], Some x)"

definition t_bind :: "('s, 'a) tst \<Rightarrow> ('a \<Rightarrow> ('s, 'b) tst) \<Rightarrow> ('s, 'b) tst" where
  "t_bind m f s =
     (case m s of
        (s1, ls, None) \<Rightarrow> (s1, ls, None)
      | (s1, ls, Some x) \<Rightarrow> (case f x s1 of (s2, ls', r) \<Rightarrow> (s2, ls @ ls', r)))"

definition t_panic :: "string \<Rightarrow> ('s, 'a) tst" where
  "t_panic p s = (s, [''panic: '' @ p], None)"

text \<open>\<^verbatim>\<open>if err != nil { t.Fatalf("p%v", err) }\<close>, and \<^verbatim>\<open>t.Errorf\<close> where the test goes on with \<open>d\<close>.\<close>

definition t_must :: "string \<Rightarrow> ('s, 'a) act \<Rightarrow> ('s, 'a) tst" where
  "t_must p f s =
     (case f s of
        (s1, Ok x) \<Rightarrow> (s1, [], Some x)
      | (s1, Err e) \<Rightarrow> (s1, [p @ errstr e], None)
      | (s1, Panic m) \<Rightarrow> t_panic m s1)"

definition t_should :: "string \<Rightarrow> 'a \<Rightarrow> ('s, 'a) act \<Rightarrow> ('s, 'a) tst" where
  "t_should p d f s =
     (case f s of
        (s1, Ok x) \<Rightarrow> (s1, [], Some x)
      | (s1, Err e) \<Rightarrow> (s1, [p @ errstr e], Some d)
      | (s1, Panic m) \<Rightarrow> t_panic m s1)"

text \<open>The error is assigned to \<^verbatim>\<open>_\<close>; the value that comes with it is the zero value \<open>d\<close>.\<close>

definition t_value :: "'a \<Rightarrow> ('s, 'a) act \<Rightarrow> ('s, 'a) tst" where
  "t_value d f s =
     (case f s of (s1, Ok x) \<Rightarrow> (s1, [], Some x) | (s1, Err e) \<Rightarrow> (s1, [], Some d) | (s1, Panic m) \<Rightarrow> t_panic m s1)"

text \<open>\<^verbatim>\<open>if err == nil { t.Fatalf(msg) }\<close>, and the same with \<^verbatim>\<open>t.Errorf\<close>.\<close>

definition t_fails :: "string \<Rightarrow> ('s, 'a) act \<Rightarrow> ('s, unit) tst" where
  "t_fails msg f s =
     (case f s of (s1, Ok x) \<Rightarrow> (s1, [msg], None) | (s1, Err e) \<Rightarrow> (s1, [], Some ()) | (s1, Panic m) \<Rightarrow> t_panic m s1)"

definition t_refuses :: "string \<Rightarrow> ('s, 'a) act \<Rightarrow> ('s, unit) tst" where
  "t_refuses msg f s =
     (case f s of (s1, Ok x) \<Rightarrow> (s1, [msg], Some ()) | (s1, Err e) \<Rightarrow> (s1, [], Some ()) | (s1, Panic m) \<Rightarrow> t_panic m s1)"

definition t_fatal_if :: "bool \<Rightarrow> string \<Rightarrow> ('s, unit) tst" where
  "t_fatal_if p msg s = (if p then (s, [msg], None) else (s, [], Some ()))"

definition t_error_if :: "bool \<Rightarrow> string \<Rightarrow> ('s, unit) tst" where
  "t_error_if p msg s = (if p then (s, [msg], Some ()) else (s, [], Some ()))"

text \<open>\<^verbatim>\<open>uuid.Must(uuid.NewV4())\<close>, and the clock.\<close>

definition t_Must :: "uuid go \<Rightarrow> ('s, uuid) tst" where
  "t_Must u s = (case u of Ok x \<Rightarrow> t_ret x s | Err e \<Rightarrow> t_panic (errstr e) s | Panic m \<Rightarrow> t_panic m s)"

record 's tsenv =
  te_ID :: uuid
  te_Created :: gotime
  te_NewV4 :: "uuid go"
  te_Now :: "'s \<Rightarrow> gotime"
  te_early :: "string \<Rightarrow> bool"

definition t_Now :: "'s tsenv \<Rightarrow> ('s, gotime) tst" where
  "t_Now env s = (s, [], Some (te_Now env s))"

section \<open>Builds\<close>

definition tb :: "'s tsenv \<Rightarrow> Build" where
  "tb env =
     zero_Build\<lparr>b_ID := te_ID env, b_Created := te_Created env, b_GitHubRepo := ''foobar/baz'',
       b_GitHubRef := ''master'', b_ImageRepos := [''quay.io/foobar/baz''], b_Tags := [''master''],
       b_CommitSHATag := True,
       b_Request :=
         \<lparr>rq_Build = Some
            \<lparr>bd_GithubRepo = ''foobar/baz'', bd_GithubCredential = [], bd_DockerfilePath = [], bd_Ref = ''master'',
             bd_Tags = [''master''], bd_TagWithCommitSha = True, bd_Args = [], bd_CacheOptions = None,
             bd_Resources = None\<rparr>,
          rq_Push = Some \<lparr>pd_Registries = [Some \<lparr>pr_Repo = ''quay.io/foobar/baz''\<rparr>]\<rparr>, rq_SkipIfExists = False\<rparr>,
       b_Status := 1\<rparr>"

definition testDBCreateBuild :: "'s tsenv \<Rightarrow> 's DataLayer \<Rightarrow> ('s, unit) tst" where
  "testDBCreateBuild env dl =
     t_bind (t_must ''error creating build: '' (dl_CreateBuild dl Background (tb env))) (\<lambda>bid.
     t_bind (t_value zero_Build (dl_GetBuildByID dl Background bid)) (\<lambda>b.
     t_bind (t_fatal_if (b_Status b \<noteq> BuildStatusNotStarted) (''bad status: '' @ BuildStatus_String (b_Status b))) (\<lambda>_.
     t_must ''error deleting build: '' (dl_DeleteBuild dl Background bid))))"

definition testDBDeleteBuild :: "'s tsenv \<Rightarrow> 's DataLayer \<Rightarrow> ('s, unit) tst" where
  "testDBDeleteBuild env dl = t_must ''error creating build: '' (dl_DeleteBuild dl Background (te_ID env))"

definition testDBGetBuildByID :: "'s tsenv \<Rightarrow> 's DataLayer \<Rightarrow> ('s, unit) tst" where
  "testDBGetBuildByID env dl =
     t_bind (t_must ''error creating build: '' (dl_CreateBuild dl Background (tb env))) (\<lambda>bid.
     t_bind (t_must ''error getting build by ID: '' (dl_GetBuildByID dl Background bid)) (\<lambda>b.
     t_bind (t_fatal_if (b_GitHubRepo b \<noteq> b_GitHubRepo (tb env))
               (''incorrect github repo: '' @ b_GitHubRepo b @ '' (expected '' @ b_GitHubRepo (tb env) @ '')'')) (\<lambda>_.
     t_bind (case (rq_Build (b_Request b), rq_Build (b_Request (tb env))) of
               (Some d, Some d') \<Rightarrow>
                 t_fatal_if (bd_GithubRepo d \<noteq> bd_GithubRepo d') (''unexpected req.build.github_repo: '' @ bd_GithubRepo d)
             | _ \<Rightarrow> t_panic ''invalid memory address or nil pointer dereference'') (\<lambda>_.
     t_bind (t_Must (te_NewV4 env)) (\<lambda>other.
     t_bind (t_fails ''expected id missing error'' (dl_GetBuildByID dl Background other)) (\<lambda>_.
     t_must ''error deleting build: '' (dl_DeleteBuild dl Background bid)))))))"

text \<open>\<^verbatim>\<open>Truncate(time.Second)\<close>.\<close>

definition trunc_sec :: "gotime \<Rightarrow> gotime" where
  "trunc_sec t = Time (tm_sec t) 0"

definition testDBSetBuildCompletedTimestamp :: "'s tsenv \<Rightarrow> 's DataLayer \<Rightarrow> ('s, unit) tst" where
  "testDBSetBuildCompletedTimestamp env dl =
     t_bind (t_must ''error creating build: '' (dl_CreateBuild dl Background (tb env))) (\<lambda>bid.
     t_bind (t_Now env) (\<lambda>now.
     t_bind (t_must ''error setting build completed timestamp: ''
               (dl_SetBuildCompletedTimestamp dl Background bid now)) (\<lambda>_.
     t_bind (t_must ''error getting build by id: '' (dl_GetBuildByID dl Background bid)) (\<lambda>b.
     t_bind (t_fatal_if (trunc_sec (b_Completed b) \<noteq> trunc_sec now) ''bad completed timestamp: '') (\<lambda>_.
     t_must ''error deleting build: '' (dl_DeleteBuild dl Background bid))))))"

definition testDBSetBuildStatus :: "'s tsenv \<Rightarrow> 's DataLayer \<Rightarrow> ('s, unit) tst" where
  "testDBSetBuildStatus env dl =
     t_bind (t_must ''error creating build: '' (dl_CreateBuild dl Background (tb env))) (\<lambda>bid.
     t_bind (t_must ''error getting build by id (initial): '' (dl_GetBuildByID dl Background bid)) (\<lambda>b.
     t_bind (t_fatal_if (b_Status b \<noteq> BuildStatusNotStarted)
               (''bad initial status: '' @ BuildStatus_String (b_Status b)
                @ '' (expected '' @ BuildStatus_String BuildStatusNotStarted @ '')'')) (\<lambda>_.
     t_bind (t_must ''error setting build state: '' (dl_SetBuildStatus dl Background bid BuildStatusSuccess)) (\<lambda>_.
     t_bind (t_must ''error getting build by id (after): '' (dl_GetBuildByID dl Background bid)) (\<lambda>b.
     t_bind (t_fatal_if (b_Status b \<noteq> BuildStatusSuccess)
               (''bad status: '' @ BuildStatus_String (b_Status b)
                @ '' (expected '' @ BuildStatus_String BuildStatusSuccess @ '')'')) (\<lambda>_.
     t_must ''error deleting build: '' (dl_DeleteBuild dl Background bid)))))))"

section \<open>Listings\<close>

text \<open>
  A listing and the check of its result; \<open>bad\<close> is the condition of the test, whose evaluation may
  panic.  After an error the slice is nil.
\<close>

definition t_list ::
  "'s DataLayer \<Rightarrow> ListBuildsOptions \<Rightarrow> string \<Rightarrow> (Build list \<Rightarrow> bool go) \<Rightarrow> string \<Rightarrow> ('s, unit) tst" where
  "t_list dl opts p bad msg =
     t_bind (t_should p [] (dl_ListBuilds dl Background opts)) (\<lambda>builds.
       case bad builds of Ok x \<Rightarrow> t_error_if x msg | Err e \<Rightarrow> t_panic (errstr e) | Panic m \<Rightarrow> t_panic m)"

text \<open>\<^verbatim>\<open>len(builds) != 1 || bad(builds[0])\<close>, and \<^verbatim>\<open>len(builds) != n\<close>.\<close>

definition not_one :: "(Build \<Rightarrow> bool go) \<Rightarrow> Build list \<Rightarrow> bool go" where
  "not_one bad builds = (case builds of [b] \<Rightarrow> bad b | _ \<Rightarrow> Ok True)"

definition not_length :: "nat \<Rightarrow> Build list \<Rightarrow> bool go" where
  "not_length n builds = Ok (length builds \<noteq> n)"

definition hour :: "64 word" where
  "hour = 3600000000000"

text \<open>The two dates, January 4 and 2 of 2020 at 01:01:01.000000001 UTC, in seconds since 1970.\<close>

definition completedAfter :: gotime where
  "completedAfter = Time (unixToInternal + 1578099661) 1"

definition completedBefore :: gotime where
  "completedBefore = Time (unixToInternal + 1577926861) 1"

definition no_opts :: ListBuildsOptions where
  "no_opts = zero_ListBuildsOptions"

text \<open>Lines 169 to 179: the builds that are listed.\<close>

definition list_setup ::
  "'s tsenv \<Rightarrow> 's DataLayer \<Rightarrow> ('s, uuid \<times> uuid \<times> uuid \<times> uuid \<times> uuid \<times> uuid) tst" where
  "list_setup env dl =
     (let create = (\<lambda>b. t_value 0 (dl_CreateBuild dl Background b)) in
      t_bind (create (zero_Build\<lparr>b_GitHubRepo := ''foo/bar''\<rparr>)) (\<lambda>id1.
      t_bind (create (zero_Build\<lparr>b_GitHubRef := ''asdf''\<rparr>)) (\<lambda>id2.
      t_bind (create (zero_Build\<lparr>b_ImageRepos := [''some/repo'']\<rparr>)) (\<lambda>id3.
      t_bind (create zero_Build) (\<lambda>id4.
      t_bind (t_value () (dl_SetBuildStatus dl Background id4 BuildStatusFailure)) (\<lambda>_.
      t_bind (create zero_Build) (\<lambda>id5.
      t_bind (t_value () (dl_SetBuildCompletedTimestamp dl Background id5 (time_Add completedAfter hour))) (\<lambda>_.
      t_bind (create zero_Build) (\<lambda>id6.
      t_bind (t_value () (dl_SetBuildCompletedTimestamp dl Background id6 (time_Add completedBefore (- hour)))) (\<lambda>_.
      t_ret (id1, id2, id3, id4, id5, id6)))))))))))"

text \<open>Lines 182 to 279.\<close>

definition list_queries ::
  "'s DataLayer \<Rightarrow> gotime \<Rightarrow> gotime \<Rightarrow> uuid \<times> uuid \<times> uuid \<times> uuid \<times> uuid \<times> uuid \<Rightarrow> ('s, unit) tst" where
  "list_queries dl startedAfter startedBefore ids =
     (case ids of (id1, id2, id3, id4, id5, id6) \<Rightarrow>
      t_bind (t_refuses ''empty list options should return error'' (dl_ListBuilds dl Background no_opts)) (\<lambda>_.
      t_bind (t_refuses ''duplicate timestamps should return error''
                (dl_ListBuilds dl Background (no_opts\<lparr>lo_StartedBefore := startedAfter, lo_StartedAfter := startedAfter\<rparr>))) (\<lambda>_.
      t_bind (t_list dl (no_opts\<lparr>lo_WithGitHubRepo := ''foo/bar''\<rparr>) ''list builds by github repo failed: ''
                (not_one (\<lambda>b. Ok (b_ID b \<noteq> id1 \<or> b_GitHubRepo b \<noteq> ''foo/bar'')))
                ''bad result for listing by github repo: '') (\<lambda>_.
      t_bind (t_list dl (no_opts\<lparr>lo_WithGitHubRef := ''asdf''\<rparr>) ''list builds by github ref failed: ''
                (not_one (\<lambda>b. Ok (b_ID b \<noteq> id2 \<or> b_GitHubRef b \<noteq> ''asdf'')))
                ''bad result for listing by github ref: '') (\<lambda>_.
      t_bind (t_list dl (no_opts\<lparr>lo_WithImageRepo := ''some/repo''\<rparr>) ''list builds by image repo failed: ''
                (not_one (\<lambda>b. if b_ID b \<noteq> id3 then Ok True
                   else case b_ImageRepos b of [] \<Rightarrow> Panic ''index out of range'' | r # _ \<Rightarrow> Ok (r \<noteq> ''some/repo'')))
                ''bad result for listing by image repo: '') (\<lambda>_.
      t_bind (t_list dl (no_opts\<lparr>lo_WithStatus := BuildStatusFailure\<rparr>) ''list builds by status failed: ''
                (not_one (\<lambda>b. Ok (b_ID b \<noteq> id4 \<or> b_Status b \<noteq> BuildStatusFailure)))
                ''bad result for listing by status: '') (\<lambda>_.
      t_bind (t_list dl (no_opts\<lparr>lo_CompletedAfter := completedAfter\<rparr>) ''list builds by completed after failed: ''
                (not_one (\<lambda>b. Ok (b_ID b \<noteq> id5 \<or> \<not> (completedAfter < b_Completed b \<or> b_Completed b = completedAfter))))
                ''bad result for listing by completed after: '') (\<lambda>_.
      t_bind (t_list dl (no_opts\<lparr>lo_CompletedBefore := completedBefore\<rparr>) ''list builds by completed before failed: ''
                (not_one (\<lambda>b. Ok (b_ID b \<noteq> id6 \<or> \<not> b_Completed b < completedBefore)))
                ''bad result for listing by completed before: '') (\<lambda>_.
      t_bind (t_list dl (no_opts\<lparr>lo_StartedAfter := startedAfter\<rparr>) ''list builds by started after failed: ''
                (not_length 6) ''bad result for listing by started after: '') (\<lambda>_.
      t_bind (t_list dl (no_opts\<lparr>lo_StartedBefore := startedBefore\<rparr>) ''list builds by started before failed: ''
                (not_length 6) ''bad result for listing by started before: '') (\<lambda>_.
      t_bind (t_list dl (no_opts\<lparr>lo_StartedBefore := startedBefore, lo_Limit := 2\<rparr>)
                ''list builds by started before with limit failed: ''
                (not_length 2) ''bad result for listing by started before with limit: '') (\<lambda>_.
      t_list dl (no_opts\<lparr>lo_StartedAfter := startedBefore, lo_StartedBefore := time_Add startedBefore (- hour)\<rparr>)
        ''impossible options failed: '' (not_length 0) ''bad result for impossible options: ''))))))))))))"

text \<open>Lines 282 to 312.\<close>

definition list_ands :: "'s DataLayer \<Rightarrow> gotime \<Rightarrow> gotime \<Rightarrow> ('s, unit) tst" where
  "list_ands dl startedAfter startedBefore =
     t_bind (t_value 0 (dl_CreateBuild dl Background
       (zero_Build\<lparr>b_GitHubRepo := ''foo/bar2'', b_GitHubRef := ''1234'', b_ImageRepos := [''abc'', ''def'']\<rparr>))) (\<lambda>id7.
     t_bind (t_value () (dl_SetBuildStatus dl Background id7 BuildStatusRunning)) (\<lambda>_.
     t_bind (t_list dl (no_opts\<lparr>lo_StartedAfter := startedAfter, lo_WithGitHubRepo := ''foo/bar2'',
                          lo_WithGitHubRef := ''1234'', lo_WithImageRepo := ''def'', lo_WithStatus := BuildStatusRunning\<rparr>)
               ''multiple options failed: '' (not_one (\<lambda>b. Ok (b_ID b \<noteq> id7)))
               ''bad result for AND check multiple options: '') (\<lambda>_.
     t_list dl (no_opts\<lparr>lo_StartedAfter := startedBefore, lo_WithGitHubRepo := ''foo/bar2'',
                  lo_WithGitHubRef := ''1234'', lo_WithImageRepo := ''invalid'', lo_WithStatus := BuildStatusRunning\<rparr>)
       ''non-matching multiple options failed: '' (not_length 0)
       ''non-matching multiple options should return no results: '')))"

definition testDBListBuilds :: "'s tsenv \<Rightarrow> 's DataLayer \<Rightarrow> ('s, unit) tst" where
  "testDBListBuilds env dl =
     t_bind (t_Now env) (\<lambda>startedAfter.
     t_bind (list_setup env dl) (\<lambda>ids.
     t_bind (t_Now env) (\<lambda>now.
     let startedBefore = time_Add now hour in
     t_bind (list_queries dl startedAfter startedBefore ids) (\<lambda>_.
     list_ands dl startedAfter startedBefore))))"

section \<open>Listeners\<close>

text \<open>
  What the other goroutine does, placed before the registration of the listener or while it waits.
\<close>

definition place :: "bool \<Rightarrow> ('s \<Rightarrow> 's) \<Rightarrow> ('s \<Rightarrow> 's) \<times> ('s \<Rightarrow> 's)" where
  "place early f = (if early then (f, \<lambda>s. s) else (\<lambda>s. s, f))"

definition hung :: string where
  "hung = ''test timed out''"

text \<open>A call of the test's own goroutine, which must not wait.\<close>

definition at_once :: "('s, 'a) act \<Rightarrow> ('s, 'a) act" where
  "at_once f s = (case f s of (s1, Err e) \<Rightarrow> (s1, if ctx_ended e then Panic hung else Err e) | r \<Rightarrow> r)"

definition t_returns :: "string \<Rightarrow> ('s, 'a) act \<Rightarrow> ('s, unit) tst" where
  "t_returns msg f s =
     (case f s of (s1, Ok x) \<Rightarrow> (s1, [], Some ()) | (s1, Err e) \<Rightarrow> (s1, [msg], None) | (s1, Panic m) \<Rightarrow> t_panic m s1)"

text \<open>
  \<^verbatim>\<open>ListenForBuildEvents\<close> returns an error whenever it returns, so the check of the first call always
  holds.
\<close>

definition t_events_now :: "'s DataLayer \<Rightarrow> uuid \<Rightarrow> ('s, unit) tst" where
  "t_events_now dl bid s =
     (case dl_ListenForBuildEvents dl (\<lambda>s. s) (\<lambda>s. s) Background bid s of
        None \<Rightarrow> t_panic hung s
      | Some (s1, out, e) \<Rightarrow> if ctx_ended e then t_panic hung s1 else (s1, [], Some ()))"

definition t_events ::
  "'s DataLayer \<Rightarrow> ('s \<Rightarrow> 's) \<times> ('s \<Rightarrow> 's) \<Rightarrow> uuid \<Rightarrow> ('s, string list) tst" where
  "t_events dl gaps bid s =
     (case dl_ListenForBuildEvents dl (fst gaps) (snd gaps) Active bid s of
        None \<Rightarrow> t_panic hung s
      | Some (s1, out, e) \<Rightarrow> (s1, [], Some out))"

text \<open>
  A listener in a goroutine of its own and another goroutine that does \<open>f\<close>: whether the listener had
  returned before \<open>f\<close> was let go, and what it has returned in the end, \<open>None\<close> when it still waits; the
  error is dropped, which leaves the zero value \<open>d\<close>.  When \<open>f\<close> comes early the first check came earlier still.
\<close>

definition still_waits :: "('s, 'a) act \<Rightarrow> 's \<Rightarrow> bool" where
  "still_waits f s = (case snd (f s) of Err e \<Rightarrow> ctx_ended e | _ \<Rightarrow> False)"

definition t_listener ::
  "(('s \<Rightarrow> 's) \<Rightarrow> ('s \<Rightarrow> 's) \<Rightarrow> ('s, 'a) act) \<Rightarrow> bool \<Rightarrow> ('s \<Rightarrow> 's) \<Rightarrow> 'a \<Rightarrow> ('s, bool \<times> 'a option) tst" where
  "t_listener listen early f d s =
     (let gaps = place early f;
          yet = (\<not> early \<and> \<not> still_waits (listen (\<lambda>s. s) (\<lambda>s. s)) s);
          (s1, r) = (if yet then (case listen (\<lambda>s. s) (\<lambda>s. s) s of (s1, r) \<Rightarrow> (f s1, r)) else listen (fst gaps) (snd gaps) s)
      in case r of
           Ok x \<Rightarrow> (s1, [], Some (yet, Some x))
         | Err e \<Rightarrow> (s1, [], Some (yet, if ctx_ended e then None else Some d))
         | Panic m \<Rightarrow> t_panic m s1)"

definition testDBListenAndAddEvents :: "'s tsenv \<Rightarrow> 's DataLayer \<Rightarrow> ('s, unit) tst" where
  "testDBListenAndAddEvents env dl =
     t_bind (t_must ''error creating build: '' (dl_CreateBuild dl Background (tb env))) (\<lambda>bid.
     t_bind (t_must ''error setting build status 1: '' (dl_SetBuildStatus dl Background bid BuildStatusFailure)) (\<lambda>_.
     t_bind (t_events_now dl bid) (\<lambda>_.
     t_bind (t_must ''error setting build status 2: '' (dl_SetBuildStatus dl Background bid BuildStatusRunning)) (\<lambda>_.
     t_bind (t_events dl
               (place (te_early env ''listen for and add events'')
                  (add_events dl bid
                     [''something happened - '' @ [CHR 39] @ ''embedded quoted string'' @ [CHR 39],
                      ''something else happened'', ''ok done''])) bid) (\<lambda>revents.
     t_fatal_if (length revents < 3) ''time out waiting for 3 events'')))))"

definition testDBCancelBuildAndListenForCancellation :: "'s tsenv \<Rightarrow> 's DataLayer \<Rightarrow> ('s, unit) tst" where
  "testDBCancelBuildAndListenForCancellation env dl =
     t_bind (t_must ''error creating build: '' (dl_CreateBuild dl Background (tb env))) (\<lambda>bid.
     t_bind (t_fails ''listen should have returned error for bad build status''
               (at_once (dl_ListenForCancellation dl (\<lambda>s. s) (\<lambda>s. s) Background bid))) (\<lambda>_.
     t_bind (t_must ''error setting build status to cancelled: ''
               (dl_SetBuildStatus dl Background bid BuildStatusCancelRequested)) (\<lambda>_.
     t_bind (t_returns ''listen should have returned immediately since status is cancel requested''
               (at_once (dl_ListenForCancellation dl (\<lambda>s. s) (\<lambda>s. s) Background bid))) (\<lambda>_.
     t_bind (t_must ''error setting build status to running: ''
               (dl_SetBuildStatus dl Background bid BuildStatusRunning)) (\<lambda>_.
     t_bind (t_listener (\<lambda>g1 g2. dl_ListenForCancellation dl g1 g2 Active bid)
               (te_early env ''cancellation and listen for cancellation'')
               (\<lambda>s. fst (dl_CancelBuild dl Active bid s)) ()) (\<lambda>(yet, c).
     t_bind (t_error_if yet ''build shouldn't be cancelled but is'') (\<lambda>_.
     t_error_if (c = None) ''timeout: build not cancelled yet but should be'')))))))"

definition testDBSetBuildAsRunningAndListenForBuildRunning :: "'s tsenv \<Rightarrow> 's DataLayer \<Rightarrow> ('s, unit) tst" where
  "testDBSetBuildAsRunningAndListenForBuildRunning env dl =
     t_bind (t_must ''error creating build: '' (dl_CreateBuild dl Background (tb env))) (\<lambda>bid.
     t_bind (t_must ''error setting build status to success: ''
               (dl_SetBuildStatus dl Background bid BuildStatusSuccess)) (\<lambda>_.
     t_bind (t_fails ''listen should have returned error for bad build status''
               (at_once (dl_ListenForBuildRunning dl (\<lambda>s. s) (\<lambda>s. s) Background bid))) (\<lambda>_.
     t_bind (t_must ''error setting build status to running: ''
               (dl_SetBuildStatus dl Background bid BuildStatusRunning)) (\<lambda>_.
     t_bind (t_returns ''listen should have returned immediately since status is running''
               (at_once (dl_ListenForBuildRunning dl (\<lambda>s. s) (\<lambda>s. s) Background bid))) (\<lambda>_.
     t_bind (t_must ''error setting build status to not started: ''
               (dl_SetBuildStatus dl Background bid BuildStatusNotStarted)) (\<lambda>_.
     t_bind (t_listener (\<lambda>g1 g2. dl_ListenForBuildRunning dl g1 g2 Active bid)
               (te_early env ''set build as running and listen for running'')
               (\<lambda>s. fst (dl_SetBuildAsRunning dl Active bid s)) ()) (\<lambda>(yet, c).
     t_bind (t_error_if yet ''build shouldn't be running but is'') (\<lambda>_.
     t_error_if (c = None) ''timeout: build not running yet but should be''))))))))"

definition testDBSetBuildAsCompletedAndListenForBuildCompleted :: "'s tsenv \<Rightarrow> 's DataLayer \<Rightarrow> ('s, unit) tst" where
  "testDBSetBuildAsCompletedAndListenForBuildCompleted env dl =
     t_bind (t_must ''error creating build: '' (dl_CreateBuild dl Background (tb env))) (\<lambda>bid.
     t_bind (t_must ''error setting build status to unknown: ''
               (dl_SetBuildStatus dl Background bid BuildStatusUnknown)) (\<lambda>_.
     t_bind (t_fails ''listen should have returned error for unknown build status''
               (at_once (dl_ListenForBuildCompleted dl (\<lambda>s. s) (\<lambda>s. s) Background bid))) (\<lambda>_.
     t_bind (t_must ''error setting build status to success: ''
               (dl_SetBuildStatus dl Background bid BuildStatusSuccess)) (\<lambda>_.
     t_bind (t_returns ''listen should have returned immediately since status is success''
               (at_once (dl_ListenForBuildCompleted dl (\<lambda>s. s) (\<lambda>s. s) Background bid))) (\<lambda>_.
     t_bind (t_must ''error setting build status to running: ''
               (dl_SetBuildStatus dl Background bid BuildStatusRunning)) (\<lambda>_.
     t_bind (t_listener (\<lambda>g1 g2. dl_ListenForBuildCompleted dl g1 g2 Active bid)
               (te_early env ''set build as completed and listen for completion'')
               (\<lambda>s. fst (dl_SetBuildAsCompleted dl Active bid BuildStatusSuccess s)) BuildStatusUnknown) (\<lambda>(yet, c).
     t_bind (t_error_if yet ''build shouldn't be completed but is'') (\<lambda>_.
     case c of
       Some st \<Rightarrow>
         if yet then t_error_if True ''timeout: build not completed yet but should be''
         else t_error_if (st \<noteq> BuildStatusSuccess) (''bad build status (wanted success): '' @ BuildStatus_String st)
     | None \<Rightarrow> t_error_if True ''timeout: build not completed yet but should be''))))))))"

section \<open>API keys\<close>

definition key_ro :: APIKey where
  "key_ro = \<lparr>ak_ID = 0, ak_Created = zero_time, ak_GitHubUser = [], ak_Name = [], ak_Description = [], ak_ReadOnly = True\<rparr>"

definition testDBCreateAPIKey :: "'s tsenv \<Rightarrow> 's DataLayer \<Rightarrow> ('s, unit) tst" where
  "testDBCreateAPIKey env dl =
     t_bind (t_must ''error creating api key: '' (dl_CreateAPIKey dl Background key_ro)) (\<lambda>kid.
     t_bind (t_fatal_if (kid = 0) ''zero value id'') (\<lambda>_.
     t_bind (t_must ''error getting key: '' (dl_GetAPIKey dl Background kid)) (\<lambda>ak.
     t_bind (t_fatal_if (\<not> ak_ReadOnly ak) ''expected read only'') (\<lambda>_.
     t_must ''error deleting api key: '' (dl_DeleteAPIKey dl Background kid)))))"

definition testDBGetAPIKey :: "'s tsenv \<Rightarrow> 's DataLayer \<Rightarrow> ('s, unit) tst" where
  "testDBGetAPIKey env dl =
     t_bind (t_must ''error creating api key: '' (dl_CreateAPIKey dl Background key_ro)) (\<lambda>kid.
     t_bind (t_must ''error getting api key: '' (dl_GetAPIKey dl Background kid)) (\<lambda>ak.
     t_bind (t_fatal_if (\<not> ak_ReadOnly ak) ''expected read only'') (\<lambda>_.
     t_bind (t_Must (te_NewV4 env)) (\<lambda>other.
     t_bind (t_fails ''expected id missing error'' (dl_GetAPIKey dl Background other)) (\<lambda>_.
     t_must ''error deleting build: '' (dl_DeleteAPIKey dl Background kid))))))"

definition testDBDeleteAPIKey :: "'s tsenv \<Rightarrow> 's DataLayer \<Rightarrow> ('s, unit) tst" where
  "testDBDeleteAPIKey env dl =
     t_bind (t_must ''error creating api key: '' (dl_CreateAPIKey dl Background key_ro)) (\<lambda>kid.
     t_bind (t_must ''error deleting api key: '' (dl_DeleteAPIKey dl Background kid)) (\<lambda>_.
     t_bind (t_Must (te_NewV4 env)) (\<lambda>other.
     t_must ''error deleting missing api key: '' (dl_DeleteAPIKey dl Background other))))"

section \<open>The suite\<close>

definition suite :: "'s tsenv \<Rightarrow> (string \<times> ('s DataLayer \<Rightarrow> ('s, unit) tst)) list" where
  "suite env =
     [(''create build'', testDBCreateBuild env),
      (''delete build'', testDBDeleteBuild env),
      (''get build by ID'', testDBGetBuildByID env),
      (''list builds'', testDBListBuilds env),
      (''set build completed timestamp'', testDBSetBuildCompletedTimestamp env),
      (''set build status'', testDBSetBuildStatus env),
      (''listen for and add events'', testDBListenAndAddEvents env),
      (''cancellation and listen for cancellation'', testDBCancelBuildAndListenForCancellation env),
      (''set build as running and listen for running'', testDBSetBuildAsRunningAndListenForBuildRunning env),
      (''set build as completed and listen for completion'', testDBSetBuildAsCompletedAndListenForBuildCompleted env),
      (''create API key'', testDBCreateAPIKey env),
      (''get API key'', testDBGetAPIKey env),
      (''delete API key'', testDBDeleteAPIKey env)]"

text \<open>
  The loop of \<^verbatim>\<open>RunTests\<close>: each test runs on a data layer of its own, which \<open>dlfunc\<close> makes on the state;
  the failures by test.
\<close>

fun run_tests ::
  "('s \<Rightarrow> 's) \<Rightarrow> 's DataLayer \<Rightarrow> (string \<times> ('s DataLayer \<Rightarrow> ('s, unit) tst)) list \<Rightarrow> 's
     \<Rightarrow> 's \<times> (string \<times> string list) list" where
  "run_tests dlfunc dl [] s = (s, [])"
| "run_tests dlfunc dl ((name, tfunc) # ts) s =
     (case tfunc dl (dlfunc s) of
        (s1, ls, _) \<Rightarrow> (case run_tests dlfunc dl ts s1 of (s2, rs) \<Rightarrow> (s2, (name, ls) # rs)))"

definition RunTests ::
  "'s tsenv \<Rightarrow> (('s \<Rightarrow> 's) \<times> 's DataLayer) option \<Rightarrow> 's \<Rightarrow> 's \<times> (string \<times> string list) list" where
  "RunTests env dlfunc s =
     (case dlfunc of
        None \<Rightarrow> (s, [([], [''dlfunc cannot be nil''])])
      | Some (mk, dl) \<Rightarrow> run_tests mk dl (suite env) s)"

section \<open>Lemmas: every test passes on a full layer\<close>

named_theorems tst_simps "unfolding rules for tests"

lemmas [tst_simps] = t_bind_def t_ret_def t_must_def t_should_def t_value_def t_fails_def t_refuses_def
  t_fatal_if_def t_error_if_def t_Must_def t_Now_def t_events_def place_def
  t_events_now_def t_returns_def at_once_def still_waits_def t_listener_def

definition passes :: "('s, unit) tst \<Rightarrow> 's \<Rightarrow> ('s \<Rightarrow> bool) \<Rightarrow> bool" where
  "passes m s Q \<longleftrightarrow> (\<exists>s'. m s = (s', [], Some ()) \<and> Q s')"

lemma tb_texts: "new_build (tb env)"
  by (simp add: new_build_def tb_def zero_Build_def build_texts_def zero_BuildOpts_def zero_Resources_def
      resource_texts_def definition_texts_def ascii_text_def)

lemma tb_fields [simp]:
  "b_GitHubRepo (tb env) = ''foobar/baz''" "map_option bd_GithubRepo (rq_Build (b_Request (tb env))) = Some ''foobar/baz''"
  by (simp_all add: tb_def)

lemma settle_eq:
  assumes "settle b' = b"
  shows "b_ID b' = b_ID b" "b_Status b' = b_Status b" "b_Completed b' = b_Completed b" "b_GitHubRepo b' = b_GitHubRepo b"
    "b_GitHubRef b' = b_GitHubRef b" "b_ImageRepos b' = b_ImageRepos b" "b_Request b' = b_Request b"
  using assms by auto

context full_layer
begin

lemma create_tb:
  assumes "ready (x # us) s"
  shows "\<exists>s' bid b. dl_CreateBuild dl Active (tb env) s = (s', Ok bid) \<and> ready us s' \<and> full s' = (full s)(bid \<mapsto> b)
    \<and> bid \<in> source \<and> full s bid = None \<and> b_Status b = BuildStatusNotStarted \<and> b_GitHubRepo b = ''foobar/baz''
    \<and> map_option bd_GithubRepo (rq_Build (b_Request b)) = Some ''foobar/baz''"
  using create_works [OF assms tb_texts, of env] by (fastforce simp: stored_as_def created_as_def)

lemma get_stored:
  assumes "ready us s" "full s bid = Some b"
  shows "\<exists>s' b'. dl_GetBuildByID dl Active bid s = (s', Ok b') \<and> settle b' = b \<and> ready us s' \<and> full s' = full s"
  using get_works [OF assms(1), of bid] assms(2) by auto

lemma get_other:
  assumes "ready us s" "bid \<notin> source"
  shows "\<exists>s'. dl_GetBuildByID dl Active bid s = (s', Err ErrNotFound) \<and> ready us s' \<and> full s' = full s"
proof -
  from builds_source [OF assms(1)] assms(2) have "full s bid = None" by auto
  with get_works [OF assms(1), of bid] show ?thesis by auto
qed

lemma status_step:
  assumes "ready us s" "full s bid = Some b" "known_status st"
  shows "\<exists>s'. dl_SetBuildStatus dl Active bid st s = (s', Ok ()) \<and> ready us s' \<and> full s' = (full s)(bid \<mapsto> b\<lparr>b_Status := st\<rparr>)"
  using status_works [OF assms(1,3), of bid] assms(2) by (auto simp: change_def)

lemma testDBCreateBuild_passes:
  assumes "ready (x # us) s"
  shows "passes (testDBCreateBuild env dl) s (\<lambda>s'. ready us s' \<and> full s' = full s)"
proof -
  from create_tb [OF assms, of env] obtain s1 bid b where 1: "dl_CreateBuild dl Active (tb env) s = (s1, Ok bid)" "ready us s1"
    "full s1 = (full s)(bid \<mapsto> b)" "full s bid = None" "b_Status b = BuildStatusNotStarted" by blast
  from get_stored [OF 1(2), of bid b] 1(3) obtain s2 b' where 2: "dl_GetBuildByID dl Active bid s1 = (s2, Ok b')"
    "settle b' = b" "ready us s2" "full s2 = full s1" by auto
  from delete_works [OF 2(3), of bid] obtain s3 where 3: "dl_DeleteBuild dl Active bid s2 = (s3, Ok ())" "ready us s3"
    "full s3 = (full s2)(bid := None)" by blast
  have "b_Status b' = BuildStatusNotStarted" using settle_eq(2) [OF 2(2)] 1(5) by simp
  with 1(1,3,4) 2(1,4) 3 show ?thesis by (auto simp: passes_def testDBCreateBuild_def tst_simps)
qed

lemma testDBDeleteBuild_passes:
  assumes "ready us s"
  shows "passes (testDBDeleteBuild env dl) s (\<lambda>s'. ready us s' \<and> full s' \<subseteq>\<^sub>m full s)"
  using delete_works [OF assms, of "te_ID env"]
  by (auto simp: passes_def testDBDeleteBuild_def tst_simps map_le_def)

lemma testDBGetBuildByID_passes:
  assumes "ready (x # us) s" "te_NewV4 env = Ok u" "u \<notin> source"
  shows "passes (testDBGetBuildByID env dl) s (\<lambda>s'. ready us s' \<and> full s' = full s)"
proof -
  from create_tb [OF assms(1), of env] obtain s1 bid b where 1: "dl_CreateBuild dl Active (tb env) s = (s1, Ok bid)" "ready us s1"
    "full s1 = (full s)(bid \<mapsto> b)" "full s bid = None" "b_GitHubRepo b = ''foobar/baz''"
    "map_option bd_GithubRepo (rq_Build (b_Request b)) = Some ''foobar/baz''" by blast
  from get_stored [OF 1(2), of bid b] 1(3) obtain s2 b' where 2: "dl_GetBuildByID dl Active bid s1 = (s2, Ok b')"
    "settle b' = b" "ready us s2" "full s2 = full s1" by auto
  from get_other [OF 2(3) assms(3)] obtain s3 where 3: "dl_GetBuildByID dl Active u s2 = (s3, Err ErrNotFound)" "ready us s3"
    "full s3 = full s2" by blast
  from delete_works [OF 3(2), of bid] obtain s4 where 4: "dl_DeleteBuild dl Active bid s3 = (s4, Ok ())" "ready us s4"
    "full s4 = (full s3)(bid := None)" by blast
  from 1(6) obtain d where "rq_Build (b_Request b) = Some d" "bd_GithubRepo d = ''foobar/baz''" by auto
  moreover obtain d' where "rq_Build (b_Request (tb env)) = Some d'" "bd_GithubRepo d' = ''foobar/baz''" by (simp add: tb_def)
  moreover have "b_GitHubRepo b' = ''foobar/baz''" "b_Request b' = b_Request b"
    using settle_eq(4,7) [OF 2(2)] 1(5) by simp_all
  ultimately show ?thesis using 1(1,3,4) 2(1,4) 3 4
    by (auto simp: passes_def testDBGetBuildByID_def tst_simps assms(2))
qed

lemma testDBSetBuildCompletedTimestamp_passes:
  assumes "ready (x # us) s" "te_Now env = clock"
  shows "passes (testDBSetBuildCompletedTimestamp env dl) s (\<lambda>s'. ready us s' \<and> full s' = full s)"
proof -
  from create_tb [OF assms(1), of env] obtain s1 bid b where 1: "dl_CreateBuild dl Active (tb env) s = (s1, Ok bid)" "ready us s1"
    "full s1 = (full s)(bid \<mapsto> b)" "full s bid = None" by blast
  have "zero_time < res (clock s1)" "tm_sec (res (clock s1)) = tm_sec (clock s1)"
    using ready_inv [OF 1(2)] by (simp_all add: sec_less sane_def zero_time_def rounds_sec [OF res_rounds])
  note r = this
  have "storable (clock s1)" using ready_inv [OF 1(2)] by (simp add: sane_storable)
  from stamp_works [OF 1(2) this, of bid] 1(3) obtain s2 where 2: "dl_SetBuildCompletedTimestamp dl Active bid (clock s1) s1 = (s2, Ok ())"
    "ready us s2" "full s2 = (full s)(bid \<mapsto> b\<lparr>b_Completed := res (clock s1)\<rparr>)" by (auto simp: change_def)
  from get_stored [OF 2(2), of bid] 2(3) obtain s3 b' where 3: "dl_GetBuildByID dl Active bid s2 = (s3, Ok b')"
    "settle b' = b\<lparr>b_Completed := res (clock s1)\<rparr>" "ready us s3" "full s3 = full s2" by auto
  from delete_works [OF 3(3), of bid] obtain s4 where 4: "dl_DeleteBuild dl Active bid s3 = (s4, Ok ())" "ready us s4"
    "full s4 = (full s3)(bid := None)" by blast
  have "b_Completed b' = res (clock s1)" using settle_eq(3) [OF 3(2)] by simp
  with 1(1,3,4) 2 3(1,4) 4 show ?thesis
    by (auto simp: passes_def testDBSetBuildCompletedTimestamp_def tst_simps assms(2) trunc_sec_def r(2))
qed

lemma testDBSetBuildStatus_passes:
  assumes "ready (x # us) s"
  shows "passes (testDBSetBuildStatus env dl) s (\<lambda>s'. ready us s' \<and> full s' = full s)"
proof -
  from create_tb [OF assms(1), of env] obtain s1 bid b where 1: "dl_CreateBuild dl Active (tb env) s = (s1, Ok bid)" "ready us s1"
    "full s1 = (full s)(bid \<mapsto> b)" "full s bid = None" "b_Status b = BuildStatusNotStarted" by blast
  from get_stored [OF 1(2), of bid b] 1(3) obtain s2 b2 where 2: "dl_GetBuildByID dl Active bid s1 = (s2, Ok b2)"
    "settle b2 = b" "ready us s2" "full s2 = full s1" by auto
  from status_step [OF 2(3), of bid b BuildStatusSuccess] 1(3) 2(4) obtain s3
    where 3: "dl_SetBuildStatus dl Active bid BuildStatusSuccess s2 = (s3, Ok ())" "ready us s3"
      "full s3 = (full s)(bid \<mapsto> b\<lparr>b_Status := BuildStatusSuccess\<rparr>)" by auto
  from get_stored [OF 3(2), of bid] 3(3) obtain s4 b4 where 4: "dl_GetBuildByID dl Active bid s3 = (s4, Ok b4)"
    "settle b4 = b\<lparr>b_Status := BuildStatusSuccess\<rparr>" "ready us s4" "full s4 = full s3" by auto
  from delete_works [OF 4(3), of bid] obtain s5 where 5: "dl_DeleteBuild dl Active bid s4 = (s5, Ok ())" "ready us s5"
    "full s5 = (full s4)(bid := None)" by blast
  have "b_Status b2 = BuildStatusNotStarted" "b_Status b4 = BuildStatusSuccess"
    using settle_eq(2) [OF 2(2)] settle_eq(2) [OF 4(2)] 1(5) by simp_all
  with 1(1,3,4) 2(1,4) 3 4(1,4) 5 show ?thesis
    by (auto simp: passes_def testDBSetBuildStatus_def tst_simps)
qed

text \<open>The listeners: the first call is refused or returns at once, the last one is woken.\<close>

lemma testDBListenAndAddEvents_passes:
  assumes "ready (x # us) s" "\<not> te_early env ''listen for and add events''"
  shows "passes (testDBListenAndAddEvents env dl) s (usable us)"
proof -
  let ?es = "[''something happened - '' @ [CHR 39] @ ''embedded quoted string'' @ [CHR 39], ''something else happened'', ''ok done'']"
  from create_tb [OF assms(1), of env] obtain s1 bid b where 1: "dl_CreateBuild dl Active (tb env) s = (s1, Ok bid)" "ready us s1"
    "full s1 bid = Some b" by auto
  from status_step [OF 1(2,3)] obtain s2 where 2: "dl_SetBuildStatus dl Active bid BuildStatusFailure s1 = (s2, Ok ())" "ready us s2"
    "full s2 bid = Some (b\<lparr>b_Status := BuildStatusFailure\<rparr>)" by fastforce
  from events_refused [OF 2(2,3)] obtain s3 e where 3: "dl_ListenForBuildEvents dl (\<lambda>s. s) (\<lambda>s. s) Active bid s2 = Some (s3, [], e)"
    "ready us s3" "full s3 bid = full s2 bid" "\<not> ctx_ended e" by fastforce
  from status_step [OF 3(2), of bid] 2(3) 3(3) obtain s4
    where 4: "dl_SetBuildStatus dl Active bid BuildStatusRunning s3 = (s4, Ok ())" "ready us s4"
      "full s4 bid = Some (b\<lparr>b_Status := BuildStatusRunning\<rparr>)" by fastforce
  have "list_all event_text ?es" by (simp add: event_text_def ascii_text_def)
  with events_heard [OF 4(2,3)] obtain s5 e' where 5: "dl_ListenForBuildEvents dl (\<lambda>t. t) (add_events dl bid ?es) Active bid s4 = Some (s5, ?es, e')"
    "usable us s5" by fastforce
  from 1 2 3 4 5 show ?thesis
    by (simp add: passes_def testDBListenAndAddEvents_def tst_simps assms(2) del: add_events.simps append.simps)
qed

lemma testDBCancel_passes:
  assumes "ready (x # us) s" "\<not> te_early env ''cancellation and listen for cancellation''"
  shows "passes (testDBCancelBuildAndListenForCancellation env dl) s (usable us)"
proof -
  from create_tb [OF assms(1), of env] obtain s1 bid b where 1: "dl_CreateBuild dl Active (tb env) s = (s1, Ok bid)" "ready us s1"
    "full s1 bid = Some b" "b_Status b = BuildStatusNotStarted" by auto
  from cancel_refused [OF 1(2,3)] 1(4) obtain s2 e where 2: "dl_ListenForCancellation dl (\<lambda>s. s) (\<lambda>s. s) Active bid s1 = (s2, Err e)"
    "ready us s2" "full s2 bid = Some b" "\<not> ctx_ended e" using 1(3) by fastforce
  from status_step [OF 2(2,3)] obtain s3 where 3: "dl_SetBuildStatus dl Active bid BuildStatusCancelRequested s2 = (s3, Ok ())"
    "ready us s3" "full s3 bid = Some (b\<lparr>b_Status := BuildStatusCancelRequested\<rparr>)" by fastforce
  from cancel_returns [OF 3(2,3)] obtain s4 where 4: "dl_ListenForCancellation dl (\<lambda>s. s) (\<lambda>s. s) Active bid s3 = (s4, Ok ())"
    "ready us s4" "full s4 bid = Some (b\<lparr>b_Status := BuildStatusCancelRequested\<rparr>)" using 3(3) by fastforce
  from status_step [OF 4(2,3)] obtain s5 where 5: "dl_SetBuildStatus dl Active bid BuildStatusRunning s4 = (s5, Ok ())" "ready us s5"
    "full s5 bid = Some (b\<lparr>b_Status := BuildStatusRunning\<rparr>)" by fastforce
  from cancel_waits [OF 5(2,3)] obtain sw ew
    where w: "dl_ListenForCancellation dl (\<lambda>t. t) (\<lambda>t. t) Active bid s5 = (sw, Err ew)" "ctx_ended ew" by auto
  from cancel_heard [OF 5(2,3)] obtain s6
    where 6: "dl_ListenForCancellation dl (\<lambda>t. t) (\<lambda>t. fst (dl_CancelBuild dl Active bid t)) Active bid s5 = (s6, Ok ())" "usable us s6" by auto
  from 1 2 3 4 5 6 w show ?thesis
    by (simp add: passes_def testDBCancelBuildAndListenForCancellation_def tst_simps assms(2))
qed

lemma testDBRunning_passes:
  assumes "ready (x # us) s" "\<not> te_early env ''set build as running and listen for running''"
  shows "passes (testDBSetBuildAsRunningAndListenForBuildRunning env dl) s (usable us)"
proof -
  from create_tb [OF assms(1), of env] obtain s1 bid b where 1: "dl_CreateBuild dl Active (tb env) s = (s1, Ok bid)" "ready us s1"
    "full s1 bid = Some b" by auto
  from status_step [OF 1(2,3)] obtain s2 where 2: "dl_SetBuildStatus dl Active bid BuildStatusSuccess s1 = (s2, Ok ())"
    "ready us s2" "full s2 bid = Some (b\<lparr>b_Status := BuildStatusSuccess\<rparr>)" by fastforce
  from running_refused [OF 2(2,3)] obtain s3 e where 3: "dl_ListenForBuildRunning dl (\<lambda>s. s) (\<lambda>s. s) Active bid s2 = (s3, Err e)"
    "ready us s3" "full s3 bid = full s2 bid" "\<not> ctx_ended e" by fastforce
  from status_step [OF 3(2), of bid] 2(3) 3(3) obtain s4 where 4: "dl_SetBuildStatus dl Active bid BuildStatusRunning s3 = (s4, Ok ())"
    "ready us s4" "full s4 bid = Some (b\<lparr>b_Status := BuildStatusRunning\<rparr>)" by fastforce
  from running_returns [OF 4(2,3)] obtain s5 where 5: "dl_ListenForBuildRunning dl (\<lambda>s. s) (\<lambda>s. s) Active bid s4 = (s5, Ok ())"
    "ready us s5" "full s5 bid = full s4 bid" by fastforce
  from status_step [OF 5(2), of bid] 4(3) 5(3) obtain s6 where 6: "dl_SetBuildStatus dl Active bid BuildStatusNotStarted s5 = (s6, Ok ())"
    "ready us s6" "full s6 bid = Some (b\<lparr>b_Status := BuildStatusNotStarted\<rparr>)" by fastforce
  from running_waits [OF 6(2,3)] obtain sw ew
    where w: "dl_ListenForBuildRunning dl (\<lambda>t. t) (\<lambda>t. t) Active bid s6 = (sw, Err ew)" "ctx_ended ew" by auto
  from running_heard [OF 6(2,3)] obtain s7
    where 7: "dl_ListenForBuildRunning dl (\<lambda>t. t) (\<lambda>t. fst (dl_SetBuildAsRunning dl Active bid t)) Active bid s6 = (s7, Ok ())" "usable us s7"
    by auto
  from 1 2 3 4 5 6 7 w show ?thesis
    by (simp add: passes_def testDBSetBuildAsRunningAndListenForBuildRunning_def tst_simps assms(2))
qed

lemma testDBCompleted_passes:
  assumes "ready (x # us) s" "\<not> te_early env ''set build as completed and listen for completion''"
  shows "passes (testDBSetBuildAsCompletedAndListenForBuildCompleted env dl) s (usable us)"
proof -
  from create_tb [OF assms(1), of env] obtain s1 bid b where 1: "dl_CreateBuild dl Active (tb env) s = (s1, Ok bid)" "ready us s1"
    "full s1 bid = Some b" by auto
  from status_step [OF 1(2,3)] obtain s2 where 2: "dl_SetBuildStatus dl Active bid BuildStatusUnknown s1 = (s2, Ok ())"
    "ready us s2" "full s2 bid = Some (b\<lparr>b_Status := BuildStatusUnknown\<rparr>)" by fastforce
  from completed_refused [OF 2(2,3)] obtain s3 e where 3: "dl_ListenForBuildCompleted dl (\<lambda>s. s) (\<lambda>s. s) Active bid s2 = (s3, Err e)"
    "ready us s3" "full s3 bid = full s2 bid" "\<not> ctx_ended e" by fastforce
  from status_step [OF 3(2), of bid] 2(3) 3(3) obtain s4 where 4: "dl_SetBuildStatus dl Active bid BuildStatusSuccess s3 = (s4, Ok ())"
    "ready us s4" "full s4 bid = Some (b\<lparr>b_Status := BuildStatusSuccess\<rparr>)" by fastforce
  from completed_returns [OF 4(2,3)] obtain s5
    where 5: "dl_ListenForBuildCompleted dl (\<lambda>s. s) (\<lambda>s. s) Active bid s4 = (s5, Ok BuildStatusSuccess)"
      "ready us s5" "full s5 bid = full s4 bid" by fastforce
  from status_step [OF 5(2), of bid] 4(3) 5(3) obtain s6 where 6: "dl_SetBuildStatus dl Active bid BuildStatusRunning s5 = (s6, Ok ())"
    "ready us s6" "full s6 bid = Some (b\<lparr>b_Status := BuildStatusRunning\<rparr>)" by fastforce
  from completed_waits [OF 6(2,3)] obtain sw ew
    where w: "dl_ListenForBuildCompleted dl (\<lambda>t. t) (\<lambda>t. t) Active bid s6 = (sw, Err ew)" "ctx_ended ew" by auto
  from completed_heard [OF 6(2,3), of BuildStatusSuccess] obtain s7
    where 7: "dl_ListenForBuildCompleted dl (\<lambda>t. t) (\<lambda>t. fst (dl_SetBuildAsCompleted dl Active bid BuildStatusSuccess t)) Active bid s6
      = (s7, Ok BuildStatusSuccess)" "usable us s7" by auto
  from 1 2 3 4 5 6 7 w show ?thesis
    by (simp add: passes_def testDBSetBuildAsCompletedAndListenForBuildCompleted_def tst_simps assms(2))
qed

text \<open>API keys.\<close>

lemma create_key:
  assumes "ready (x # us) s"
  shows "\<exists>s' kid k. dl_CreateAPIKey dl Active key_ro s = (s', Ok kid) \<and> ready us s' \<and> keys s' kid = Some k \<and> kid \<in> source
    \<and> kid \<noteq> 0 \<and> ak_ReadOnly k"
proof -
  have "list_all ascii_text (key_texts key_ro)" "ak_ReadOnly key_ro" by (simp_all add: key_texts_def key_ro_def ascii_text_def)
  with createkey_works [OF assms, of key_ro] source_zero show ?thesis by (metis fun_upd_same)
qed

lemma get_key:
  assumes "ready us s" "keys s kid = Some k"
  shows "\<exists>s'. dl_GetAPIKey dl Active kid s = (s', Ok k) \<and> ready us s'"
  using getkey_works [OF assms(1), of kid] assms(2) by auto

lemma get_no_key:
  assumes "ready us s" "kid \<notin> source"
  shows "\<exists>s'. dl_GetAPIKey dl Active kid s = (s', Err ErrNotFound) \<and> ready us s'"
proof -
  have "keys s kid = None" using keys_source [OF assms(1)] assms(2) by auto
  then show ?thesis using getkey_works [OF assms(1), of kid] by auto
qed

lemma testDBAPIKey_passes:
  assumes "ready (x # us) s" "te_NewV4 env = Ok u" "u \<notin> source"
  shows "passes (testDBCreateAPIKey env dl) s (ready us)" "passes (testDBGetAPIKey env dl) s (ready us)"
    "passes (testDBDeleteAPIKey env dl) s (ready us)"
proof -
  from create_key [OF assms(1)] obtain s1 kid k where 1: "dl_CreateAPIKey dl Active key_ro s = (s1, Ok kid)" "ready us s1"
    "keys s1 kid = Some k" "kid \<noteq> 0" "ak_ReadOnly k" by blast
  from get_key [OF 1(2,3)] obtain s2 where 2: "dl_GetAPIKey dl Active kid s1 = (s2, Ok k)" "ready us s2" by blast
  from deletekey_works [OF 2(2), of kid] obtain s3 where 3: "dl_DeleteAPIKey dl Active kid s2 = (s3, Ok ())" "ready us s3" by blast
  from 1 2 3 show "passes (testDBCreateAPIKey env dl) s (ready us)" by (simp add: passes_def testDBCreateAPIKey_def tst_simps)
  from get_no_key [OF 2(2) assms(3)] obtain s4 where 4: "dl_GetAPIKey dl Active u s2 = (s4, Err ErrNotFound)" "ready us s4" by blast
  from deletekey_works [OF 4(2), of kid] obtain s5 where 5: "dl_DeleteAPIKey dl Active kid s4 = (s5, Ok ())" "ready us s5" by blast
  from 1 2 4 5 show "passes (testDBGetAPIKey env dl) s (ready us)"
    by (simp add: passes_def testDBGetAPIKey_def tst_simps assms(2))
  from deletekey_works [OF 1(2), of kid] obtain s6 where 6: "dl_DeleteAPIKey dl Active kid s1 = (s6, Ok ())" "ready us s6" by blast
  from deletekey_works [OF 6(2), of u] obtain s7 where 7: "dl_DeleteAPIKey dl Active u s6 = (s7, Ok ())" "ready us s7" by blast
  from 1 6 7 show "passes (testDBDeleteAPIKey env dl) s (ready us)"
    by (simp add: passes_def testDBDeleteAPIKey_def tst_simps assms(2))
qed

end

text \<open>What a test knows of a stored build: its fields, and that it was created between two times.\<close>

definition item :: "(gotime \<Rightarrow> gotime) \<Rightarrow> uuid \<Rightarrow> Build \<Rightarrow> BuildStatus \<Rightarrow> gotime \<Rightarrow> gotime \<Rightarrow> gotime \<Rightarrow> Build \<Rightarrow> bool" where
  "item res i b st cmp t0 t1 b' \<longleftrightarrow>
     b_ID b' = i \<and> b_GitHubRepo b' = b_GitHubRepo b \<and> b_GitHubRef b' = b_GitHubRef b \<and> b_ImageRepos b' = b_ImageRepos b
     \<and> b_Status b' = st \<and> b_Completed b' = cmp \<and> res t0 \<le> b_Created b' \<and> b_Created b' \<le> t1"

lemma item_mono:
  "rounds res \<Longrightarrow> item res i b st cmp t0 t1 b' \<Longrightarrow> t0' \<le> t0 \<Longrightarrow> t1 \<le> t1' \<Longrightarrow> item res i b st cmp t0' t1' b'"
  unfolding item_def by (meson order_trans rounds_mono)

lemma item_change:
  "item res i b st cmp t0 t1 b' \<Longrightarrow> item res i b st' cmp t0 t1 (b'\<lparr>b_Status := st'\<rparr>)"
  "item res i b st cmp t0 t1 b' \<Longrightarrow> item res i b st cmp' t0 t1 (b'\<lparr>b_Completed := cmp'\<rparr>)"
  by (simp_all add: item_def)

lemma list_builds_new:
  "new_build zero_Build" "new_build (zero_Build\<lparr>b_GitHubRepo := ''foo/bar''\<rparr>)" "new_build (zero_Build\<lparr>b_GitHubRef := ''asdf''\<rparr>)"
  "new_build (zero_Build\<lparr>b_ImageRepos := [''some/repo'']\<rparr>)"
  "new_build (zero_Build\<lparr>b_GitHubRepo := ''foo/bar2'', b_GitHubRef := ''1234'', b_ImageRepos := [''abc'', ''def'']\<rparr>)"
  by (simp_all add: new_build_def zero_Build_def build_texts_def zero_BuildOpts_def zero_Resources_def zero_Request_def
      resource_texts_def ascii_text_def)

text \<open>The dates and the hour.\<close>

lemma sint_lit:
  "sint (unixToInternal + 1578099661 :: 64 word) = 63713696461" "sint (unixToInternal + 1577926861 :: 64 word) = 63713523661"
  "sint (hour :: 64 word) = 3600 * 10 ^ 9" "sint (- hour) = - 3600 * 10 ^ 9"
  by (simp_all add: unixToInternal_def hour_def)

lemma dates:
  "time_Add completedAfter hour = Time (unixToInternal + 1578103261) 1"
  "time_Add completedBefore (- hour) = Time (unixToInternal + 1577923261) 1"
  by (simp_all add: time_Add_def sint_lit completedAfter_def completedBefore_def unixToInternal_def Let_def)

lemma date_secs:
  "sint (tm_sec completedAfter) = 63713696461" "sint (tm_sec completedBefore) = 63713523661"
  "sint (tm_sec (time_Add completedAfter hour)) = 63713700061" "sint (tm_sec (time_Add completedBefore (- hour))) = 63713520061"
  unfolding dates by (simp_all add: completedAfter_def completedBefore_def unixToInternal_def)

lemma date_order:
  assumes "rounds res"
  shows "zero_time < res completedAfter" "zero_time < res completedBefore"
    "zero_time < res (time_Add completedAfter hour)" "zero_time < res (time_Add completedBefore (- hour))"
    "res completedAfter < res (time_Add completedAfter hour)" "res (time_Add completedBefore (- hour)) < res completedAfter"
    "res completedBefore < res (time_Add completedAfter hour)" "res (time_Add completedBefore (- hour)) < res completedBefore"
    "completedAfter < res (time_Add completedAfter hour)" "res (time_Add completedBefore (- hour)) < completedBefore"
    "zero_time < completedAfter" "zero_time < completedBefore"
  by (simp_all add: sec_less date_secs rounds_sec [OF assms] zero_time_def)

lemma date_storable:
  "storable completedAfter" "storable completedBefore" "storable (time_Add completedAfter hour)"
  "storable (time_Add completedBefore (- hour))"
  unfolding storable_def date_secs by (simp_all add: time_Add_valid) (simp_all add: completedAfter_def completedBefore_def time_valid_def)

lemma add_hour:
  assumes "sane t"
  shows "sint (tm_sec (time_Add t hour)) = sint (tm_sec t) + 3600" "sint (tm_sec (time_Add (time_Add t hour) (- hour))) = sint (tm_sec t)"
proof -
  have n: "tm_nsec t < 10 ^ 9" and s: "0 < sint (tm_sec t)" "sint (tm_sec t) < 9199999990000" using assms by (auto simp: sane_def time_valid_def)
  have m: "(int (tm_nsec t) + 3600 * 10 ^ 9) div 10 ^ 9 = 3600" "(int (tm_nsec t) + 3600 * 10 ^ 9) mod 10 ^ 9 = int (tm_nsec t)"
    "(int (tm_nsec t) - 3600 * 10 ^ 9) div 10 ^ 9 = - 3600" "(int (tm_nsec t) - 3600 * 10 ^ 9) mod 10 ^ 9 = int (tm_nsec t)"
  proof -
    have d: "(x + k * d) div d = k" "(x + k * d) mod d = x" if "0 \<le> x" "x < d" for x k d :: int
      using that by simp_all
    have "0 \<le> int (tm_nsec t)" "int (tm_nsec t) < 10 ^ 9" using n by simp_all
    from d [OF this, of 3600] d [OF this, of "- 3600"]
    show "(int (tm_nsec t) + 3600 * 10 ^ 9) div 10 ^ 9 = 3600" "(int (tm_nsec t) + 3600 * 10 ^ 9) mod 10 ^ 9 = int (tm_nsec t)"
      "(int (tm_nsec t) - 3600 * 10 ^ 9) div 10 ^ 9 = - 3600" "(int (tm_nsec t) - 3600 * 10 ^ 9) mod 10 ^ 9 = int (tm_nsec t)"
      by simp_all
  qed
  have 1: "time_Add t hour = Time (tm_sec t + 3600) (tm_nsec t)"
    unfolding time_Add_def sint_lit Let_def m by simp
  have 2: "time_Add (time_Add t hour) (- hour) = Time (tm_sec t) (tm_nsec t)"
    unfolding 1 using m by (simp add: time_Add_def sint_lit Let_def)
  have "sint (tm_sec t + 3600) = sint (tm_sec t) + 3600"
    using s by (simp add: sint_word_ariths signed_take_bit_int_eq_self)
  with 1 2 show "sint (tm_sec (time_Add t hour)) = sint (tm_sec t) + 3600"
    "sint (tm_sec (time_Add (time_Add t hour) (- hour))) = sint (tm_sec t)" by simp_all
qed

text \<open>What the options of the tests select.\<close>

lemma test_selects:
  assumes "res zero_time = zero_time"
  shows "r \<noteq> [] \<Longrightarrow> selects (at_res res (no_opts\<lparr>lo_WithGitHubRepo := r\<rparr>)) b \<longleftrightarrow> b_GitHubRepo b = r"
    "r \<noteq> [] \<Longrightarrow> selects (at_res res (no_opts\<lparr>lo_WithGitHubRef := r\<rparr>)) b \<longleftrightarrow> b_GitHubRef b = r"
    "r \<noteq> [] \<Longrightarrow> selects (at_res res (no_opts\<lparr>lo_WithImageRepo := r\<rparr>)) b \<longleftrightarrow> r \<in> set (b_ImageRepos b)"
    "st \<noteq> BuildStatusUnknown \<Longrightarrow> selects (at_res res (no_opts\<lparr>lo_WithStatus := st\<rparr>)) b \<longleftrightarrow> b_Status b = st"
    "zero_time < res t \<Longrightarrow> selects (at_res res (no_opts\<lparr>lo_CompletedAfter := t\<rparr>)) b \<longleftrightarrow> res t \<le> b_Completed b"
    "zero_time < res t \<Longrightarrow> selects (at_res res (no_opts\<lparr>lo_CompletedBefore := t\<rparr>)) b
       \<longleftrightarrow> b_Completed b \<noteq> zero_time \<and> b_Completed b < res t"
    "zero_time < res t \<Longrightarrow> selects (at_res res (no_opts\<lparr>lo_StartedAfter := t\<rparr>)) b \<longleftrightarrow> res t \<le> b_Created b"
    "zero_time < res t \<Longrightarrow> selects (at_res res (no_opts\<lparr>lo_StartedBefore := t\<rparr>)) b
       \<longleftrightarrow> b_Created b \<noteq> zero_time \<and> b_Created b < res t"
    "zero_time < res t \<Longrightarrow> selects (at_res res (no_opts\<lparr>lo_StartedBefore := t, lo_Limit := n\<rparr>)) b
       \<longleftrightarrow> b_Created b \<noteq> zero_time \<and> b_Created b < res t"
    "zero_time < res t \<Longrightarrow> zero_time < res u \<Longrightarrow>
       selects (at_res res (no_opts\<lparr>lo_StartedAfter := t, lo_StartedBefore := u\<rparr>)) b
       \<longleftrightarrow> res t \<le> b_Created b \<and> b_Created b \<noteq> zero_time \<and> b_Created b < res u"
    "zero_time < res t \<Longrightarrow> r \<noteq> [] \<Longrightarrow> q \<noteq> [] \<Longrightarrow> i \<noteq> [] \<Longrightarrow> st \<noteq> BuildStatusUnknown \<Longrightarrow>
       selects (at_res res (no_opts\<lparr>lo_StartedAfter := t, lo_WithGitHubRepo := r, lo_WithGitHubRef := q,
                              lo_WithImageRepo := i, lo_WithStatus := st\<rparr>)) b
       \<longleftrightarrow> res t \<le> b_Created b \<and> b_GitHubRepo b = r \<and> b_GitHubRef b = q \<and> i \<in> set (b_ImageRepos b) \<and> b_Status b = st"
  using assms
  by (auto simp: selects_def at_res_def no_opts_def zero_ListBuildsOptions_def IsZero_def)

lemma Collect_insert: "{x \<in> insert a A. P x} = (if P a then insert a {x \<in> A. P x} else {x \<in> A. P x})"
  by auto

lemma not_one_single:
  assumes "distinct (map settle out)" "settle ` set out \<subseteq> {b0}" "length out = 1" "\<And>b. settle b = b0 \<Longrightarrow> bad b = Ok False"
  shows "not_one bad out = Ok False"
proof -
  obtain b where "out = [b]" using assms(3) by (auto simp: length_Suc_conv)
  with assms(2,4) show ?thesis by (simp add: not_one_def)
qed

context full_layer
begin

abbreviation (input) plain_times :: "ListBuildsOptions \<Rightarrow> bool" where
  "plain_times opts \<equiv> (\<forall>t \<in> option_times opts. IsZero t \<or> storable t) \<and> list_all ascii_text (option_texts opts) \<and> known_status (lo_WithStatus opts)
     \<and> opts\<lparr>lo_Limit := 0\<rparr> \<noteq> zero_ListBuildsOptions"

lemma t_list_ok:
  assumes "ready us s" "options_ok opts" "plain_times opts" "lo_Limit opts < 2 ^ 63"
    and "{b \<in> ran (full s). selects (at_res res opts) b} = S"
    and "\<And>out. distinct (map settle out) \<Longrightarrow> settle ` set out \<subseteq> S \<Longrightarrow>
      length out = (if lo_Limit opts = 0 then card S else min (unat (lo_Limit opts)) (card S)) \<Longrightarrow> bad out = Ok False"
  shows "\<exists>s'. t_list dl opts p bad msg s = (s', [], Some ()) \<and> ready us s' \<and> clock s \<le> clock s' \<and> full s' = full s"
proof -
  from assms(3) have c: "\<forall>t \<in> option_times opts. IsZero t \<or> storable t" "list_all ascii_text (option_texts opts)"
    "known_status (lo_WithStatus opts)" "opts\<lparr>lo_Limit := 0\<rparr> \<noteq> zero_ListBuildsOptions" by blast+
  from list_works [OF assms(1,2) c(1-3) assms(4) c(4)] obtain s' out
    where l: "dl_ListBuilds dl Active opts s = (s', Ok out)" "ready us s'" "clock s \<le> clock s'" "full s' = full s"
      "distinct (map settle out)" "settle ` set out \<subseteq> S"
      "length out = (if lo_Limit opts = 0 then card S else min (unat (lo_Limit opts)) (card S))"
    unfolding assms(5) Let_def by blast
  from assms(6) [OF l(5-7)] l(1-4) show ?thesis by (simp add: t_list_def tst_simps)
qed

lemma create_item:
  assumes "ready (x # us) s" "new_build b"
  shows "\<exists>s' i b'. t_value 0 (dl_CreateBuild dl Active b) s = (s', [], Some i) \<and> ready us s' \<and> clock s \<le> clock s'
    \<and> full s' = (full s)(i \<mapsto> b') \<and> full s i = None
    \<and> item res i b BuildStatusNotStarted zero_time (clock s) (clock s') b'"
proof -
  from create_works [OF assms] obtain s' i b' where "dl_CreateBuild dl Active b s = (s', Ok i)" "ready us s'" "clock s \<le> clock s'"
    "full s' = (full s)(i \<mapsto> b')" "full s i = None" "stored_as b i b'" "res (clock s) \<le> b_Created b'" "b_Created b' \<le> clock s'"
    by blast
  then show ?thesis by (auto simp: tst_simps item_def stored_as_def created_as_def)
qed

lemma status_item:
  assumes "ready us s" "full s = m(i \<mapsto> b)" "known_status st"
  shows "\<exists>s'. t_value () (dl_SetBuildStatus dl Active i st) s = (s', [], Some ()) \<and> ready us s' \<and> clock s \<le> clock s'
    \<and> full s' = m(i \<mapsto> b\<lparr>b_Status := st\<rparr>)"
  using status_works [OF assms(1,3), of i] assms(2) by (auto simp: tst_simps change_def)

lemma stamp_item:
  assumes "ready us s" "full s = m(i \<mapsto> b)" "storable t"
  shows "\<exists>s'. t_value () (dl_SetBuildCompletedTimestamp dl Active i t) s = (s', [], Some ()) \<and> ready us s' \<and> clock s \<le> clock s'
    \<and> full s' = m(i \<mapsto> b\<lparr>b_Completed := res t\<rparr>)"
  using stamp_works [OF assms(1,3), of i] assms(2) by (auto simp: tst_simps change_def)

lemma list_setup_ok:
  assumes "ready (x2 # x3 # x4 # x5 # x6 # x7 # us) s" "full s = Map.empty"
  shows "\<exists>s' i1 i2 i3 i4 i5 i6 b1 b2 b3 b4 b5 b6.
    list_setup env dl s = (s', [], Some (i1, i2, i3, i4, i5, i6)) \<and> ready us s' \<and> clock s \<le> clock s'
    \<and> full s' = [i1 \<mapsto> b1, i2 \<mapsto> b2, i3 \<mapsto> b3, i4 \<mapsto> b4, i5 \<mapsto> b5, i6 \<mapsto> b6] \<and> distinct [i1, i2, i3, i4, i5, i6]
    \<and> item res i1 (zero_Build\<lparr>b_GitHubRepo := ''foo/bar''\<rparr>) BuildStatusNotStarted zero_time (clock s) (clock s') b1
    \<and> item res i2 (zero_Build\<lparr>b_GitHubRef := ''asdf''\<rparr>) BuildStatusNotStarted zero_time (clock s) (clock s') b2
    \<and> item res i3 (zero_Build\<lparr>b_ImageRepos := [''some/repo'']\<rparr>) BuildStatusNotStarted zero_time (clock s) (clock s') b3
    \<and> item res i4 zero_Build BuildStatusFailure zero_time (clock s) (clock s') b4
    \<and> item res i5 zero_Build BuildStatusNotStarted (res (time_Add completedAfter hour)) (clock s) (clock s') b5
    \<and> item res i6 zero_Build BuildStatusNotStarted (res (time_Add completedBefore (- hour))) (clock s) (clock s') b6"
proof -
  from create_item [OF assms(1) list_builds_new(2)] obtain s1 i1 b1
    where 1: "t_value 0 (dl_CreateBuild dl Active (zero_Build\<lparr>b_GitHubRepo := ''foo/bar''\<rparr>)) s = (s1, [], Some i1)" "ready (x3 # x4 # x5 # x6 # x7 # us) s1"
      "clock s \<le> clock s1" "full s1 = [i1 \<mapsto> b1]"
      "item res i1 (zero_Build\<lparr>b_GitHubRepo := ''foo/bar''\<rparr>) BuildStatusNotStarted zero_time (clock s) (clock s1) b1"
    unfolding assms(2) by blast
  from create_item [OF 1(2) list_builds_new(3)] obtain s2 i2 b2
    where 2: "t_value 0 (dl_CreateBuild dl Active (zero_Build\<lparr>b_GitHubRef := ''asdf''\<rparr>)) s1 = (s2, [], Some i2)" "ready (x4 # x5 # x6 # x7 # us) s2"
      "clock s1 \<le> clock s2" "full s2 = [i1 \<mapsto> b1, i2 \<mapsto> b2]" "[i1 \<mapsto> b1] i2 = None"
      "item res i2 (zero_Build\<lparr>b_GitHubRef := ''asdf''\<rparr>) BuildStatusNotStarted zero_time (clock s1) (clock s2) b2"
    unfolding 1(4) by blast
  from create_item [OF 2(2) list_builds_new(4)] obtain s3 i3 b3
    where 3: "t_value 0 (dl_CreateBuild dl Active (zero_Build\<lparr>b_ImageRepos := [''some/repo'']\<rparr>)) s2 = (s3, [], Some i3)" "ready (x5 # x6 # x7 # us) s3"
      "clock s2 \<le> clock s3" "full s3 = [i1 \<mapsto> b1, i2 \<mapsto> b2, i3 \<mapsto> b3]" "[i1 \<mapsto> b1, i2 \<mapsto> b2] i3 = None"
      "item res i3 (zero_Build\<lparr>b_ImageRepos := [''some/repo'']\<rparr>) BuildStatusNotStarted zero_time (clock s2) (clock s3) b3"
    unfolding 2(4) by blast
  from create_item [OF 3(2) list_builds_new(1)] obtain s4 i4 b4
    where 4: "t_value 0 (dl_CreateBuild dl Active zero_Build) s3 = (s4, [], Some i4)" "ready (x6 # x7 # us) s4"
      "clock s3 \<le> clock s4" "full s4 = [i1 \<mapsto> b1, i2 \<mapsto> b2, i3 \<mapsto> b3, i4 \<mapsto> b4]" "[i1 \<mapsto> b1, i2 \<mapsto> b2, i3 \<mapsto> b3] i4 = None"
      "item res i4 zero_Build BuildStatusNotStarted zero_time (clock s3) (clock s4) b4"
    unfolding 3(4) by blast
  let ?b4 = "b4\<lparr>b_Status := BuildStatusFailure\<rparr>"
  from status_item [OF 4(2,4) known_status_consts(4)] obtain s5
    where 5: "t_value () (dl_SetBuildStatus dl Active i4 BuildStatusFailure) s4 = (s5, [], Some ())" "ready (x6 # x7 # us) s5" "clock s4 \<le> clock s5"
      "full s5 = [i1 \<mapsto> b1, i2 \<mapsto> b2, i3 \<mapsto> b3, i4 \<mapsto> ?b4]" by blast
  from create_item [OF 5(2) list_builds_new(1)] obtain s6 i5 b5
    where 6: "t_value 0 (dl_CreateBuild dl Active zero_Build) s5 = (s6, [], Some i5)" "ready (x7 # us) s6"
      "clock s5 \<le> clock s6" "full s6 = [i1 \<mapsto> b1, i2 \<mapsto> b2, i3 \<mapsto> b3, i4 \<mapsto> ?b4, i5 \<mapsto> b5]"
      "[i1 \<mapsto> b1, i2 \<mapsto> b2, i3 \<mapsto> b3, i4 \<mapsto> ?b4] i5 = None"
      "item res i5 zero_Build BuildStatusNotStarted zero_time (clock s5) (clock s6) b5"
    unfolding 5(4) by blast
  let ?b5 = "b5\<lparr>b_Completed := res (time_Add completedAfter hour)\<rparr>"
  from stamp_item [OF 6(2,4) date_storable(3)] obtain s7
    where 7: "t_value () (dl_SetBuildCompletedTimestamp dl Active i5 (time_Add completedAfter hour)) s6 = (s7, [], Some ())" "ready (x7 # us) s7"
      "clock s6 \<le> clock s7" "full s7 = [i1 \<mapsto> b1, i2 \<mapsto> b2, i3 \<mapsto> b3, i4 \<mapsto> ?b4, i5 \<mapsto> ?b5]" by blast
  from create_item [OF 7(2) list_builds_new(1)] obtain s8 i6 b6
    where 8: "t_value 0 (dl_CreateBuild dl Active zero_Build) s7 = (s8, [], Some i6)" "ready us s8"
      "clock s7 \<le> clock s8" "full s8 = [i1 \<mapsto> b1, i2 \<mapsto> b2, i3 \<mapsto> b3, i4 \<mapsto> ?b4, i5 \<mapsto> ?b5, i6 \<mapsto> b6]"
      "[i1 \<mapsto> b1, i2 \<mapsto> b2, i3 \<mapsto> b3, i4 \<mapsto> ?b4, i5 \<mapsto> ?b5] i6 = None"
      "item res i6 zero_Build BuildStatusNotStarted zero_time (clock s7) (clock s8) b6"
    unfolding 7(4) by blast
  let ?b6 = "b6\<lparr>b_Completed := res (time_Add completedBefore (- hour))\<rparr>"
  from stamp_item [OF 8(2,4) date_storable(4)] obtain s9
    where 9: "t_value () (dl_SetBuildCompletedTimestamp dl Active i6 (time_Add completedBefore (- hour))) s8 = (s9, [], Some ())" "ready us s9"
      "clock s8 \<le> clock s9" "full s9 = [i1 \<mapsto> b1, i2 \<mapsto> b2, i3 \<mapsto> b3, i4 \<mapsto> ?b4, i5 \<mapsto> ?b5, i6 \<mapsto> ?b6]" by blast
  have c: "clock s \<le> clock s1" "clock s \<le> clock s2" "clock s \<le> clock s3" "clock s \<le> clock s5" "clock s \<le> clock s7" "clock s \<le> clock s9"
    "clock s1 \<le> clock s9" "clock s2 \<le> clock s9" "clock s3 \<le> clock s9" "clock s4 \<le> clock s9" "clock s6 \<le> clock s9" "clock s8 \<le> clock s9"
    using 1(3) 2(3) 3(3) 4(3) 5(3) 6(3) 7(3) 8(3) 9(3) by simp_all
  note m = item_mono [OF res_rounds]
  have "list_setup env dl s = (s9, [], Some (i1, i2, i3, i4, i5, i6))"
    unfolding list_setup_def Let_def t_bind_def t_ret_def by (simp add: 1(1) 2(1) 3(1) 4(1) 5(1) 6(1) 7(1) 8(1) 9(1))
  moreover have "distinct [i1, i2, i3, i4, i5, i6]" using 2(5) 3(5) 4(5) 6(5) 8(5) by (auto split: if_splits)
  moreover note 9(2,4) c(6) m [OF 1(5) order_refl c(7)] m [OF 2(6) c(1) c(8)] m [OF 3(6) c(2) c(9)]
    m [OF item_change(1) [OF 4(6)] c(3) c(10)] m [OF item_change(2) [OF 6(6)] c(4) c(11)] m [OF item_change(2) [OF 8(6)] c(5) c(12)]
  ultimately show ?thesis by blast
qed

end

lemma no_opts_simps [simp]:
  "lo_WithGitHubRepo no_opts = []" "lo_WithGitHubRef no_opts = []" "lo_WithImageRepo no_opts = []" "lo_WithStatus no_opts = 0"
  "lo_CompletedAfter no_opts = zero_time" "lo_StartedAfter no_opts = zero_time" "lo_CompletedBefore no_opts = zero_time"
  "lo_StartedBefore no_opts = zero_time" "lo_Limit no_opts = 0" "zero_ListBuildsOptions = no_opts" "IsZero zero_time"
  by (simp_all add: no_opts_def zero_ListBuildsOptions_def IsZero_def)

lemma t_bind_value: "m s = (s', [], Some x) \<Longrightarrow> t_bind m f s = f x s'"
  by (simp add: t_bind_def split: prod.splits)

lemma options_differ:
  "lo_WithGitHubRepo opts \<noteq> [] \<Longrightarrow> opts \<noteq> no_opts" "lo_WithGitHubRef opts \<noteq> [] \<Longrightarrow> opts \<noteq> no_opts"
  "lo_WithImageRepo opts \<noteq> [] \<Longrightarrow> opts \<noteq> no_opts" "lo_WithStatus opts \<noteq> 0 \<Longrightarrow> opts \<noteq> no_opts"
  "lo_CompletedAfter opts \<noteq> zero_time \<Longrightarrow> opts \<noteq> no_opts" "lo_CompletedBefore opts \<noteq> zero_time \<Longrightarrow> opts \<noteq> no_opts"
  "lo_StartedAfter opts \<noteq> zero_time \<Longrightarrow> opts \<noteq> no_opts" "lo_StartedBefore opts \<noteq> zero_time \<Longrightarrow> opts \<noteq> no_opts"
  by auto

text \<open>What is stored after the first lines of the test.\<close>

definition listed :: "(gotime \<Rightarrow> gotime) \<Rightarrow> gotime \<Rightarrow> gotime \<Rightarrow> (uuid \<rightharpoonup> Build) \<Rightarrow>
    uuid \<times> uuid \<times> uuid \<times> uuid \<times> uuid \<times> uuid \<Rightarrow> bool" where
  "listed res t0 t1 m ids \<longleftrightarrow> (case ids of (i1, i2, i3, i4, i5, i6) \<Rightarrow> \<exists>b1 b2 b3 b4 b5 b6.
     ran m = {b1, b2, b3, b4, b5, b6} \<and> card (ran m) = 6
     \<and> item res i1 (zero_Build\<lparr>b_GitHubRepo := ''foo/bar''\<rparr>) BuildStatusNotStarted zero_time t0 t1 b1
     \<and> item res i2 (zero_Build\<lparr>b_GitHubRef := ''asdf''\<rparr>) BuildStatusNotStarted zero_time t0 t1 b2
     \<and> item res i3 (zero_Build\<lparr>b_ImageRepos := [''some/repo'']\<rparr>) BuildStatusNotStarted zero_time t0 t1 b3
     \<and> item res i4 zero_Build BuildStatusFailure zero_time t0 t1 b4
     \<and> item res i5 zero_Build BuildStatusNotStarted (res (time_Add completedAfter hour)) t0 t1 b5
     \<and> item res i6 zero_Build BuildStatusNotStarted (res (time_Add completedBefore (- hour))) t0 t1 b6)"

lemma listed_ran:
  assumes "m = [i1 \<mapsto> b1, i2 \<mapsto> b2, i3 \<mapsto> b3, i4 \<mapsto> b4, i5 \<mapsto> b5, i6 \<mapsto> b6]" "distinct [i1, i2, i3, i4, i5, i6]"
    "b_ID b1 = i1" "b_ID b2 = i2" "b_ID b3 = i3" "b_ID b4 = i4" "b_ID b5 = i5" "b_ID b6 = i6"
  shows "ran m = {b1, b2, b3, b4, b5, b6}" "card (ran m) = 6"
proof -
  show r: "ran m = {b1, b2, b3, b4, b5, b6}" using assms(2) unfolding assms(1) by (auto simp: ran_def split: if_splits)
  have "distinct [b1, b2, b3, b4, b5, b6]" using assms(2-8) by auto
  then show "card (ran m) = 6" unfolding r by (simp add: card_insert_if)
qed

text \<open>The suite, one new layer after another.\<close>

definition good_tests :: "('s \<Rightarrow> 's) \<Rightarrow> 's DataLayer \<Rightarrow> (string \<times> ('s DataLayer \<Rightarrow> ('s, unit) tst)) list \<Rightarrow> 's \<Rightarrow> ('s \<Rightarrow> bool) \<Rightarrow> bool" where
  "good_tests mk dl ts s Q \<longleftrightarrow> (\<exists>s'. run_tests mk dl ts s = (s', map (\<lambda>(name, _). (name, [])) ts) \<and> Q s')"

lemma good_cons:
  "passes (t dl) (mk s) P \<Longrightarrow> (\<And>s'. P s' \<Longrightarrow> good_tests mk dl ts s' Q) \<Longrightarrow> good_tests mk dl ((n, t) # ts) s Q"
  unfolding passes_def good_tests_def by fastforce

text \<open>Tests that draw one identifier each.\<close>

lemma good_all:
  assumes "\<And>name t k s. (name, t) \<in> set ts \<Longrightarrow> P (Suc k) s \<Longrightarrow> passes (t dl) (mk s) (P k)" "P (length ts + n) s"
  shows "good_tests mk dl ts s (P n)"
  using assms
proof (induction ts arbitrary: s)
  case Nil
  then show ?case by (simp add: good_tests_def)
next
  case (Cons x ts)
  obtain name t where x: "x = (name, t)" by fastforce
  have 1: "passes (t dl) (mk s) (P (length ts + n))"
    by (rule Cons.prems(1) [of name]) (use Cons.prems(2) x in simp_all)
  have 2: "good_tests mk dl ts s' (P n)" if "P (length ts + n) s'" for s'
  proof (rule Cons.IH)
    show "passes (t dl) (mk s) (P k)" if "(name, t) \<in> set ts" "P (Suc k) s" for name t k s
      by (rule Cons.prems(1) [of name]) (use that in simp_all)
  qed (rule that)
  show ?case unfolding x by (rule good_cons, rule 1, rule 2)
qed

lemma map_le_nothing: "m \<subseteq>\<^sub>m (\<lambda>x. None) \<longleftrightarrow> m = (\<lambda>x. None)"
  by (metis map_le_antisym map_le_empty)

lemma passes_mono: "passes m s P \<Longrightarrow> (\<And>s'. P s' \<Longrightarrow> Q s') \<Longrightarrow> passes m s Q"
  unfolding passes_def by blast

context full_layer
begin

text \<open>Steps that report nothing and keep what is stored.\<close>

definition reads :: "uuid list \<Rightarrow> (uuid \<rightharpoonup> Build) \<Rightarrow> ('s, unit) tst \<Rightarrow> bool" where
  "reads us m f \<longleftrightarrow> (\<forall>s. ready us s \<longrightarrow> full s = m \<longrightarrow> (\<exists>s'. f s = (s', [], Some ()) \<and> ready us s' \<and> clock s \<le> clock s' \<and> full s' = m))"

lemma reads_bind: "reads us m f \<Longrightarrow> reads us m g \<Longrightarrow> reads us m (t_bind f (\<lambda>_. g))"
  unfolding reads_def t_bind_def by (fastforce intro: order_trans)

lemma reads_refused: "\<not> options_ok opts \<Longrightarrow> reads us m (t_refuses msg (dl_ListBuilds dl Active opts))"
  using list_refused by (fastforce simp: reads_def t_refuses_def)

lemma reads_one:
  assumes "options_ok opts" "plain_times opts" "lo_Limit opts = 0" "x \<in> ran m"
    and "\<And>b. b \<in> ran m \<Longrightarrow> selects (at_res res opts) b \<longleftrightarrow> b = x"
    and "bad x = Ok False" "\<And>b. bad (settle b) = bad b"
  shows "reads us m (t_list dl opts p (not_one bad) msg)"
proof -
  have bad: "bad b = Ok False" if "settle b = x" for b using assms(6) assms(7) [of b] that by simp
  have e: "{b \<in> ran m. selects (at_res res opts) b} = {x}" using assms(4,5) by auto
  have "\<exists>s'. t_list dl opts p (not_one bad) msg s = (s', [], Some ()) \<and> ready us s' \<and> clock s \<le> clock s' \<and> full s' = m"
    if "ready us s" "full s = m" for s
    using t_list_ok [OF that(1) assms(1,2), of "{x}"] that(2) e not_one_single [where bad = bad, OF _ _ _ bad] assms(3) by simp
  then show ?thesis by (simp add: reads_def)
qed

lemma reads_count:
  assumes "options_ok opts" "plain_times opts" "lo_Limit opts < 2 ^ 63" "\<And>b. b \<in> ran m \<Longrightarrow> selects (at_res res opts) b \<longleftrightarrow> sel"
    and "len = (if sel then if lo_Limit opts = 0 then card (ran m) else min (unat (lo_Limit opts)) (card (ran m)) else 0)"
  shows "reads us m (t_list dl opts p (not_length len) msg)"
proof -
  have e: "{b \<in> ran m. selects (at_res res opts) b} = (if sel then ran m else {})" using assms(4) by auto
  have "\<exists>s'. t_list dl opts p (not_length len) msg s = (s', [], Some ()) \<and> ready us s' \<and> clock s \<le> clock s' \<and> full s' = m"
    if "ready us s" "full s = m" for s
  proof -
    from t_list_ok [OF that(1) assms(1-3) trans [OF _ e], of "not_length len" p msg] that(2)
    show ?thesis by (simp add: not_length_def assms(5))
  qed
  then show ?thesis by (simp add: reads_def)
qed

lemma after_hour:
  assumes "sane t0" "sane t1" "t0 \<le> t1"
  shows "zero_time < res t0" "zero_time < res (time_Add t1 hour)" "zero_time < res (time_Add (time_Add t1 hour) (- hour))"
    "t1 < res (time_Add t1 hour)" "t0 \<noteq> zero_time" "time_Add t1 hour \<noteq> zero_time"
    "time_Add t1 hour \<noteq> time_Add (time_Add t1 hour) (- hour)"
    "res (time_Add (time_Add t1 hour) (- hour)) < res (time_Add t1 hour)"
    "storable t0" "storable (time_Add t1 hour)" "storable (time_Add (time_Add t1 hour) (- hour))"
proof -
  note a = add_hour [OF assms(2)]
  have s: "0 < sint (tm_sec t0)" "0 < sint (tm_sec t1)" using assms by (auto simp: sane_def)
  show "zero_time < res t0" "zero_time < res (time_Add t1 hour)" "zero_time < res (time_Add (time_Add t1 hour) (- hour))"
    "t1 < res (time_Add t1 hour)"
    "res (time_Add (time_Add t1 hour) (- hour)) < res (time_Add t1 hour)"
    using a s by (simp_all add: sec_less zero_time_def rounds_sec [OF res_rounds])
  show "storable t0" using assms(1) by (rule sane_storable)
  show "storable (time_Add t1 hour)" "storable (time_Add (time_Add t1 hour) (- hour))"
    using a assms(2) time_Add_valid by (simp_all add: storable_def sane_def)
  show "t0 \<noteq> zero_time" "time_Add t1 hour \<noteq> zero_time" using a(1) s by (auto simp: zero_time_def)
  show "time_Add t1 hour \<noteq> time_Add (time_Add t1 hour) (- hour)" using a by (metis add_cancel_left_right zero_neq_numeral)
qed

lemma item_created:
  assumes "sane t0" "sane t1" "t0 \<le> t1" "item res i b st cmp t0 t1 b'"
  shows "zero_time < b_Created b'" "res t0 \<le> b_Created b'" "b_Created b' < res (time_Add t1 hour)"
  using after_hour(1,4) [OF assms(1-3)] assms(4) unfolding item_def by auto

lemma list_queries_ok:
  assumes "listed res t0 t1 m (i1, i2, i3, i4, i5, i6)" "sane t0" "sane t1" "t0 \<le> t1"
  shows "reads us m (list_queries dl t0 (time_Add t1 hour) (i1, i2, i3, i4, i5, i6))"
proof -
  note date = date_order [OF res_rounds]
  let ?t = "time_Add t1 hour"
  from assms(1) obtain b1 b2 b3 b4 b5 b6 where r: "ran m = {b1, b2, b3, b4, b5, b6}" and c: "card (ran m) = 6"
    and b1: "item res i1 (zero_Build\<lparr>b_GitHubRepo := ''foo/bar''\<rparr>) BuildStatusNotStarted zero_time t0 t1 b1"
    and b2: "item res i2 (zero_Build\<lparr>b_GitHubRef := ''asdf''\<rparr>) BuildStatusNotStarted zero_time t0 t1 b2"
    and b3: "item res i3 (zero_Build\<lparr>b_ImageRepos := [''some/repo'']\<rparr>) BuildStatusNotStarted zero_time t0 t1 b3"
    and b4: "item res i4 zero_Build BuildStatusFailure zero_time t0 t1 b4"
    and b5: "item res i5 zero_Build BuildStatusNotStarted (res (time_Add completedAfter hour)) t0 t1 b5"
    and b6: "item res i6 zero_Build BuildStatusNotStarted (res (time_Add completedBefore (- hour))) t0 t1 b6"
    unfolding listed_def by auto
  note started = item_created [OF assms(2,3,4)]
  note after = after_hour [OF assms(2,3,4)]
  have created: "b_Created b \<noteq> zero_time \<and> zero_time < b_Created b \<and> res t0 \<le> b_Created b \<and> b_Created b < res ?t" if "b \<in> ran m" for b
    using that started [OF b1] started [OF b2] started [OF b3] started [OF b4] started [OF b5] started [OF b6] unfolding r by auto
  have repo: "b_GitHubRepo b = ''foo/bar'' \<longleftrightarrow> b = b1" and ref: "b_GitHubRef b = ''asdf'' \<longleftrightarrow> b = b2"
    and image: "''some/repo'' \<in> set (b_ImageRepos b) \<longleftrightarrow> b = b3" and status: "b_Status b = BuildStatusFailure \<longleftrightarrow> b = b4"
    and late: "res completedAfter \<le> b_Completed b \<longleftrightarrow> b = b5"
    and soon: "b_Completed b \<noteq> zero_time \<and> b_Completed b < res completedBefore \<longleftrightarrow> b = b6" if "b \<in> ran m" for b
    using that b1 b2 b3 b4 b5 b6 date unfolding r by (auto simp: item_def zero_Build_def)
  note sel = test_selects [where res = res, OF res_zero]
  note opts = options_ok_def option_times_def options_differ option_texts_def ascii_text_def date_storable
  have id: "b_ID b1 = i1" "b_ID b2 = i2" "b_ID b3 = i3" "b_ID b4 = i4" "b_ID b5 = i5" "b_ID b6 = i6"
    "b_ImageRepos b3 = [''some/repo'']" "b_GitHubRepo b1 = ''foo/bar''" "b_GitHubRef b2 = ''asdf''" "b_Status b4 = BuildStatusFailure"
    "b_Completed b5 = res (time_Add completedAfter hour)" "b_Completed b6 = res (time_Add completedBefore (- hour))"
    using b1 b2 b3 b4 b5 b6 by (simp_all add: item_def)
  note one = sel opts id r
  have 0: "reads us m (t_refuses ''empty list options should return error'' (dl_ListBuilds dl Active no_opts))"
    "reads us m (t_refuses ''duplicate timestamps should return error''
       (dl_ListBuilds dl Active (no_opts\<lparr>lo_StartedBefore := t0, lo_StartedAfter := t0\<rparr>)))"
    using after(5) by (simp_all add: reads_refused options_ok_def IsZero_def)
  have 1: "reads us m (t_list dl (no_opts\<lparr>lo_WithGitHubRepo := ''foo/bar''\<rparr>) p
      (not_one (\<lambda>b. Ok (b_ID b \<noteq> i1 \<or> b_GitHubRepo b \<noteq> ''foo/bar''))) msg)" for p msg
    by (rule reads_one [where x = b1]) (auto simp: repo one)
  have 2: "reads us m (t_list dl (no_opts\<lparr>lo_WithGitHubRef := ''asdf''\<rparr>) p
      (not_one (\<lambda>b. Ok (b_ID b \<noteq> i2 \<or> b_GitHubRef b \<noteq> ''asdf''))) msg)" for p msg
    by (rule reads_one [where x = b2]) (auto simp: ref one)
  have 3: "reads us m (t_list dl (no_opts\<lparr>lo_WithImageRepo := ''some/repo''\<rparr>) p
      (not_one (\<lambda>b. if b_ID b \<noteq> i3 then Ok True
         else case b_ImageRepos b of [] \<Rightarrow> Panic ''index out of range'' | r # _ \<Rightarrow> Ok (r \<noteq> ''some/repo''))) msg)" for p msg
    by (rule reads_one [where x = b3]) (auto simp: image one)
  have 4: "reads us m (t_list dl (no_opts\<lparr>lo_WithStatus := BuildStatusFailure\<rparr>) p
      (not_one (\<lambda>b. Ok (b_ID b \<noteq> i4 \<or> b_Status b \<noteq> BuildStatusFailure))) msg)" for p msg
    by (rule reads_one [where x = b4]) (auto simp: status one)
  have 5: "reads us m (t_list dl (no_opts\<lparr>lo_CompletedAfter := completedAfter\<rparr>) p
      (not_one (\<lambda>b. Ok (b_ID b \<noteq> i5 \<or> \<not> (completedAfter < b_Completed b \<or> b_Completed b = completedAfter)))) msg)" for p msg
    using date by (intro reads_one [where x = b5]) (auto simp: late one)
  have 6: "reads us m (t_list dl (no_opts\<lparr>lo_CompletedBefore := completedBefore\<rparr>) p
      (not_one (\<lambda>b. Ok (b_ID b \<noteq> i6 \<or> \<not> b_Completed b < completedBefore))) msg)" for p msg
    using date by (intro reads_one [where x = b6]) (auto simp: soon one)
  have 7: "reads us m (t_list dl (no_opts\<lparr>lo_StartedAfter := t0\<rparr>) p (not_length 6) msg)" for p msg
    using after by (intro reads_count [where sel = True]) (auto simp: created sel opts c)
  have 8: "reads us m (t_list dl (no_opts\<lparr>lo_StartedBefore := ?t\<rparr>) p (not_length 6) msg)" for p msg
    using after by (intro reads_count [where sel = True]) (auto simp: created sel opts c)
  have 9: "reads us m (t_list dl (no_opts\<lparr>lo_StartedBefore := ?t, lo_Limit := 2\<rparr>) p (not_length 2) msg)" for p msg
    using after by (intro reads_count [where sel = True]) (auto simp: created sel opts c)
  have 10: "reads us m (t_list dl (no_opts\<lparr>lo_StartedAfter := ?t, lo_StartedBefore := time_Add ?t (- hour)\<rparr>) p (not_length 0) msg)" for p msg
    using after by (intro reads_count [where sel = False]) (auto simp: sel opts dest: created)
  show ?thesis unfolding list_queries_def prod.case
    by (intro reads_bind 0 1 2 3 4 5 6 7 8 9 10)
qed

lemma list_ands_ok:
  assumes "ready (x # us) s" "listed res t0 t1 (full s) (i1, i2, i3, i4, i5, i6)" "sane t0" "sane t1" "t0 \<le> t1" "t0 \<le> clock s"
  shows "\<exists>s'. list_ands dl t0 (time_Add t1 hour) s = (s', [], Some ()) \<and> ready us s'"
proof -
  let ?t = "time_Add t1 hour" and ?b = "zero_Build\<lparr>b_GitHubRepo := ''foo/bar2'', b_GitHubRef := ''1234'', b_ImageRepos := [''abc'', ''def'']\<rparr>"
  note after = after_hour [OF assms(3-5)]
  note opts = options_ok_def option_times_def options_differ option_texts_def ascii_text_def date_storable
  note sel = test_selects [where res = res, OF res_zero]
  from create_item [OF assms(1) list_builds_new(5)] obtain s1 i7 b7
    where 1: "t_value 0 (dl_CreateBuild dl Active ?b) s = (s1, [], Some i7)" "ready us s1" "full s1 = (full s)(i7 \<mapsto> b7)" "full s i7 = None"
      "item res i7 ?b BuildStatusNotStarted zero_time (clock s) (clock s1) b7" by blast
  let ?b7 = "b7\<lparr>b_Status := BuildStatusRunning\<rparr>"
  from status_item [OF 1(2,3) known_status_consts(3)] obtain s2
    where 2: "t_value () (dl_SetBuildStatus dl Active i7 BuildStatusRunning) s1 = (s2, [], Some ())" "ready us s2"
      "full s2 = (full s)(i7 \<mapsto> ?b7)" by blast
  have r: "ran (full s2) = insert ?b7 (ran (full s))" unfolding 2(3) using 1(4) by simp
  have old: "b_GitHubRepo b \<noteq> ''foo/bar2''" "''invalid'' \<notin> set (b_ImageRepos b)" if "b \<in> ran (full s)" for b
    using that assms(2) by (auto simp: listed_def item_def zero_Build_def)
  have new: "b_GitHubRepo b7 = ''foo/bar2''" "b_GitHubRef b7 = ''1234''" "b_ImageRepos b7 = [''abc'', ''def'']" "b_ID b7 = i7"
    "res t0 \<le> b_Created b7"
    using 1(5) order_trans [OF rounds_mono [OF res_rounds assms(6)]] by (auto simp: item_def)
  have 3: "reads us (full s2) (t_list dl (no_opts\<lparr>lo_StartedAfter := t0, lo_WithGitHubRepo := ''foo/bar2'',
      lo_WithGitHubRef := ''1234'', lo_WithImageRepo := ''def'', lo_WithStatus := BuildStatusRunning\<rparr>)
      p (not_one (\<lambda>b. Ok (b_ID b \<noteq> i7))) msg)" for p msg
    using after by (intro reads_one [where x = ?b7]) (auto simp: sel opts r new dest: old)
  have 4: "reads us (full s2) (t_list dl (no_opts\<lparr>lo_StartedAfter := ?t, lo_WithGitHubRepo := ''foo/bar2'',
      lo_WithGitHubRef := ''1234'', lo_WithImageRepo := ''invalid'', lo_WithStatus := BuildStatusRunning\<rparr>) p (not_length 0) msg)" for p msg
    using after by (intro reads_count [where sel = False]) (auto simp: sel opts r new dest: old)
  from reads_bind [OF 3 4] 2(2) have 5: "\<exists>s'. t_bind (t_list dl (no_opts\<lparr>lo_StartedAfter := t0, lo_WithGitHubRepo := ''foo/bar2'',
      lo_WithGitHubRef := ''1234'', lo_WithImageRepo := ''def'', lo_WithStatus := BuildStatusRunning\<rparr>)
      p (not_one (\<lambda>b. Ok (b_ID b \<noteq> i7))) msg) (\<lambda>_. t_list dl (no_opts\<lparr>lo_StartedAfter := ?t, lo_WithGitHubRepo := ''foo/bar2'',
      lo_WithGitHubRef := ''1234'', lo_WithImageRepo := ''invalid'', lo_WithStatus := BuildStatusRunning\<rparr>) p' (not_length 0) msg') s2
      = (s', [], Some ()) \<and> ready us s'" for p p' msg msg' unfolding reads_def by blast
  show ?thesis unfolding list_ands_def by (subst t_bind_value, rule 1(1), subst t_bind_value, rule 2(1), rule 5)
qed

lemma testDBListBuilds_passes:
  assumes "ready (x1 # x2 # x3 # x4 # x5 # x6 # x7 # us) s" "full s = Map.empty" "te_Now env = clock"
  shows "passes (testDBListBuilds env dl) s (ready us)"
proof -
  from list_setup_ok [OF assms(1,2), of env] obtain s1 i1 i2 i3 i4 i5 i6
    where 1: "list_setup env dl s = (s1, [], Some (i1, i2, i3, i4, i5, i6))" "ready (x7 # us) s1" "clock s \<le> clock s1"
      and l: "listed res (clock s) (clock s1) (full s1) (i1, i2, i3, i4, i5, i6)"
  proof -
    from list_setup_ok [OF assms(1,2), of env] obtain s1 i1 i2 i3 i4 i5 i6 b1 b2 b3 b4 b5 b6
      where 1: "list_setup env dl s = (s1, [], Some (i1, i2, i3, i4, i5, i6))" "ready (x7 # us) s1" "clock s \<le> clock s1"
        "full s1 = [i1 \<mapsto> b1, i2 \<mapsto> b2, i3 \<mapsto> b3, i4 \<mapsto> b4, i5 \<mapsto> b5, i6 \<mapsto> b6]" "distinct [i1, i2, i3, i4, i5, i6]"
      and b: "item res i1 (zero_Build\<lparr>b_GitHubRepo := ''foo/bar''\<rparr>) BuildStatusNotStarted zero_time (clock s) (clock s1) b1"
        "item res i2 (zero_Build\<lparr>b_GitHubRef := ''asdf''\<rparr>) BuildStatusNotStarted zero_time (clock s) (clock s1) b2"
        "item res i3 (zero_Build\<lparr>b_ImageRepos := [''some/repo'']\<rparr>) BuildStatusNotStarted zero_time (clock s) (clock s1) b3"
        "item res i4 zero_Build BuildStatusFailure zero_time (clock s) (clock s1) b4"
        "item res i5 zero_Build BuildStatusNotStarted (res (time_Add completedAfter hour)) (clock s) (clock s1) b5"
        "item res i6 zero_Build BuildStatusNotStarted (res (time_Add completedBefore (- hour))) (clock s) (clock s1) b6" by blast
    from b have "b_ID b1 = i1" "b_ID b2 = i2" "b_ID b3 = i3" "b_ID b4 = i4" "b_ID b5 = i5" "b_ID b6 = i6"
      by (simp_all add: item_def)
    note listed_ran [OF 1(4,5) this]
    with b have "listed res (clock s) (clock s1) (full s1) (i1, i2, i3, i4, i5, i6)" unfolding listed_def prod.case by blast
    with 1(1-3) that show thesis by blast
  qed
  have sane: "sane (clock s)" "sane (clock s1)" using ready_inv assms(1) 1(2) by blast+
  from list_queries_ok [OF l sane 1(3)] 1(2) obtain s2
    where 2: "list_queries dl (clock s) (time_Add (clock s1) hour) (i1, i2, i3, i4, i5, i6) s1 = (s2, [], Some ())"
      "ready (x7 # us) s2" "full s2 = full s1" "clock s1 \<le> clock s2"
    unfolding reads_def by blast
  have l2: "listed res (clock s) (clock s1) (full s2) (i1, i2, i3, i4, i5, i6)" using l 2(3) by simp
  from list_ands_ok [OF 2(2) l2 sane 1(3) order_trans [OF 1(3) 2(4)]] obtain s3
    where 3: "list_ands dl (clock s) (time_Add (clock s1) hour) s2 = (s3, [], Some ())" "ready us s3" by blast
  show ?thesis using 1(1) 2(1) 3 by (simp add: passes_def testDBListBuilds_def t_bind_def t_Now_def assms(3) Let_def)
qed

lemma renew_empty: "usable us s \<Longrightarrow> full s = Map.empty \<Longrightarrow> ready us (renew s) \<and> full (renew s) = Map.empty"
  using renew_works by (metis map_le_empty map_le_antisym)

lemma ready_usable: "ready us s \<Longrightarrow> usable us s"
  using ready_inv by blast

text \<open>Eighteen identifiers are drawn.\<close>

definition stock :: "nat \<Rightarrow> 's \<Rightarrow> bool" where
  "stock n s \<longleftrightarrow> (\<exists>us. length us = n \<and> usable us s)"

lemma stock_Suc:
  assumes "stock (Suc n) s"
  obtains u us where "length us = n" "ready (u # us) (renew s)"
  using assms renew_works unfolding stock_def by (metis length_Suc_conv)

lemma passes_stock: "passes m s (usable us) \<Longrightarrow> length us = n \<Longrightarrow> passes m s (stock n)"
  unfolding stock_def by (blast intro: passes_mono)

lemma passes_ready:
  assumes "passes m s (ready us)" "length us = n"
  shows "passes m s (stock n)"
  by (rule passes_stock [OF passes_mono [OF assms(1) ready_usable] assms(2)])

theorem RunTests_passes:
  assumes "usable us s" "length us = 18 + n" "full s = Map.empty" "te_Now env = clock" "te_NewV4 env = Ok u" "u \<notin> source"
    "\<And>name. \<not> te_early env name"
  shows "\<exists>s'. RunTests env (Some (renew, dl)) s = (s', map (\<lambda>(name, _). (name, [])) (suite env)) \<and> stock n s'"
proof -
  have rest: "good_tests renew dl (drop 4 (suite env)) s (stock n)" if "stock (9 + n) s" for s
  proof (rule good_all [where P = stock])
    show "stock (length (drop 4 (suite env)) + n) s" using that by (simp add: suite_def eval_nat_numeral)
  next
    fix name t k and s :: 's assume "(name, t) \<in> set (drop 4 (suite env))" and s: "stock (Suc k) s"
    then consider "t = testDBSetBuildCompletedTimestamp env" | "t = testDBSetBuildStatus env" | "t = testDBListenAndAddEvents env"
      | "t = testDBCancelBuildAndListenForCancellation env" | "t = testDBSetBuildAsRunningAndListenForBuildRunning env"
      | "t = testDBSetBuildAsCompletedAndListenForBuildCompleted env" | "t = testDBCreateAPIKey env" | "t = testDBGetAPIKey env"
      | "t = testDBDeleteAPIKey env" by (auto simp: suite_def)
    moreover from stock_Suc [OF s] obtain x us where us: "length us = k" and r: "ready (x # us) (renew s)" .
    note key = testDBAPIKey_passes [OF r assms(5,6)]
    ultimately show "passes (t dl) (renew s) (stock k)"
    proof cases
      case 1
      have "passes (t dl) (renew s) (ready us)" unfolding 1
        by (rule passes_mono [OF testDBSetBuildCompletedTimestamp_passes [OF r assms(4)]]) simp
      then show ?thesis using us by (rule passes_ready)
    next
      case 2
      have "passes (t dl) (renew s) (ready us)" unfolding 2 by (rule passes_mono [OF testDBSetBuildStatus_passes [OF r]]) simp
      then show ?thesis using us by (rule passes_ready)
    qed (use testDBListenAndAddEvents_passes [OF r assms(7)] testDBCancel_passes [OF r assms(7)]
      testDBRunning_passes [OF r assms(7)] testDBCompleted_passes [OF r assms(7)] key us in \<open>auto intro: passes_stock passes_ready\<close>)
  qed
  let ?P = "\<lambda>k s. (\<exists>us. length us = k \<and> usable us s \<and> full s = Map.empty)"
  have e: "\<exists>us. length us = k \<and> ready us (renew s) \<and> full (renew s) = Map.empty" if "?P k s" for k s using that renew_empty by blast
  have 1: "passes (testDBCreateBuild env dl) (renew s) (?P (17 + n))" if p: "?P (18 + n) s" for s
  proof -
    from e [OF p] obtain xs where "length xs = Suc (17 + n)" and xs: "ready xs (renew s)" "full (renew s) = Map.empty" by auto
    then obtain x us where us: "length us = 17 + n" and r: "ready (x # us) (renew s)" "full (renew s) = Map.empty" by (cases xs) auto
    show ?thesis by (rule passes_mono [OF testDBCreateBuild_passes [OF r(1)]]) (use r(2) us ready_usable in auto)
  qed
  have 2: "passes (testDBDeleteBuild env dl) (renew s) (?P (17 + n))" if p: "?P (17 + n) s" for s
  proof -
    from e [OF p] obtain us where us: "length us = 17 + n" and r: "ready us (renew s)" "full (renew s) = Map.empty" by blast
    show ?thesis by (rule passes_mono [OF testDBDeleteBuild_passes [OF r(1)]]) (use r(2) us ready_usable in \<open>auto simp: map_le_nothing\<close>)
  qed
  have 3: "passes (testDBGetBuildByID env dl) (renew s) (?P (16 + n))" if p: "?P (17 + n) s" for s
  proof -
    from e [OF p] obtain xs where "length xs = Suc (16 + n)" and xs: "ready xs (renew s)" "full (renew s) = Map.empty" by auto
    then obtain x us where us: "length us = 16 + n" and r: "ready (x # us) (renew s)" "full (renew s) = Map.empty" by (cases xs) auto
    show ?thesis by (rule passes_mono [OF testDBGetBuildByID_passes [OF r(1) assms(5,6)]]) (use r(2) us ready_usable in auto)
  qed
  have 4: "passes (testDBListBuilds env dl) (renew s) (stock (9 + n))" if p: "?P (16 + n) s" for s
  proof -
    from e [OF p] obtain xs where xs: "length xs = 16 + n"
      and r: "ready xs (renew s)" "full (renew s) = Map.empty" by auto
    have "length xs = Suc (Suc (Suc (Suc (Suc (Suc (Suc (9 + n)))))))" using xs by simp
    then obtain x1 x2 x3 x4 x5 x6 x7 us where "xs = x1 # x2 # x3 # x4 # x5 # x6 # x7 # us" "length us = 9 + n"
      unfolding length_Suc_conv by blast
    with passes_ready [OF testDBListBuilds_passes [OF _ r(2) assms(4)]] r(1) show ?thesis by metis
  qed
  have g4: "good_tests renew dl ((''list builds'', testDBListBuilds env) # drop 4 (suite env)) s (stock n)" if "?P (16 + n) s" for s
    by (rule good_cons, rule 4 [OF that], rule rest)
  have g3: "good_tests renew dl ((''get build by ID'', testDBGetBuildByID env)
      # (''list builds'', testDBListBuilds env) # drop 4 (suite env)) s (stock n)" if "?P (17 + n) s" for s
    by (rule good_cons, rule 3 [OF that], rule g4)
  have g2: "good_tests renew dl ((''delete build'', testDBDeleteBuild env) # (''get build by ID'', testDBGetBuildByID env)
      # (''list builds'', testDBListBuilds env) # drop 4 (suite env)) s (stock n)" if "?P (17 + n) s" for s
    by (rule good_cons, rule 2 [OF that], rule g3)
  have p: "?P (18 + n) s" using assms(1-3) by blast
  have "good_tests renew dl ((''create build'', testDBCreateBuild env) # (''delete build'', testDBDeleteBuild env)
      # (''get build by ID'', testDBGetBuildByID env) # (''list builds'', testDBListBuilds env) # drop 4 (suite env)) s (stock n)"
    by (rule good_cons, rule 1 [OF p], rule g2)
  then have "good_tests renew dl (suite env) s (stock n)" by (simp add: suite_def)
  then show ?thesis unfolding good_tests_def RunTests_def by auto
qed

end

end
