(* ===== verification/Furan_Fake.thy ===== *)
theory Furan_Fake
  imports Furan_Datalayer "HOL-Library.Multiset"
begin

text \<open>
  \<^verbatim>\<open>pkg/datalayer/fake.go\<close>: the in-memory data layer.  Go maps are association lists, channels are
  numbers, and a send on a listener's channel is a message in that channel's mail.  \<open>fd_rand\<close> is
  the sequence of results of \<^verbatim>\<open>uuid.NewV4\<close> and \<open>fd_now\<close> the clock.  \<^verbatim>\<open>range\<close> over a map visits
  the entries in any order, so \<open>fake_ListBuilds\<close> takes the order as an argument.
\<close>

section \<open>State\<close>

record FakeDataLayer =
  fd_d :: "(uuid \<times> Build) list"
  fd_apikeys :: "(uuid \<times> APIKey) list"
  fd_listeners :: "(uuid \<times> nat list) list"
  fd_cxllisteners :: "(uuid \<times> nat list) list"
  fd_runlisteners :: "(uuid \<times> nat list) list"
  fd_donelisteners :: "(uuid \<times> nat list) list"
  fd_mail :: "(nat \<times> string) list"
  fd_cxlmail :: "nat list"
  fd_runmail :: "nat list"
  fd_donemail :: "(nat \<times> BuildStatus) list"
  fd_nextchan :: nat
  fd_now :: gotime
  fd_rand :: "nat \<Rightarrow> uuid go"
  fd_nrand :: nat

definition chans :: "(uuid \<times> nat list) list \<Rightarrow> uuid \<Rightarrow> nat list" where
  "chans m bid = (case map_of m bid of None \<Rightarrow> [] | Some cs \<Rightarrow> cs)"

definition register_listener ::
  "uuid \<Rightarrow> nat \<Rightarrow> (uuid \<times> nat list) list \<Rightarrow> (uuid \<times> nat list) list" where
  "register_listener bid lc m = AList.update bid (chans m bid @ [lc]) m"

text \<open>
  The deferred functions: the index is recomputed as the last one, so that the entry removed is
  always the listener that registered last.
\<close>

definition remove_listener :: "uuid \<Rightarrow> (uuid \<times> nat list) list \<Rightarrow> (uuid \<times> nat list) list" where
  "remove_listener bid m =
     (let l = chans m bid
      in if length l = 0 then m
         else if length l - 1 = 0 then AList.delete bid m
         else (let i = length l - 1 in AList.update bid (take i l @ drop (i + 1) l) m))"

section \<open>Builds\<close>

text \<open>\<^verbatim>\<open>uuid.Must(uuid.NewV4())\<close>.\<close>

definition fake_newid :: "FakeDataLayer \<Rightarrow> FakeDataLayer \<times> uuid go" where
  "fake_newid s =
     (s\<lparr>fd_nrand := fd_nrand s + 1\<rparr>,
      case fd_rand s (fd_nrand s) of Ok u \<Rightarrow> Ok u | Err e \<Rightarrow> Panic (errstr e) | Panic m \<Rightarrow> Panic m)"

definition fake_CreateBuild :: "ctx \<Rightarrow> Build \<Rightarrow> (FakeDataLayer, uuid) act" where
  "fake_CreateBuild c b s =
     (case fake_newid s of
        (s1, Ok u) \<Rightarrow>
          (let b' = b\<lparr>b_ID := u, b_Status := BuildStatusNotStarted, b_Created := fd_now s1\<rparr>
           in (s1\<lparr>fd_d := AList.update u b' (fd_d s1)\<rparr>, Ok u))
      | (s1, Err e) \<Rightarrow> (s1, Err e)
      | (s1, Panic m) \<Rightarrow> (s1, Panic m))"

definition fake_GetBuildByID :: "ctx \<Rightarrow> uuid \<Rightarrow> (FakeDataLayer, Build) act" where
  "fake_GetBuildByID c bid s =
     (s, case map_of (fd_d s) bid of None \<Rightarrow> Err ErrNotFound | Some b \<Rightarrow> Ok b)"

text \<open>The stored build \<open>bid\<close>, if there is one, changed by \<open>f\<close>.\<close>

definition fake_modify :: "uuid \<Rightarrow> (Build \<Rightarrow> Build) \<Rightarrow> FakeDataLayer \<Rightarrow> FakeDataLayer" where
  "fake_modify bid f s =
     (case map_of (fd_d s) bid of
        None \<Rightarrow> s | Some b \<Rightarrow> s\<lparr>fd_d := AList.update bid (f b) (fd_d s)\<rparr>)"

definition fake_ListBuilds ::
  "(Build list \<Rightarrow> Build list) \<Rightarrow> ctx \<Rightarrow> ListBuildsOptions \<Rightarrow> (FakeDataLayer, Build list) act" where
  "fake_ListBuilds ord c opts s =
     (s,
      if opts = zero_ListBuildsOptions then
        Err (ErrMsg ''at least one list option must be supplied'')
      else if \<not> IsZero (lo_CompletedBefore opts) \<and> \<not> IsZero (lo_CompletedAfter opts)
           \<and> lo_CompletedBefore opts = lo_CompletedAfter opts then
        Err (ErrMsg ''CompletedBefore and CompletedAfter cannot be equal'')
      else if \<not> IsZero (lo_StartedBefore opts) \<and> \<not> IsZero (lo_StartedAfter opts)
           \<and> lo_StartedBefore opts = lo_StartedAfter opts then
        Err (ErrMsg ''StartedBefore and StartedAfter cannot be equal'')
      else
        let out = ord (map snd (fd_d s));
            out = (if lo_WithGitHubRepo opts \<noteq> [] then
                     filter (\<lambda>e. b_GitHubRepo e = lo_WithGitHubRepo opts) out else out);
            out = (if lo_WithGitHubRef opts \<noteq> [] then
                     filter (\<lambda>e. b_GitHubRef e = lo_WithGitHubRef opts) out else out);
            out = (if lo_WithImageRepo opts \<noteq> [] then
                     filter (\<lambda>e. lo_WithImageRepo opts \<in> set (b_ImageRepos e)) out else out);
            out = (if lo_WithStatus opts \<noteq> BuildStatusUnknown then
                     filter (\<lambda>e. b_Status e = lo_WithStatus opts) out else out);
            out = (if \<not> IsZero (lo_CompletedAfter opts) then
                     filter (\<lambda>e. lo_CompletedAfter opts < b_Completed e
                                 \<or> b_Completed e = lo_CompletedAfter opts) out else out);
            out = (if \<not> IsZero (lo_StartedAfter opts) then
                     filter (\<lambda>e. lo_StartedAfter opts < b_Created e
                                 \<or> b_Created e = lo_StartedAfter opts) out else out);
            out = (if \<not> IsZero (lo_CompletedBefore opts) then
                     filter (\<lambda>e. if IsZero (b_Completed e) then False
                                 else b_Completed e < lo_CompletedBefore opts) out else out);
            out = (if \<not> IsZero (lo_StartedBefore opts) then
                     filter (\<lambda>e. if IsZero (b_Created e) then False
                                 else b_Created e < lo_StartedBefore opts) out else out)
        in if 0 < lo_Limit opts \<and> sint (lo_Limit opts) < int (length out) then
             (if unat (lo_Limit opts) \<le> length out then Ok (take (unat (lo_Limit opts)) out)
              else Panic ''slice bounds out of range'')
           else Ok out)"

definition fake_SetBuildCompletedTimestamp ::
  "ctx \<Rightarrow> uuid \<Rightarrow> gotime \<Rightarrow> (FakeDataLayer, unit) act" where
  "fake_SetBuildCompletedTimestamp c bid t s =
     (fake_modify bid (\<lambda>b. b\<lparr>b_Completed := t\<rparr>) s, Ok ())"

definition fake_SetBuildStatus :: "ctx \<Rightarrow> uuid \<Rightarrow> BuildStatus \<Rightarrow> (FakeDataLayer, unit) act" where
  "fake_SetBuildStatus c bid st s = (fake_modify bid (\<lambda>b. b\<lparr>b_Status := st\<rparr>) s, Ok ())"

definition fake_DeleteBuild :: "ctx \<Rightarrow> uuid \<Rightarrow> (FakeDataLayer, unit) act" where
  "fake_DeleteBuild c bid s = (s\<lparr>fd_d := AList.delete bid (fd_d s)\<rparr>, Ok ())"

section \<open>Events, cancellation, running, completion\<close>

text \<open>
  The call returns when its context is done; it then has forwarded the messages its channel
  received.
\<close>

definition fake_ListenForBuildEvents ::
  "FakeDataLayer interference \<Rightarrow> FakeDataLayer interference \<Rightarrow> ctx \<Rightarrow> uuid
     \<Rightarrow> FakeDataLayer \<Rightarrow> (FakeDataLayer \<times> string list \<times> goerr) option" where
  "fake_ListenForBuildEvents gap1 gap2 c bid s =
     (case map_of (fd_d s) bid of
        None \<Rightarrow> Some (s, [], ErrMsg ''build not found'')
      | Some b \<Rightarrow>
          if \<not> CanAddEvent b then
            Some (s, [], ErrMsg (''cannot add event to build with status ''
                                 @ BuildStatus_String (b_Status b)))
          else
            let s1 = gap1 s;
                lc = fd_nextchan s1;
                s2 = s1\<lparr>fd_nextchan := lc + 1,
                        fd_listeners := register_listener bid lc (fd_listeners s1)\<rparr>;
                s3 = gap2 s2
            in Some (s3\<lparr>fd_listeners := remove_listener bid (fd_listeners s3)\<rparr>,
                     map snd (filter (\<lambda>m. fst m = lc) (fd_mail s3)),
                     ErrMsg ''context cancelled''))"

definition fake_AddEvent :: "ctx \<Rightarrow> uuid \<Rightarrow> string \<Rightarrow> (FakeDataLayer, unit) act" where
  "fake_AddEvent c bid e s =
     (case map_of (fd_d s) bid of
        None \<Rightarrow> (s, Ok ())
      | Some b \<Rightarrow>
          let s1 = s\<lparr>fd_d := AList.update bid (b\<lparr>b_Events := b_Events b @ [e]\<rparr>) (fd_d s)\<rparr>
          in (s1\<lparr>fd_mail := fd_mail s1 @ map (\<lambda>ch. (ch, e)) (chans (fd_listeners s1) bid)\<rparr>,
              Ok ()))"

definition fake_CancelBuild :: "ctx \<Rightarrow> uuid \<Rightarrow> (FakeDataLayer, unit) act" where
  "fake_CancelBuild c bid s =
     (let s1 = fake_modify bid (\<lambda>b. b\<lparr>b_Status := BuildStatusCancelRequested\<rparr>) s
      in (s1\<lparr>fd_cxlmail := fd_cxlmail s1 @ chans (fd_cxllisteners s1) bid\<rparr>, Ok ()))"

definition fake_CancellationListeners :: "FakeDataLayer \<Rightarrow> nat" where
  "fake_CancellationListeners s = length (fd_cxllisteners s)"

definition fake_ListenForCancellation ::
  "FakeDataLayer interference \<Rightarrow> FakeDataLayer interference \<Rightarrow> ctx \<Rightarrow> uuid
     \<Rightarrow> (FakeDataLayer, unit) act" where
  "fake_ListenForCancellation gap1 gap2 c bid s =
     (case map_of (fd_d s) bid of
        None \<Rightarrow> (s, Err (ErrMsg ''build not found''))
      | Some b \<Rightarrow>
          if Running b then
            let s1 = gap1 s;
                lc = fd_nextchan s1;
                s2 = s1\<lparr>fd_nextchan := lc + 1,
                        fd_cxllisteners := register_listener bid lc (fd_cxllisteners s1)\<rparr>;
                s3 = gap2 s2;
                s4 = s3\<lparr>fd_cxllisteners := remove_listener bid (fd_cxllisteners s3)\<rparr>
            in (s4, if lc \<in> set (fd_cxlmail s3) then Ok ()
                    else Err (ErrMsg ''context cancelled''))
          else if b_Status b = BuildStatusCancelRequested \<or> b_Status b = BuildStatusCancelled then
            (s, Ok ())
          else (s, Err (ErrMsg (''unexpected status for build (wanted Running or Cancelled): ''
                                @ BuildStatus_String (b_Status b)))))"

definition fake_SetBuildAsRunning :: "ctx \<Rightarrow> uuid \<Rightarrow> (FakeDataLayer, unit) act" where
  "fake_SetBuildAsRunning c bid s =
     (let s1 = fake_modify bid (\<lambda>b. b\<lparr>b_Status := BuildStatusRunning\<rparr>) s
      in (s1\<lparr>fd_runmail := fd_runmail s1 @ chans (fd_runlisteners s1) bid\<rparr>, Ok ()))"

definition fake_ListenForBuildRunning ::
  "FakeDataLayer interference \<Rightarrow> FakeDataLayer interference \<Rightarrow> ctx \<Rightarrow> uuid
     \<Rightarrow> (FakeDataLayer, unit) act" where
  "fake_ListenForBuildRunning gap1 gap2 c bid s =
     (case map_of (fd_d s) bid of
        None \<Rightarrow> (s, Err (ErrMsg ''build not found''))
      | Some b \<Rightarrow>
          if b_Status b = BuildStatusRunning then (s, Ok ())
          else if b_Status b = BuildStatusNotStarted then
            let s1 = gap1 s;
                lc = fd_nextchan s1;
                s2 = s1\<lparr>fd_nextchan := lc + 1,
                        fd_runlisteners := register_listener bid lc (fd_runlisteners s1)\<rparr>;
                s3 = gap2 s2;
                s4 = s3\<lparr>fd_runlisteners := remove_listener bid (fd_runlisteners s3)\<rparr>
            in (s4, if lc \<in> set (fd_runmail s3) then Ok ()
                    else Err (ErrMsg ''context cancelled''))
          else (s, Err (ErrMsg (''unexpected build status (wanted Running or NotStarted): ''
                                @ BuildStatus_String (b_Status b)))))"

definition fake_SetBuildAsCompleted ::
  "ctx \<Rightarrow> uuid \<Rightarrow> BuildStatus \<Rightarrow> (FakeDataLayer, unit) act" where
  "fake_SetBuildAsCompleted c bid st s =
     (let s1 = fake_modify bid (\<lambda>b. b\<lparr>b_Status := st\<rparr>) s
      in (s1\<lparr>fd_donemail := fd_donemail s1 @ map (\<lambda>ch. (ch, st)) (chans (fd_donelisteners s1) bid)\<rparr>,
          Ok ()))"

definition fake_ListenForBuildCompleted ::
  "FakeDataLayer interference \<Rightarrow> FakeDataLayer interference \<Rightarrow> ctx \<Rightarrow> uuid
     \<Rightarrow> (FakeDataLayer, BuildStatus) act" where
  "fake_ListenForBuildCompleted gap1 gap2 c bid s =
     (case map_of (fd_d s) bid of
        None \<Rightarrow> (s, Err (ErrMsg ''build not found''))
      | Some b \<Rightarrow>
          if TerminalState (b_Status b) then (s, Ok (b_Status b))
          else if b_Status b = BuildStatusRunning \<or> b_Status b = BuildStatusNotStarted then
            let s1 = gap1 s;
                lc = fd_nextchan s1;
                s2 = s1\<lparr>fd_nextchan := lc + 1,
                        fd_donelisteners := register_listener bid lc (fd_donelisteners s1)\<rparr>;
                s3 = gap2 s2;
                s4 = s3\<lparr>fd_donelisteners := remove_listener bid (fd_donelisteners s3)\<rparr>
            in (s4, case filter (\<lambda>m. fst m = lc) (fd_donemail s3) of
                      m # _ \<Rightarrow> Ok (snd m)
                    | [] \<Rightarrow> Err (ErrMsg ''context cancelled''))
          else (s, Err (ErrMsg (''unknown or invalid build status: ''
                                @ BuildStatus_String (b_Status b)))))"

section \<open>API keys\<close>

definition fake_CreateAPIKey :: "ctx \<Rightarrow> APIKey \<Rightarrow> (FakeDataLayer, uuid) act" where
  "fake_CreateAPIKey c ak s =
     (case fake_newid s of
        (s1, Ok u) \<Rightarrow>
          (s1\<lparr>fd_apikeys := AList.update u (ak\<lparr>ak_ID := u\<rparr>) (fd_apikeys s1)\<rparr>, Ok u)
      | (s1, Err e) \<Rightarrow> (s1, Err e)
      | (s1, Panic m) \<Rightarrow> (s1, Panic m))"

definition fake_GetAPIKey :: "ctx \<Rightarrow> uuid \<Rightarrow> (FakeDataLayer, APIKey) act" where
  "fake_GetAPIKey c kid s =
     (s, case map_of (fd_apikeys s) kid of None \<Rightarrow> Err ErrNotFound | Some k \<Rightarrow> Ok k)"

definition fake_DeleteAPIKey :: "ctx \<Rightarrow> uuid \<Rightarrow> (FakeDataLayer, unit) act" where
  "fake_DeleteAPIKey c kid s = (s\<lparr>fd_apikeys := AList.delete kid (fd_apikeys s)\<rparr>, Ok ())"

definition fakeDL :: "(Build list \<Rightarrow> Build list) \<Rightarrow> FakeDataLayer DataLayer" where
  "fakeDL ord =
     \<lparr>dl_CreateBuild = fake_CreateBuild,
      dl_GetBuildByID = fake_GetBuildByID,
      dl_ListBuilds = fake_ListBuilds ord,
      dl_SetBuildCompletedTimestamp = fake_SetBuildCompletedTimestamp,
      dl_SetBuildStatus = fake_SetBuildStatus,
      dl_DeleteBuild = fake_DeleteBuild,
      dl_CancelBuild = fake_CancelBuild,
      dl_ListenForCancellation = fake_ListenForCancellation,
      dl_ListenForBuildEvents = fake_ListenForBuildEvents,
      dl_AddEvent = fake_AddEvent,
      dl_SetBuildAsRunning = fake_SetBuildAsRunning,
      dl_ListenForBuildRunning = fake_ListenForBuildRunning,
      dl_SetBuildAsCompleted = fake_SetBuildAsCompleted,
      dl_ListenForBuildCompleted = fake_ListenForBuildCompleted,
      dl_CreateAPIKey = fake_CreateAPIKey,
      dl_GetAPIKey = fake_GetAPIKey,
      dl_DeleteAPIKey = fake_DeleteAPIKey\<rparr>"

section \<open>The fake is a reliable data layer\<close>

text \<open>The state of a zero \<^verbatim>\<open>FakeDataLayer\<close> after \<^verbatim>\<open>init\<close>: all maps empty.\<close>

definition fake_init :: "gotime \<Rightarrow> (nat \<Rightarrow> uuid go) \<Rightarrow> FakeDataLayer" where
  "fake_init now rnd =
     \<lparr>fd_d = [], fd_apikeys = [], fd_listeners = [], fd_cxllisteners = [], fd_runlisteners = [],
      fd_donelisteners = [], fd_mail = [], fd_cxlmail = [], fd_runmail = [], fd_donemail = [],
      fd_nextchan = 0, fd_now = now, fd_rand = rnd, fd_nrand = 0\<rparr>"

definition fake_view :: "FakeDataLayer \<Rightarrow> store" where
  "fake_view s bid = map_option erase (map_of (fd_d s) bid)"

definition fake_keys :: "FakeDataLayer \<Rightarrow> uuid \<rightharpoonup> APIKey" where
  "fake_keys s = map_of (fd_apikeys s)"

text \<open>Every build is stored once and under its own identifier.\<close>

definition fake_inv :: "FakeDataLayer \<Rightarrow> bool" where
  "fake_inv s \<longleftrightarrow> distinct (map fst (fd_d s))
     \<and> (\<forall>bid b. map_of (fd_d s) bid = Some b \<longrightarrow> b_ID b = bid)"

lemma fake_init_inv: "fake_inv (fake_init now rnd)"
  by (simp add: fake_inv_def fake_init_def)

lemma fake_modify_simps [simp]:
  "map_of (fd_d (fake_modify bid f s)) i =
     (if i = bid then map_option f (map_of (fd_d s) bid) else map_of (fd_d s) i)"
  "fd_apikeys (fake_modify bid f s) = fd_apikeys s"
  by (auto simp: fake_modify_def split: option.splits)

lemma fake_modify_inv:
  "fake_inv s \<Longrightarrow> (\<And>b. b_ID (f b) = b_ID b) \<Longrightarrow> fake_inv (fake_modify bid f s)"
  by (auto simp: fake_inv_def fake_modify_def distinct_update split: option.splits if_splits
      simp del: map_of_eq_Some_iff)

lemma fake_view_modify:
  "(\<And>b. erase (f b) = g (erase b)) \<Longrightarrow>
     fake_view (fake_modify bid f s) i =
       (if i = bid then map_option g (fake_view s bid) else fake_view s i)"
  by (simp add: fake_view_def option.map_comp comp_def)

lemma fake_frame [simp]:
  "fake_view (s\<lparr>fd_mail := x\<rparr>) = fake_view s" "fake_view (s\<lparr>fd_cxlmail := y\<rparr>) = fake_view s"
  "fake_view (s\<lparr>fd_runmail := y\<rparr>) = fake_view s" "fake_view (s\<lparr>fd_donemail := z\<rparr>) = fake_view s"
  "fake_inv (s\<lparr>fd_mail := x\<rparr>) = fake_inv s" "fake_inv (s\<lparr>fd_cxlmail := y\<rparr>) = fake_inv s"
  "fake_inv (s\<lparr>fd_runmail := y\<rparr>) = fake_inv s" "fake_inv (s\<lparr>fd_donemail := z\<rparr>) = fake_inv s"
  "fake_keys (s\<lparr>fd_mail := x\<rparr>) = fake_keys s" "fake_keys (s\<lparr>fd_cxlmail := y\<rparr>) = fake_keys s"
  "fake_keys (s\<lparr>fd_runmail := y\<rparr>) = fake_keys s" "fake_keys (s\<lparr>fd_donemail := z\<rparr>) = fake_keys s"
  "fake_keys (fake_modify bid f s) = fake_keys s"
  by (auto simp: fake_view_def fake_inv_def fake_keys_def)

lemma fake_set_status:
  "fake_view (fake_modify bid (\<lambda>b. b\<lparr>b_Status := st\<rparr>) s) = set_status (fake_view s) bid st"
  by (rule ext) (simp add: fake_view_modify [where g = "\<lambda>b. b\<lparr>b_Status := st\<rparr>"] set_status_apply)

lemma fake_AddEvent_view:
  "fake_view (fst (fake_AddEvent c bid e s)) = push_event (fake_view s) bid e"
  by (rule ext) (auto simp: fake_AddEvent_def fake_view_def push_event_apply Let_def split: option.splits)

lemma fake_AddEvent_inv: "fake_inv s \<Longrightarrow> fake_inv (fst (fake_AddEvent c bid e s))"
  by (auto simp: fake_AddEvent_def fake_inv_def Let_def distinct_update
      split: option.splits if_splits simp del: map_of_eq_Some_iff)

lemma fake_AddEvent_other:
  "snd (fake_AddEvent c bid e s) = Ok ()" "fake_keys (fst (fake_AddEvent c bid e s)) = fake_keys s"
  by (auto simp: fake_AddEvent_def fake_keys_def Let_def split: option.splits)

lemma fake_CreateBuild_step:
  assumes "fake_inv s" "fake_CreateBuild c b s = (s', Ok u)"
  shows "fake_inv s' \<and> fake_keys s' = fake_keys s
    \<and> (\<exists>b'. created_as b u b' \<and> fake_view s' = (fake_view s)(u \<mapsto> b'))"
proof -
  let ?b = "b\<lparr>b_ID := u, b_Status := BuildStatusNotStarted, b_Created := fd_now s\<rparr>"
  from assms(2) have s': "s' = s\<lparr>fd_nrand := fd_nrand s + 1, fd_d := AList.update u ?b (fd_d s)\<rparr>"
    by (auto simp: fake_CreateBuild_def fake_newid_def Let_def split: go.splits)
  have "fake_view s' = (fake_view s)(u \<mapsto> erase ?b)"
    by (rule ext) (simp add: s' fake_view_def)
  moreover have "created_as b u (erase ?b)" by (simp add: created_as_def)
  moreover have "fake_inv s'"
    using assms(1) by (auto simp: s' fake_inv_def distinct_update)
  moreover have "fake_keys s' = fake_keys s" by (simp add: s' fake_keys_def)
  ultimately show ?thesis by blast
qed

interpretation fake: reliable_layer "fakeDL ord" fake_view fake_keys fake_inv "\<lambda>_. True"
proof (unfold_locales, goal_cases)
  case (1 s c bid s' r)
  then show ?case
    by (auto simp: fakeDL_def fake_GetBuildByID_def fake_view_def fake_inv_def split: option.splits
        simp del: map_of_eq_Some_iff)
next
  case (2 s c b s' bid)
  then show ?case using fake_CreateBuild_step by (simp add: fakeDL_def)
next
  case (3 s c bid e s' r)
  then show ?case
    using fake_AddEvent_view [of c bid e s] fake_AddEvent_inv [of s c bid e]
      fake_AddEvent_other [of c bid e s]
    by (auto simp: fakeDL_def)
next
  case (4 s c bid e s')
  then show ?case using fake_AddEvent_view [of c bid e s] by (auto simp: fakeDL_def)
next
  case (11 s c kid s' r)
  then show ?case
    by (auto simp: fakeDL_def fake_GetAPIKey_def fake_keys_def split: option.splits)
next
  case (10 s c bid s')
  then show ?case
    by (auto simp: fakeDL_def fake_DeleteBuild_def fake_view_def fake_inv_def distinct_delete
        fun_eq_iff split: if_splits simp del: map_of_eq_Some_iff)
next
  case (12 s bid b)
  then show ?case by (auto simp: fakeDL_def fake_GetBuildByID_def fake_view_def)
next
  case (13 s bid)
  then show ?case by (auto simp: fakeDL_def fake_GetBuildByID_def fake_view_def)
qed (auto simp: fakeDL_def fake_SetBuildAsRunning_def fake_SetBuildAsCompleted_def
      fake_CancelBuild_def Let_def fake_set_status intro!: fake_modify_inv)

section \<open>Listing builds\<close>

lemma if_filter: "(if P then filter Q xs else xs) = filter (\<lambda>x. P \<longrightarrow> Q x) xs"
  by simp

lemma filter_and: "filter P (filter Q xs) = filter (\<lambda>x. Q x \<and> P x) xs"
  by (simp add: conj_commute)

lemma selects_chain: "selects opts = (\<lambda>x.
      (lo_WithGitHubRepo opts \<noteq> [] \<longrightarrow> b_GitHubRepo x = lo_WithGitHubRepo opts)
      \<and> (lo_WithGitHubRef opts \<noteq> [] \<longrightarrow> b_GitHubRef x = lo_WithGitHubRef opts)
      \<and> (lo_WithImageRepo opts \<noteq> [] \<longrightarrow> lo_WithImageRepo opts \<in> set (b_ImageRepos x))
      \<and> (lo_WithStatus opts \<noteq> BuildStatusUnknown \<longrightarrow> b_Status x = lo_WithStatus opts)
      \<and> (\<not> IsZero (lo_CompletedAfter opts) \<longrightarrow> lo_CompletedAfter opts < b_Completed x
             \<or> b_Completed x = lo_CompletedAfter opts)
      \<and> (\<not> IsZero (lo_StartedAfter opts) \<longrightarrow> lo_StartedAfter opts < b_Created x
             \<or> b_Created x = lo_StartedAfter opts)
      \<and> (\<not> IsZero (lo_CompletedBefore opts) \<longrightarrow>
             (if IsZero (b_Completed x) then False else b_Completed x < lo_CompletedBefore opts))
      \<and> (\<not> IsZero (lo_StartedBefore opts) \<longrightarrow>
             (if IsZero (b_Created x) then False else b_Created x < lo_StartedBefore opts)))"
proof -
  have le: "(t \<le> u) = (t < u \<or> u = t)" for t u :: gotime by (auto simp: le_less)
  have ite: "(if P then False else Q) = (\<not> P \<and> Q)" for P Q by simp
  show ?thesis unfolding le ite by (rule ext) (rule selects_def [unfolded le])
qed

text \<open>The slice expression of the limit never panics on a limit below \<open>2\<^sup>6\<^sup>3\<close>.\<close>

lemma limit_slice:
  assumes "n < (2 :: 64 word) ^ 63"
  shows "(if 0 < n \<and> sint n < int (length xs) then
            (if unat n \<le> length xs then Ok (take (unat n) xs)
             else Panic ''slice bounds out of range'')
          else Ok xs)
       = Ok (if 0 < n then take (unat n) xs else xs)"
proof (cases "unat n < length xs")
  case True
  then show ?thesis unfolding sint_small [OF assms] of_nat_less_iff by auto
next
  case False
  then show ?thesis unfolding sint_small [OF assms] of_nat_less_iff by simp
qed

lemma fake_ListBuilds_eq:
  assumes "options_ok opts" "lo_Limit opts < 2 ^ 63"
  shows "fake_ListBuilds ord c opts s =
    (s, Ok (let out = filter (selects opts) (ord (map snd (fd_d s)))
            in if 0 < lo_Limit opts then take (unat (lo_Limit opts)) out else out))"
  unfolding fake_ListBuilds_def if_not_P [OF options_ok_guards(1) [OF assms(1)]]
    if_not_P [OF options_ok_guards(2) [OF assms(1)]]
    if_not_P [OF options_ok_guards(3) [OF assms(1)]]
    Let_def if_filter filter_and selects_chain [symmetric] limit_slice [OF assms(2)]
  by (rule refl)

text \<open>Without a limit exactly the selected builds are listed, each as often as it is stored.\<close>

lemma fake_ListBuilds_complete:
  assumes "options_ok opts" "lo_Limit opts = 0" "\<And>xs. mset (ord xs) = mset xs"
  shows "\<exists>out. fake_ListBuilds ord c opts s = (s, Ok out)
    \<and> mset out = filter_mset (selects opts) (mset (map snd (fd_d s)))"
proof -
  have "lo_Limit opts < 2 ^ 63" by (simp add: assms(2))
  from fake_ListBuilds_eq [OF assms(1) this, of ord c s] show ?thesis
    by (simp add: assms(2,3) mset_filter)
qed

end
