(* ===== verification/Furan_FakeSuite.thy ===== *)
theory Furan_FakeSuite
  imports Furan_Testsuite Furan_Fake
begin

text \<open>
  The in-memory data layer keeps the full contract of a data layer, as \<^verbatim>\<open>fake_test.go\<close> checks: each test of the
  suite gets a new \<^verbatim>\<open>FakeDataLayer\<close>, which shares the clock and the source of identifiers.
\<close>

section \<open>The contract's parameters\<close>

text \<open>An order of the entries of a map: any permutation.\<close>

definition map_order :: "('a list \<Rightarrow> 'a list) \<Rightarrow> 'a list \<Rightarrow> 'a list" where
  "map_order ord xs = (if mset (ord xs) = mset xs then ord xs else xs)"

lemma mset_map_order [simp]: "mset (map_order ord xs) = mset xs"
  by (simp add: map_order_def)

lemma map_order_id: "(\<And>xs. mset (ord xs) = mset xs) \<Longrightarrow> map_order ord = ord"
  by (rule ext) (simp add: map_order_def)

definition fake_builds :: "FakeDataLayer \<Rightarrow> uuid \<rightharpoonup> Build" where
  "fake_builds s bid = map_option settle (map_of (fd_d s) bid)"

definition fake_new :: "FakeDataLayer \<Rightarrow> FakeDataLayer" where
  "fake_new s = (fake_init (fd_now s) (fd_rand s))\<lparr>fd_nrand := fd_nrand s\<rparr>"

text \<open>No listener has been registered and nothing sent.\<close>

definition fake_quiet :: "FakeDataLayer \<Rightarrow> bool" where
  "fake_quiet s \<longleftrightarrow>
     fd_listeners s = [] \<and> fd_cxllisteners s = [] \<and> fd_runlisteners s = [] \<and> fd_donelisteners s = []
     \<and> fd_mail s = [] \<and> fd_cxlmail s = [] \<and> fd_runmail s = [] \<and> fd_donemail s = []"

definition fake_usable :: "uuid \<Rightarrow> uuid list \<Rightarrow> FakeDataLayer \<Rightarrow> bool" where
  "fake_usable other us s \<longleftrightarrow> sane (fd_now s) \<and> draws us (fd_rand s) (fd_nrand s) {0, other}"

definition fake_ready :: "uuid \<Rightarrow> uuid list \<Rightarrow> FakeDataLayer \<Rightarrow> bool" where
  "fake_ready other us s \<longleftrightarrow>
     fake_inv s \<and> fake_quiet s \<and> sane (fd_now s) \<and> dom (fake_builds s) \<union> dom (fake_keys s) \<subseteq> - {0, other}
     \<and> draws us (fd_rand s) (fd_nrand s) ({0, other} \<union> dom (fake_builds s) \<union> dom (fake_keys s))"

section \<open>Steps\<close>

lemma fake_readyD:
  assumes "fake_ready other us s"
  shows "fake_inv s" "fake_quiet s" "sane (fd_now s)" "fake_usable other us s"
    "dom (fake_builds s) \<subseteq> - {0, other}" "dom (fake_keys s) \<subseteq> - {0, other}" "distinct us"
  using assms draws_new by (auto simp: fake_ready_def fake_usable_def elim: draws_mono)

text \<open>A step that stores no identifier, sends nothing and draws nothing.\<close>

lemma fake_ready_step:
  assumes "fake_ready other us s" "fake_inv s'" "fake_quiet s'" "dom (fake_builds s') \<subseteq> dom (fake_builds s)"
    "dom (fake_keys s') \<subseteq> dom (fake_keys s)" "fd_now s' = fd_now s" "fd_rand s' = fd_rand s" "fd_nrand s' = fd_nrand s"
  shows "fake_ready other us s'"
proof -
  have "draws us (fd_rand s') (fd_nrand s') ({0, other} \<union> dom (fake_builds s') \<union> dom (fake_keys s'))"
    unfolding assms(6-8) by (rule draws_mono) (use assms in \<open>auto simp: fake_ready_def\<close>)
  with assms show ?thesis by (simp add: fake_ready_def) blast
qed

lemma fake_modify_fields [simp]:
  "fd_listeners (fake_modify bid f s) = fd_listeners s" "fd_cxllisteners (fake_modify bid f s) = fd_cxllisteners s"
  "fd_runlisteners (fake_modify bid f s) = fd_runlisteners s" "fd_donelisteners (fake_modify bid f s) = fd_donelisteners s"
  "fd_mail (fake_modify bid f s) = fd_mail s" "fd_cxlmail (fake_modify bid f s) = fd_cxlmail s"
  "fd_runmail (fake_modify bid f s) = fd_runmail s" "fd_donemail (fake_modify bid f s) = fd_donemail s"
  "fd_now (fake_modify bid f s) = fd_now s" "fd_rand (fake_modify bid f s) = fd_rand s"
  "fd_nrand (fake_modify bid f s) = fd_nrand s" "fake_quiet (fake_modify bid f s) = fake_quiet s"
  by (simp_all add: fake_modify_def fake_quiet_def split: option.splits)

lemma fake_builds_modify:
  "(\<And>b. settle (f b) = g (settle b)) \<Longrightarrow> fake_builds (fake_modify bid f s) = change (fake_builds s) bid g"
  by (rule ext) (simp add: fake_builds_def change_apply option.map_comp comp_def)

lemma fake_modify_ready:
  assumes "fake_ready other us s" "\<And>b. b_ID (f b) = b_ID b"
  shows "fake_ready other us (fake_modify bid f s)"
proof (rule fake_ready_step [OF assms(1) fake_modify_inv [OF fake_readyD(1) [OF assms(1)] assms(2)]])
  show "dom (fake_builds (fake_modify bid f s)) \<subseteq> dom (fake_builds s)" by (auto simp: fake_builds_def split: if_splits)
qed (simp_all add: fake_readyD(2) [OF assms(1)])

lemma fake_create_full:
  assumes "fake_ready other (bid # us) s" "new_build b"
  shows "\<exists>s' b'. fake_CreateBuild Active b s = (s', Ok bid) \<and> fake_ready other us s' \<and> fd_now s \<le> fd_now s'
    \<and> fake_builds s' = (fake_builds s)(bid \<mapsto> b') \<and> bid \<in> - {0, other} \<and> fake_builds s bid = None
    \<and> stored_as b bid b' \<and> fd_now s \<le> b_Created b' \<and> b_Created b' \<le> fd_now s'"
proof -
  from assms(1) have u: "fd_rand s (fd_nrand s) = Ok bid" "bid \<notin> {0, other} \<union> dom (fake_builds s) \<union> dom (fake_keys s)"
    "draws us (fd_rand s) (fd_nrand s + 1) (insert bid ({0, other} \<union> dom (fake_builds s) \<union> dom (fake_keys s)))"
    by (auto simp: fake_ready_def)
  let ?b = "b\<lparr>b_ID := bid, b_Status := BuildStatusNotStarted, b_Created := fd_now s\<rparr>"
  let ?s = "s\<lparr>fd_nrand := fd_nrand s + 1, fd_d := AList.update bid ?b (fd_d s)\<rparr>"
  have c: "fake_CreateBuild Active b s = (?s, Ok bid)" by (simp add: fake_CreateBuild_def fake_newid_def u(1))
  have f: "fake_builds ?s = (fake_builds s)(bid \<mapsto> settle ?b)" by (rule ext) (simp add: fake_builds_def)
  have d: "dom (fake_builds ?s) = insert bid (dom (fake_builds s))" "fake_keys ?s = fake_keys s"
    unfolding f by (simp_all add: fake_keys_def)
  have "fake_inv ?s" using fake_readyD(1) [OF assms(1)] by (auto simp: fake_inv_def distinct_update)
  moreover have "draws us (fd_rand s) (fd_nrand s + 1) ({0, other} \<union> dom (fake_builds ?s) \<union> dom (fake_keys ?s))"
    by (rule draws_mono [OF u(3)]) (unfold d, auto)
  ultimately have "fake_ready other us ?s"
    using assms(1) u(2) unfolding fake_ready_def d by (simp add: fake_quiet_def)
  moreover have "stored_as b bid (settle ?b)"
    using assms(2) by (simp add: stored_as_def created_as_def new_build_def settle_def)
  ultimately show ?thesis using c f u(2) by (intro exI [of _ ?s] exI [of _ "settle ?b"]) auto
qed

lemma fake_createkey_full:
  assumes "fake_ready other (kid # us) s"
  shows "\<exists>s' k'. fake_CreateAPIKey Active k s = (s', Ok kid) \<and> fake_ready other us s'
    \<and> fake_keys s' = (fake_keys s)(kid \<mapsto> k') \<and> kid \<in> - {0, other} \<and> fake_keys s kid = None \<and> ak_ReadOnly k' = ak_ReadOnly k"
proof -
  from assms(1) have u: "fd_rand s (fd_nrand s) = Ok kid" "kid \<notin> {0, other} \<union> dom (fake_builds s) \<union> dom (fake_keys s)"
    "draws us (fd_rand s) (fd_nrand s + 1) (insert kid ({0, other} \<union> dom (fake_builds s) \<union> dom (fake_keys s)))"
    by (auto simp: fake_ready_def)
  let ?k = "k\<lparr>ak_ID := kid\<rparr>"
  let ?s = "s\<lparr>fd_nrand := fd_nrand s + 1, fd_apikeys := AList.update kid ?k (fd_apikeys s)\<rparr>"
  have c: "fake_CreateAPIKey Active k s = (?s, Ok kid)" by (simp add: fake_CreateAPIKey_def fake_newid_def u(1))
  have f: "fake_keys ?s = (fake_keys s)(kid \<mapsto> ?k)" by (rule ext) (simp add: fake_keys_def)
  have d: "dom (fake_keys ?s) = insert kid (dom (fake_keys s))" "fake_builds ?s = fake_builds s"
    unfolding f by (simp_all add: fake_builds_def fun_eq_iff)
  have "draws us (fd_rand s) (fd_nrand s + 1) ({0, other} \<union> dom (fake_builds ?s) \<union> dom (fake_keys ?s))"
    by (rule draws_mono [OF u(3)]) (unfold d, auto)
  then have "fake_ready other us ?s"
    using assms(1) u(2) unfolding fake_ready_def d by (simp add: fake_quiet_def fake_inv_def)
  then show ?thesis using c f u(2) by (intro exI [of _ ?s] exI [of _ ?k]) auto
qed

lemma fake_list_full:
  assumes "fake_ready other us s" "options_ok opts" "lo_Limit opts < 2 ^ 63"
  shows "\<exists>out. fake_ListBuilds (map_order ord) Active opts s = (s, Ok out) \<and> distinct (map settle out)
    \<and> settle ` set out \<subseteq> {b \<in> ran (fake_builds s). selects opts b}
    \<and> length out = (let n = card {b \<in> ran (fake_builds s). selects opts b} in if lo_Limit opts = 0 then n else min (unat (lo_Limit opts)) n)"
proof -
  let ?all = "map_order ord (map snd (fd_d s))"
  let ?sel = "filter (selects opts) ?all"
  have inv: "distinct (map fst (fd_d s))" "\<And>bid b. map_of (fd_d s) bid = Some b \<Longrightarrow> b_ID b = bid"
    using fake_readyD(1) [OF assms(1)] by (auto simp: fake_inv_def)
  have e: "b_ID b = i" if "(i, b) \<in> set (fd_d s)" for i b using inv that by simp
  have "map b_ID (map snd (fd_d s)) = map fst (fd_d s)" using e by (auto simp: map_eq_conv)
  with inv(1) have "distinct (map b_ID (map snd (fd_d s)))" by metis
  then have "distinct (map b_ID ?all)" by (metis mset_map mset_map_order mset_eq_imp_distinct_iff)
  then have sel: "distinct (map (b_ID \<circ> settle) ?sel)" by (simp add: comp_def distinct_map_filter)
  have set: "set ?all = snd ` set (fd_d s)" by (metis list.set_map mset_eq_setD mset_map_order)
  have "ran (fake_builds s) = settle ` ran (map_of (fd_d s))"
    by (auto simp: ran_def fake_builds_def simp del: map_of_eq_Some_iff)
  then have "ran (fake_builds s) = settle ` snd ` set (fd_d s)" by (simp add: ran_distinct [OF inv(1)])
  then have S: "{b \<in> ran (fake_builds s). selects opts b} = settle ` set ?sel" by (auto simp: set)
  have dist: "distinct (map settle ?sel)" using sel by (metis distinct_map map_map)
  then have card: "card {b \<in> ran (fake_builds s). selects opts b} = length ?sel"
    unfolding S by (metis distinct_card length_map list.set_map)
  have d: "distinct (map settle (take k ?sel))" for k using distinct_take [OF dist, of k] by (simp add: take_map)
  have sub: "set (take k ?sel) \<subseteq> set ?sel" for k by (rule set_take_subset)
  show ?thesis unfolding fake_ListBuilds_eq [OF assms(2,3)] Let_def card
    using dist d sub by (auto simp: S word_neq_0_conv)
qed

lemma add_events_fake:
  assumes "map_of (fd_d t) bid \<noteq> None"
  shows "let t' = add_events (fakeDL ord) bid es t in
    fd_mail t' = fd_mail t @ concat (map (\<lambda>e. map (\<lambda>ch. (ch, e)) (chans (fd_listeners t) bid)) es)
    \<and> fd_listeners t' = fd_listeners t \<and> fd_now t' = fd_now t \<and> fd_rand t' = fd_rand t \<and> fd_nrand t' = fd_nrand t"
  using assms
proof (induction es arbitrary: t)
  case (Cons e es)
  obtain b where b: "map_of (fd_d t) bid = Some b" using Cons.prems by auto
  let ?t = "fst (fake_AddEvent Active bid e t)"
  have a: "dl_AddEvent (fakeDL ord) Active bid e t = (?t, Ok ())"
    by (simp add: fakeDL_def fake_AddEvent_def b Let_def)
  have "map_of (fd_d ?t) bid \<noteq> None" by (simp add: fake_AddEvent_def b Let_def)
  from Cons.IH [OF this] show ?case by (simp add: a) (simp add: fake_AddEvent_def b Let_def)
qed simp

lemma chans_register: "chans (register_listener bid lc []) bid = [lc]"
  by (simp add: chans_def register_listener_def)

lemma fake_new_fields [simp]:
  "fake_builds (fake_new s) = Map.empty" "fake_keys (fake_new s) = Map.empty" "fake_inv (fake_new s)" "fake_quiet (fake_new s)"
  "fd_now (fake_new s) = fd_now s" "fd_rand (fake_new s) = fd_rand s" "fd_nrand (fake_new s) = fd_nrand s"
  by (auto simp: fake_new_def fake_init_def fake_inv_def fake_quiet_def fake_builds_def fake_keys_def)

lemma fake_new_ready: "fake_usable other us s \<Longrightarrow> fake_ready other us (fake_new s) \<and> fake_builds (fake_new s) \<subseteq>\<^sub>m fake_builds s"
  by (simp add: fake_usable_def fake_ready_def)

lemma fake_delete_ready:
  assumes "fake_ready other us s"
  shows "fake_ready other us (s\<lparr>fd_d := AList.delete bid (fd_d s)\<rparr>)"
    "fake_builds (s\<lparr>fd_d := AList.delete bid (fd_d s)\<rparr>) = (fake_builds s)(bid := None)"
proof -
  show f: "fake_builds (s\<lparr>fd_d := AList.delete bid (fd_d s)\<rparr>) = (fake_builds s)(bid := None)"
    by (rule ext) (simp add: fake_builds_def delete_conv')
  show "fake_ready other us (s\<lparr>fd_d := AList.delete bid (fd_d s)\<rparr>)"
    by (rule fake_ready_step [OF assms], unfold f)
      (use fake_readyD(1,2) [OF assms] in
        \<open>auto simp: fake_inv_def fake_quiet_def fake_keys_def distinct_delete delete_conv' split: if_splits simp del: map_of_eq_Some_iff\<close>)
qed

lemma fake_deletekey_ready:
  assumes "fake_ready other us s"
  shows "fake_ready other us (s\<lparr>fd_apikeys := AList.delete kid (fd_apikeys s)\<rparr>)"
    "fake_keys (s\<lparr>fd_apikeys := AList.delete kid (fd_apikeys s)\<rparr>) = (fake_keys s)(kid := None)"
proof -
  show f: "fake_keys (s\<lparr>fd_apikeys := AList.delete kid (fd_apikeys s)\<rparr>) = (fake_keys s)(kid := None)"
    by (rule ext) (simp add: fake_keys_def delete_conv')
  show "fake_ready other us (s\<lparr>fd_apikeys := AList.delete kid (fd_apikeys s)\<rparr>)"
    by (rule fake_ready_step [OF assms], unfold f)
      (use fake_readyD(1,2) [OF assms] in \<open>auto simp: fake_inv_def fake_quiet_def fake_builds_def simp del: map_of_eq_Some_iff\<close>)
qed

lemma fake_stored: "fake_builds s bid = Some b \<Longrightarrow> \<exists>b0. map_of (fd_d s) bid = Some b0 \<and> settle b0 = b \<and> b_Status b0 = b_Status b"
  by (auto simp: fake_builds_def simp del: map_of_eq_Some_iff)

lemmas fake_calls = fakeDL_def fake_GetBuildByID_def fake_SetBuildStatus_def fake_SetBuildCompletedTimestamp_def fake_DeleteBuild_def
  fake_GetAPIKey_def fake_DeleteAPIKey_def fake_ListenForBuildEvents_def fake_ListenForCancellation_def
  fake_ListenForBuildRunning_def fake_ListenForBuildCompleted_def fake_CancelBuild_def fake_SetBuildAsRunning_def
  fake_SetBuildAsCompleted_def Let_def

lemma concat_single: "concat (map (\<lambda>e. [(lc, e)]) es) = map (Pair lc) es"
  by (induction es) simp_all

lemma fake_events_heard:
  assumes "fake_ready other us s" "fake_builds s bid = Some b" "\<not> TerminalState (b_Status b)"
  shows "\<exists>s' e. fake_ListenForBuildEvents (\<lambda>t. t) (add_events (fakeDL ord) bid es) Active bid s = Some (s', es, e)
    \<and> fake_usable other us s'"
proof -
  from fake_stored [OF assms(2)] obtain b0 where b0: "map_of (fd_d s) bid = Some b0" "b_Status b0 = b_Status b" by blast
  let ?lc = "fd_nextchan s"
  let ?s = "s\<lparr>fd_nextchan := Suc ?lc, fd_listeners := register_listener bid ?lc []\<rparr>"
  let ?t = "add_events (fakeDL ord) bid es ?s"
  have q: "fd_listeners s = []" "fd_mail s = []" using fake_readyD(2) [OF assms(1)] by (simp_all add: fake_quiet_def)
  from add_events_fake [of ?s bid ord es] b0(1)
  have t: "fd_mail ?t = map (Pair ?lc) es" "fd_now ?t = fd_now s" "fd_rand ?t = fd_rand s" "fd_nrand ?t = fd_nrand s"
    by (simp_all add: Let_def q chans_register concat_single)
  have "CanAddEvent b0" using assms(3) b0(2) by (simp add: CanAddEvent_def EventListenable_def)
  then have "fake_ListenForBuildEvents (\<lambda>t. t) (add_events (fakeDL ord) bid es) Active bid s
      = Some (?t\<lparr>fd_listeners := remove_listener bid (fd_listeners ?t)\<rparr>, es, ErrMsg ''context cancelled'')"
    by (simp add: fake_ListenForBuildEvents_def b0(1) Let_def q t(1) filter_map comp_def)
  moreover have "fake_usable other us (?t\<lparr>fd_listeners := remove_listener bid (fd_listeners ?t)\<rparr>)"
    using fake_readyD(4) [OF assms(1)] by (simp add: fake_usable_def t)
  ultimately show ?thesis by blast
qed

lemma fake_heard:
  assumes "fake_ready other us s" "fake_builds s bid = Some b"
  shows "b_Status b = BuildStatusRunning \<Longrightarrow>
      \<exists>s'. fake_ListenForCancellation (\<lambda>t. t) (\<lambda>t. fst (fake_CancelBuild Active bid t)) Active bid s = (s', Ok ()) \<and> fake_usable other us s'"
    "b_Status b = BuildStatusNotStarted \<Longrightarrow>
      \<exists>s'. fake_ListenForBuildRunning (\<lambda>t. t) (\<lambda>t. fst (fake_SetBuildAsRunning Active bid t)) Active bid s = (s', Ok ()) \<and> fake_usable other us s'"
    "b_Status b \<in> {BuildStatusRunning, BuildStatusNotStarted} \<Longrightarrow>
      \<exists>s'. fake_ListenForBuildCompleted (\<lambda>t. t) (\<lambda>t. fst (fake_SetBuildAsCompleted Active bid st t)) Active bid s = (s', Ok st) \<and> fake_usable other us s'"
proof -
  from fake_stored [OF assms(2)] obtain b0 where b0: "map_of (fd_d s) bid = Some b0" "b_Status b0 = b_Status b" by blast
  have q: "fd_cxllisteners s = []" "fd_runlisteners s = []" "fd_donelisteners s = []" "fd_cxlmail s = []" "fd_runmail s = []" "fd_donemail s = []"
    using fake_readyD(2) [OF assms(1)] by (simp_all add: fake_quiet_def)
  note u = fake_readyD(4) [OF assms(1)]
  show "\<exists>s'. fake_ListenForCancellation (\<lambda>t. t) (\<lambda>t. fst (fake_CancelBuild Active bid t)) Active bid s = (s', Ok ()) \<and> fake_usable other us s'"
    if "b_Status b = BuildStatusRunning"
    using that b0 u by (simp add: fake_calls Running_def chans_register q fake_usable_def)
  show "\<exists>s'. fake_ListenForBuildRunning (\<lambda>t. t) (\<lambda>t. fst (fake_SetBuildAsRunning Active bid t)) Active bid s = (s', Ok ()) \<and> fake_usable other us s'"
    if "b_Status b = BuildStatusNotStarted"
    using that b0 u by (simp add: fake_calls chans_register q fake_usable_def)
  show "\<exists>s'. fake_ListenForBuildCompleted (\<lambda>t. t) (\<lambda>t. fst (fake_SetBuildAsCompleted Active bid st t)) Active bid s = (s', Ok st) \<and> fake_usable other us s'"
    if "b_Status b \<in> {BuildStatusRunning, BuildStatusNotStarted}"
    using that b0 u by (auto simp: fake_calls chans_register q fake_usable_def TerminalState_def)
qed

lemma fake_no_wait:
  assumes "fake_builds s bid = Some b"
  shows "TerminalState (b_Status b) \<Longrightarrow> \<exists>e. fake_ListenForBuildEvents g1 g2 Active bid s = Some (s, [], e) \<and> \<not> ctx_ended e"
    "b_Status b \<notin> {BuildStatusRunning, BuildStatusCancelRequested, BuildStatusCancelled} \<Longrightarrow>
      \<exists>e. fake_ListenForCancellation g1 g2 Active bid s = (s, Err e) \<and> \<not> ctx_ended e"
    "b_Status b \<in> {BuildStatusCancelRequested, BuildStatusCancelled} \<Longrightarrow> fake_ListenForCancellation g1 g2 Active bid s = (s, Ok ())"
    "b_Status b \<notin> {BuildStatusRunning, BuildStatusNotStarted} \<Longrightarrow> \<exists>e. fake_ListenForBuildRunning g1 g2 Active bid s = (s, Err e) \<and> \<not> ctx_ended e"
    "b_Status b = BuildStatusRunning \<Longrightarrow> fake_ListenForBuildRunning g1 g2 Active bid s = (s, Ok ())"
    "b_Status b \<notin> {BuildStatusRunning, BuildStatusNotStarted} \<Longrightarrow> \<not> TerminalState (b_Status b) \<Longrightarrow>
      \<exists>e. fake_ListenForBuildCompleted g1 g2 Active bid s = (s, Err e) \<and> \<not> ctx_ended e"
    "TerminalState (b_Status b) \<Longrightarrow> fake_ListenForBuildCompleted g1 g2 Active bid s = (s, Ok (b_Status b))"
proof -
  from fake_stored [OF assms] obtain b0 where b0: "map_of (fd_d s) bid = Some b0" "b_Status b0 = b_Status b" by blast
  show "TerminalState (b_Status b) \<Longrightarrow> \<exists>e. fake_ListenForBuildEvents g1 g2 Active bid s = Some (s, [], e) \<and> \<not> ctx_ended e"
    using b0 by (simp add: fake_ListenForBuildEvents_def CanAddEvent_def EventListenable_def)
  show "b_Status b \<notin> {BuildStatusRunning, BuildStatusCancelRequested, BuildStatusCancelled} \<Longrightarrow>
      \<exists>e. fake_ListenForCancellation g1 g2 Active bid s = (s, Err e) \<and> \<not> ctx_ended e"
    using b0 by (simp add: fake_ListenForCancellation_def Running_def)
  show "b_Status b \<in> {BuildStatusCancelRequested, BuildStatusCancelled} \<Longrightarrow> fake_ListenForCancellation g1 g2 Active bid s = (s, Ok ())"
    using b0 by (auto simp: fake_ListenForCancellation_def Running_def)
  show "b_Status b \<notin> {BuildStatusRunning, BuildStatusNotStarted} \<Longrightarrow> \<exists>e. fake_ListenForBuildRunning g1 g2 Active bid s = (s, Err e) \<and> \<not> ctx_ended e"
    "b_Status b = BuildStatusRunning \<Longrightarrow> fake_ListenForBuildRunning g1 g2 Active bid s = (s, Ok ())"
    using b0 by (simp_all add: fake_ListenForBuildRunning_def)
  show "b_Status b \<notin> {BuildStatusRunning, BuildStatusNotStarted} \<Longrightarrow> \<not> TerminalState (b_Status b) \<Longrightarrow>
      \<exists>e. fake_ListenForBuildCompleted g1 g2 Active bid s = (s, Err e) \<and> \<not> ctx_ended e"
    "TerminalState (b_Status b) \<Longrightarrow> fake_ListenForBuildCompleted g1 g2 Active bid s = (s, Ok (b_Status b))"
    using b0 by (simp_all add: fake_ListenForBuildCompleted_def)
qed

lemma fake_waits:
  assumes "fake_ready other us s" "fake_builds s bid = Some b"
  shows "b_Status b = BuildStatusRunning \<Longrightarrow>
      \<exists>s' e. fake_ListenForCancellation (\<lambda>t. t) (\<lambda>t. t) Active bid s = (s', Err e) \<and> ctx_ended e"
    "b_Status b = BuildStatusNotStarted \<Longrightarrow>
      \<exists>s' e. fake_ListenForBuildRunning (\<lambda>t. t) (\<lambda>t. t) Active bid s = (s', Err e) \<and> ctx_ended e"
    "b_Status b \<in> {BuildStatusRunning, BuildStatusNotStarted} \<Longrightarrow>
      \<exists>s' e. fake_ListenForBuildCompleted (\<lambda>t. t) (\<lambda>t. t) Active bid s = (s', Err e) \<and> ctx_ended e"
proof -
  from fake_stored [OF assms(2)] obtain b0 where b0: "map_of (fd_d s) bid = Some b0" "b_Status b0 = b_Status b" by blast
  have q: "fd_cxlmail s = []" "fd_runmail s = []" "fd_donemail s = []"
    using fake_readyD(2) [OF assms(1)] by (simp_all add: fake_quiet_def)
  show "b_Status b = BuildStatusRunning \<Longrightarrow>
      \<exists>s' e. fake_ListenForCancellation (\<lambda>t. t) (\<lambda>t. t) Active bid s = (s', Err e) \<and> ctx_ended e"
    using b0 by (simp add: fake_calls Running_def q)
  show "b_Status b = BuildStatusNotStarted \<Longrightarrow>
      \<exists>s' e. fake_ListenForBuildRunning (\<lambda>t. t) (\<lambda>t. t) Active bid s = (s', Err e) \<and> ctx_ended e"
    using b0 by (simp add: fake_calls q)
  show "b_Status b \<in> {BuildStatusRunning, BuildStatusNotStarted} \<Longrightarrow>
      \<exists>s' e. fake_ListenForBuildCompleted (\<lambda>t. t) (\<lambda>t. t) Active bid s = (s', Err e) \<and> ctx_ended e"
    using b0 by (auto simp: fake_calls TerminalState_def q)
qed

lemma chans_none [simp]: "chans [] bid = []"
  by (simp add: chans_def)

lemma fake_steps_quiet:
  assumes "fake_ready other us s"
  shows "fake_SetBuildAsRunning Active bid s = (fake_modify bid (\<lambda>b. b\<lparr>b_Status := BuildStatusRunning\<rparr>) s, Ok ())"
    "fake_CancelBuild Active bid s = (fake_modify bid (\<lambda>b. b\<lparr>b_Status := BuildStatusCancelRequested\<rparr>) s, Ok ())"
    "fake_AddEvent Active bid e s = (fake_modify bid (\<lambda>b. b\<lparr>b_Events := b_Events b @ [e]\<rparr>) s, Ok ())"
  using fake_readyD(2) [OF assms]
  by (auto simp: fake_SetBuildAsRunning_def fake_CancelBuild_def fake_AddEvent_def fake_quiet_def fake_modify_def Let_def split: option.splits)

interpretation fake_full: full_layer "fakeDL (map_order ord)" fake_view fake_keys fake_inv fake_builds "fake_ready other"
  "fake_usable other" fd_now "\<lambda>t. t" "- {0, other}" fake_new
proof (unfold_locales, goal_cases)
  case (1 us s)
  then show ?case using fake_readyD [OF 1] by simp
next
  case (2 s bid)
  then show ?case by (simp add: fake_view_def fake_builds_def option.map_comp comp_def)
next
  case (3 us s bid b)
  then show ?case using fake_readyD(1) [of other us s] by (auto simp: fake_builds_def fake_inv_def simp del: map_of_eq_Some_iff)
next
  case 4
  then show ?case by (simp add: rounds_def)
next
  case (7 us s)
  then show ?case by (rule fake_new_ready)
next
  case (8 bid us s b)
  then show ?case using fake_create_full by (simp add: fakeDL_def)
next
  case (9 us s bid)
  then show ?case by (auto simp: fake_calls fake_builds_def split: option.splits simp del: map_of_eq_Some_iff)
next
  case (10 us s st bid)
  then show ?case by (auto simp: fake_calls fake_builds_modify [where g = "\<lambda>b. b\<lparr>b_Status := st\<rparr>"] intro: fake_modify_ready)
next
  case (11 us s t bid)
  then show ?case by (auto simp: fake_calls fake_builds_modify [where g = "\<lambda>b. b\<lparr>b_Completed := t\<rparr>"] intro: fake_modify_ready)
next
  case (13 us s opts)
  have "at_res (\<lambda>t. t) opts = opts" by (simp add: at_res_def)
  with fake_list_full [OF 13(1,2,6), of ord] 13 show ?case by (simp add: fakeDL_def) blast
next
  case (15 kid us s k)
  then show ?case using fake_createkey_full by (simp add: fakeDL_def)
next
  case (16 us s kid)
  then show ?case by (auto simp: fake_calls fake_keys_def split: option.splits)
next
  case (12 us s bid)
  then show ?case
    using fake_delete_ready [of other us s bid] by (auto simp: fake_calls)
next
  case (14 us s opts)
  then show ?case
    by (auto simp: fakeDL_def fake_ListBuilds_def options_ok_def)
next
  case (17 us s kid)
  then show ?case
    using fake_deletekey_ready [of other us s kid] by (auto simp: fake_calls)
next
  case (18 us s)
  then show ?case by (rule fake_readyD(6))
next
  case (19 us s)
  then show ?case by (rule fake_readyD(5))
next
  case (20 us s bid b g1 g2)
  then show ?case using fake_no_wait(1) [of s bid b g1 g2] by (auto simp: fakeDL_def)
next
  case (21 us s bid b es)
  then show ?case using fake_events_heard by (simp add: fakeDL_def)
next
  case (22 us s bid b g1 g2)
  then show ?case using fake_no_wait(2) [of s bid b g1 g2] by (auto simp: fakeDL_def)
next
  case (23 us s bid b g1 g2)
  then show ?case using fake_no_wait(3) [of s bid b g1 g2] by (auto simp: fakeDL_def)
next
  case (25 us s bid b)
  then show ?case
    using fake_heard by (simp add: fakeDL_def)
next
  case (26 us s bid b g1 g2)
  then show ?case using fake_no_wait(4) [of s bid b g1 g2] by (auto simp: fakeDL_def)
next
  case (27 us s bid b g1 g2)
  then show ?case using fake_no_wait(5) [of s bid b g1 g2] by (auto simp: fakeDL_def)
next
  case (29 us s bid b)
  then show ?case
    using fake_heard by (simp add: fakeDL_def)
next
  case (30 us s bid b g1 g2)
  then show ?case using fake_no_wait(6) [of s bid b g1 g2] by (auto simp: fakeDL_def)
next
  case (31 us s bid b g1 g2)
  then show ?case using fake_no_wait(7) [of s bid b g1 g2] by (auto simp: fakeDL_def)
next
  case (33 us s bid b st)
  then show ?case
    using fake_heard by (simp add: fakeDL_def)
next
  case (24 us s bid b)
  then show ?case using fake_waits(1) [of other us s bid b] by (simp add: fakeDL_def)
next
  case (28 us s bid b)
  then show ?case using fake_waits(2) [of other us s bid b] by (simp add: fakeDL_def)
next
  case (32 us s bid b)
  then show ?case using fake_waits(3) [of other us s bid b] by (simp add: fakeDL_def)
next
  case (34 us s bid)
  then show ?case
    by (auto simp: fakeDL_def fake_steps_quiet [OF 34] fake_builds_modify [where g = "\<lambda>b. b\<lparr>b_Status := BuildStatusRunning\<rparr>"] intro: fake_modify_ready)
next
  case (35 us s bid b)
  then show ?case
    by (auto simp: fakeDL_def fake_steps_quiet [OF 35(1)] fake_builds_modify [where g = "\<lambda>b. b\<lparr>b_Status := BuildStatusCancelRequested\<rparr>"] intro: fake_modify_ready)
next
  case (36 us s bid b e)
  then show ?case
    by (auto simp: fakeDL_def fake_steps_quiet [OF 36(1)] fake_builds_modify [where g = "\<lambda>b. b\<lparr>b_Events := b_Events b @ [e]\<rparr>"] intro: fake_modify_ready)
qed (auto)

section \<open>Properties\<close>


definition demo_fake :: FakeDataLayer where
  "demo_fake = fake_init (Time 63713696461 5) (\<lambda>i. Ok (of_nat (Suc i)))"

definition demo_env :: "(string \<Rightarrow> bool) \<Rightarrow> FakeDataLayer tsenv" where
  "demo_env early =
     \<lparr>te_ID = 7, te_Created = zero_time, te_NewV4 = Ok 99, te_Now = fd_now, te_early = early\<rparr>"


text \<open>
  The order of the goroutines matters: when the build is set as running before the listener is registered,
  the wake-up is lost and the test reports a timeout, on the same data layer.
\<close>

lemma fake_suite_early:
  "fst (snd (testDBSetBuildAsRunningAndListenForBuildRunning (demo_env (\<lambda>_. True)) (fakeDL rev) demo_fake))
     = [''timeout: build not running yet but should be'']"
  by code_simp

end
