(* ===== verification/Furan_Postgres.thy ===== *)
theory Furan_Postgres
  imports Furan_Datalayer "HOL-Library.Multiset"
begin

text \<open>
  \<^verbatim>\<open>PostgresDBLayer\<close> of \<^verbatim>\<open>pkg/datalayer/datalayer.go\<close>.  The database server and the connection
  pools are not furan's code: they are the argument \<open>pg\<close> of the operations, a record of the calls
  furan makes, and what furan relies on is the locale \<open>pg_service\<close>.  The operations are
  translated statement by statement; every statement they send is a value of \<open>stmt\<close>, whose text
  is \<open>stmt_text\<close>.  A transaction handle is the list of the statements executed in it.

  Shown: the operations implement the contract \<open>data_layer\<close> over every server that satisfies
  \<open>pg_service\<close>, and \<open>reliable_layer\<close> where the server is up.
\<close>

section \<open>Statements\<close>

datatype sqlcol =
  col_github_repo | col_github_ref | col_image_repos | col_status | col_completed | col_created

primrec col_name :: "sqlcol \<Rightarrow> string" where
  "col_name col_github_repo = ''github_repo''"
| "col_name col_github_ref = ''github_ref''"
| "col_name col_image_repos = ''image_repos''"
| "col_name col_status = ''status''"
| "col_name col_completed = ''completed''"
| "col_name col_created = ''created''"

datatype sqlval = VText string | VInt int | VTime gotime

text \<open>The conditions of \<^verbatim>\<open>ListBuilds\<close>; the number is that of the placeholder.\<close>

datatype sqlcond = ColEq sqlcol nat | AnyIn nat sqlcol | ColGe sqlcol nat | ColLt sqlcol nat

definition dollar :: "nat \<Rightarrow> string" where
  "dollar n = CHR ''$'' # itoa (int n)"

primrec cond_text :: "sqlcond \<Rightarrow> string" where
  "cond_text (ColEq c n) = ''('' @ col_name c @ '' = '' @ dollar n @ '')''"
| "cond_text (AnyIn n c) = ''('' @ dollar n @ '' = ANY ('' @ col_name c @ ''))''"
| "cond_text (ColGe c n) = ''('' @ col_name c @ '' >= '' @ dollar n @ '')''"
| "cond_text (ColLt c n) = ''('' @ col_name c @ '' < '' @ dollar n @ '')''"

datatype stmt =
  InsertBuild uuid Build BuildStatus
| UpdateCompleted gotime uuid
| UpdateStatus BuildStatus uuid
| UpdateStatusCompleted BuildStatus gotime uuid
| AppendEvent string uuid
| DeleteBuildStmt uuid
| InsertAPIKey uuid APIKey
| SeedAPIKey uuid string string
| DeleteAPIKeyStmt uuid
| Notify string string

text \<open>The text of the statements; the other arguments are sent as parameters.\<close>

primrec stmt_text :: "stmt \<Rightarrow> string" where
  "stmt_text (InsertBuild bid b st) =
     ''INSERT INTO builds (id, github_repo, github_ref, encrypted_github_credential, image_repos, tags, commit_sha_tag, build_options, request, status) VALUES ($1,$2,$3,$4,$5,$6,$7,$8,$9,$10);''"
| "stmt_text (UpdateCompleted t bid) = ''UPDATE builds SET completed = $1 WHERE id = $2;''"
| "stmt_text (UpdateStatus st bid) = ''UPDATE builds SET status = $1 WHERE id = $2;''"
| "stmt_text (UpdateStatusCompleted st t bid) =
     ''UPDATE builds SET status = $1, completed = $2 WHERE id = $3;''"
| "stmt_text (AppendEvent e bid) =
     ''UPDATE builds SET events = array_append(events, $1) WHERE id = $2;''"
| "stmt_text (DeleteBuildStmt bid) = ''DELETE FROM builds WHERE id = $1;''"
| "stmt_text (InsertAPIKey kid k) =
     ''INSERT INTO api_keys (id, github_user, name, description, read_only) VALUES ($1,$2,$3,$4,$5);''"
| "stmt_text (SeedAPIKey kid n d) =
     ''INSERT INTO api_keys (id, name, description) VALUES ($1,$2,$3) ON CONFLICT (id) DO NOTHING;''"
| "stmt_text (DeleteAPIKeyStmt kid) = ''DELETE FROM api_keys WHERE id = $1;''"
| "stmt_text (Notify ch lit) = ''NOTIFY '' @ ch @ '', '' @ lit @ '';''"

section \<open>The server\<close>

text \<open>
  What a scan of a row of \<^verbatim>\<open>builds\<close> fills in: the build without \<^verbatim>\<open>Updated\<close> and \<^verbatim>\<open>Completed\<close>, and
  these two columns, which may be NULL.
\<close>

type_synonym brow = "Build \<times> gotime option \<times> gotime option"

record 's PGServer =
  pg_Exec :: "ctx \<Rightarrow> stmt \<Rightarrow> ('s, unit) act"
  pg_SelectBuild :: "ctx \<Rightarrow> uuid \<Rightarrow> ('s, brow) act"
  pg_SelectAPIKey :: "ctx \<Rightarrow> uuid \<Rightarrow> ('s, APIKey) act"
  pg_Query :: "ctx \<Rightarrow> sqlcond list \<Rightarrow> 64 word option \<Rightarrow> sqlval list \<Rightarrow> ('s, brow go list) act"
  pg_Begin :: "ctx \<Rightarrow> ('s, unit) act"
  pg_TxExec :: "ctx \<Rightarrow> stmt list \<Rightarrow> stmt \<Rightarrow> ('s, unit) act"
  pg_Commit :: "ctx \<Rightarrow> stmt list \<Rightarrow> ('s, unit) act"
  pg_Rollback :: "ctx \<Rightarrow> 's \<Rightarrow> 's"
  pg_Acquire :: "ctx \<Rightarrow> ('s, nat) act"
  pg_Listen :: "ctx \<Rightarrow> nat \<Rightarrow> string \<Rightarrow> ('s, unit) act"
  pg_WaitForNotification :: "ctx \<Rightarrow> nat \<Rightarrow> ('s, string \<times> string) act"
  pg_Release :: "nat \<Rightarrow> 's \<Rightarrow> 's"
  pg_NewV4 :: "('s, uuid) act"
  pg_Now :: "'s \<Rightarrow> gotime"

text \<open>The text \<^verbatim>\<open>ListBuilds\<close> sends, given its conditions and its limit.\<close>

definition list_text :: "sqlcond list \<Rightarrow> 64 word option \<Rightarrow> string" where
  "list_text cs lim =
     ''SELECT '' @ [CHR 10] @ [CHR 9] @ ''id, created, updated, completed, github_repo, github_ref, encrypted_github_credential, image_repos, tags, commit_sha_tag, build_options, request, status, events '' @ [CHR 10] @ [CHR 9]
     @ ''FROM builds WHERE '' @ Join (map cond_text cs) '' AND ''
     @ (case lim of None \<Rightarrow> [] | Some n \<Rightarrow> '' LIMIT '' @ itoa (int (unat n))) @ '';''"

section \<open>Operations\<close>

text \<open>
  \<^verbatim>\<open>retry\<close>: up to five calls, the next one only after an \<^verbatim>\<open>*net.OpError\<close> that is a timeout or
  temporary.  \<open>None\<close> is a nil function.
\<close>

definition retries :: nat where
  "retries = 5"

primrec retry_loop :: "nat \<Rightarrow> goerr \<Rightarrow> ('s, 'a) act \<Rightarrow> ('s, 'a) act" where
  "retry_loop 0 err f s = (s, Err (Wrapf ''retries exceeded: '' err))"
| "retry_loop (Suc n) err f s =
     (case f s of
        (s', Ok x) \<Rightarrow> (s', Ok x)
      | (s', Err (OpError to tmp m)) \<Rightarrow>
          if \<not> to \<and> \<not> tmp then (s', Err (OpError to tmp m))
          else retry_loop n (OpError to tmp m) f s'
      | (s', Err e) \<Rightarrow> (s', Err e)
      | (s', Panic m) \<Rightarrow> (s', Panic m))"

definition retry :: "('s, 'a) act option \<Rightarrow> ('s, 'a) act" where
  "retry f s =
     (case f of
        None \<Rightarrow> (s, Err (ErrMsg ''retry: f is nil''))
      | Some g \<Rightarrow> retry_loop retries (ErrMsg []) g s)"

text \<open>A \<^verbatim>\<open>time.Time\<close> parameter is sent with microsecond resolution.\<close>

definition ts_param :: "gotime \<Rightarrow> gotime" where
  "ts_param t = Time (tm_sec t) (tm_nsec t div 1000 * 1000)"

text \<open>The column \<^verbatim>\<open>build_options\<close> is the JSON of the struct: the fields tagged \<^verbatim>\<open>"-"\<close> are lost.\<close>

definition json_opts :: "BuildOpts \<Rightarrow> BuildOpts" where
  "json_opts o' = o'\<lparr>bo_BuildID := 0, bo_ContextPath := [], bo_CommitSHA := []\<rparr>"

definition clear_credential :: "Build \<Rightarrow> Build" where
  "clear_credential b =
     (case rq_Build (b_Request b) of
        None \<Rightarrow> b
      | Some d \<Rightarrow> b\<lparr>b_Request := (b_Request b)\<lparr>rq_Build := Some (d\<lparr>bd_GithubCredential := []\<rparr>)\<rparr>\<rparr>)"

definition CreateSeedAPIKey :: "'s PGServer \<Rightarrow> ctx \<Rightarrow> uuid \<Rightarrow> ('s, unit) act" where
  "CreateSeedAPIKey pg c kid s =
     pg_Exec pg c (SeedAPIKey kid ''seed key'' ''for testing use only'') s"

definition CreateBuild :: "'s PGServer \<Rightarrow> ctx \<Rightarrow> Build \<Rightarrow> ('s, uuid) act" where
  "CreateBuild pg c b s =
     (case pg_NewV4 pg s of
        (s1, Err e) \<Rightarrow> (s1, Err (Wrapf ''error generating build id: '' e))
      | (s1, Panic m) \<Rightarrow> (s1, Panic m)
      | (s1, Ok bid) \<Rightarrow>
          let b1 = clear_credential b in
          (case pg_Exec pg c
                  (InsertBuild bid (b1\<lparr>b_BuildOptions := json_opts (b_BuildOptions b1)\<rparr>)
                     BuildStatusNotStarted) s1 of
             (s2, Ok _) \<Rightarrow> (s2, Ok bid)
           | (s2, Err e) \<Rightarrow> (s2, Err (Wrapf ''error inserting build: '' e))
           | (s2, Panic m) \<Rightarrow> (s2, Panic m)))"

definition out_build :: "brow \<Rightarrow> Build" where
  "out_build r =
     (case r of (b, updated, completed) \<Rightarrow>
        let b1 = (case updated of None \<Rightarrow> b | Some t \<Rightarrow> b\<lparr>b_Updated := t\<rparr>)
        in case completed of None \<Rightarrow> b1 | Some t \<Rightarrow> b1\<lparr>b_Completed := t\<rparr>)"

definition GetBuildByID :: "'s PGServer \<Rightarrow> ctx \<Rightarrow> uuid \<Rightarrow> ('s, Build) act" where
  "GetBuildByID pg c bid s =
     (case retry (Some (pg_SelectBuild pg c bid)) s of
        (s1, Err e) \<Rightarrow>
          (s1, Err (if e = ErrNoRows then ErrNotFound else Wrapf ''error getting build by id: '' e))
      | (s1, Panic m) \<Rightarrow> (s1, Panic m)
      | (s1, Ok row) \<Rightarrow> (s1, Ok (out_build row)))"

text \<open>One conditional block of \<^verbatim>\<open>ListBuilds\<close>: the condition with the next placeholder, the argument.\<close>

definition add_cond ::
  "bool \<Rightarrow> (nat \<Rightarrow> sqlcond) \<Rightarrow> sqlval \<Rightarrow> sqlcond list \<times> sqlval list \<Rightarrow> sqlcond list \<times> sqlval list"
  where
  "add_cond p mk v ca =
     (case ca of (conds, args) \<Rightarrow>
        if p then (conds @ [mk (length args + 1)], args @ [v]) else (conds, args))"

definition list_conds :: "ListBuildsOptions \<Rightarrow> sqlcond list \<times> sqlval list" where
  "list_conds opts =
     (let ca = ([], []);
          ca = add_cond (lo_WithGitHubRepo opts \<noteq> []) (ColEq col_github_repo)
                 (VText (lo_WithGitHubRepo opts)) ca;
          ca = add_cond (lo_WithGitHubRef opts \<noteq> []) (ColEq col_github_ref)
                 (VText (lo_WithGitHubRef opts)) ca;
          ca = add_cond (lo_WithImageRepo opts \<noteq> []) (\<lambda>n. AnyIn n col_image_repos)
                 (VText (lo_WithImageRepo opts)) ca;
          ca = add_cond (lo_WithStatus opts \<noteq> BuildStatusUnknown) (ColEq col_status)
                 (VInt (lo_WithStatus opts)) ca;
          ca = add_cond (\<not> IsZero (lo_CompletedAfter opts)) (ColGe col_completed)
                 (VTime (ts_param (lo_CompletedAfter opts))) ca;
          ca = add_cond (\<not> IsZero (lo_StartedAfter opts)) (ColGe col_created)
                 (VTime (ts_param (lo_StartedAfter opts))) ca;
          ca = add_cond (\<not> IsZero (lo_CompletedBefore opts)) (ColLt col_completed)
                 (VTime (ts_param (lo_CompletedBefore opts))) ca;
          ca = add_cond (\<not> IsZero (lo_StartedBefore opts)) (ColLt col_created)
                 (VTime (ts_param (lo_StartedBefore opts))) ca
      in ca)"

text \<open>\<^verbatim>\<open>rows.Next\<close> and \<^verbatim>\<open>rows.Scan\<close> over the rows of the answer.\<close>

fun scan_rows :: "brow go list \<Rightarrow> Build list \<Rightarrow> Build list go" where
  "scan_rows [] out = Ok out"
| "scan_rows (Ok row # rs) out = scan_rows rs (out @ [out_build row])"
| "scan_rows (Err e # rs) out = Err (Wrapf ''error scanning build: '' e)"
| "scan_rows (Panic m # rs) out = Panic m"

definition ListBuilds :: "'s PGServer \<Rightarrow> ctx \<Rightarrow> ListBuildsOptions \<Rightarrow> ('s, Build list) act" where
  "ListBuilds pg c opts s =
     (if opts = zero_ListBuildsOptions then
        (s, Err (ErrMsg ''at least one list option must be supplied''))
      else if \<not> IsZero (lo_CompletedBefore opts) \<and> \<not> IsZero (lo_CompletedAfter opts)
           \<and> lo_CompletedBefore opts = lo_CompletedAfter opts then
        (s, Err (ErrMsg ''CompletedBefore and CompletedAfter cannot be equal''))
      else if \<not> IsZero (lo_StartedBefore opts) \<and> \<not> IsZero (lo_StartedAfter opts)
           \<and> lo_StartedBefore opts = lo_StartedAfter opts then
        (s, Err (ErrMsg ''StartedBefore and StartedAfter cannot be equal''))
      else
        (case list_conds opts of (conds, args) \<Rightarrow>
           (case pg_Query pg c conds (if 0 < lo_Limit opts then Some (lo_Limit opts) else None)
                   args s of
              (s1, Err e) \<Rightarrow> (s1, Err (Wrapf ''error querying db: '' e))
            | (s1, Panic m) \<Rightarrow> (s1, Panic m)
            | (s1, Ok rows) \<Rightarrow> (s1, scan_rows rows []))))"

definition SetBuildCompletedTimestamp ::
  "'s PGServer \<Rightarrow> ctx \<Rightarrow> uuid \<Rightarrow> gotime \<Rightarrow> ('s, unit) act" where
  "SetBuildCompletedTimestamp pg c bid t s = pg_Exec pg c (UpdateCompleted (ts_param t) bid) s"

definition SetBuildStatus :: "'s PGServer \<Rightarrow> ctx \<Rightarrow> uuid \<Rightarrow> BuildStatus \<Rightarrow> ('s, unit) act" where
  "SetBuildStatus pg c bid st s = pg_Exec pg c (UpdateStatus st bid) s"

definition DeleteBuild :: "'s PGServer \<Rightarrow> ctx \<Rightarrow> uuid \<Rightarrow> ('s, unit) act" where
  "DeleteBuild pg c bid s = pg_Exec pg c (DeleteBuildStmt bid) s"

definition pgChanFromID :: "uuid \<Rightarrow> string" where
  "pgChanFromID bid = ''build_'' @ ReplaceAll (uuid_String bid) CHR ''-'' ''_''"

definition pgCxlChanFromID :: "uuid \<Rightarrow> string" where
  "pgCxlChanFromID bid = ''cxl_build_'' @ ReplaceAll (uuid_String bid) CHR ''-'' ''_''"

definition pgRunChanFromID :: "uuid \<Rightarrow> string" where
  "pgRunChanFromID bid = ''running_build_'' @ ReplaceAll (uuid_String bid) CHR ''-'' ''_''"

definition pgCompletedChanFromID :: "uuid \<Rightarrow> string" where
  "pgCompletedChanFromID bid = ''completed_build_'' @ ReplaceAll (uuid_String bid) CHR ''-'' ''_''"

definition quoteString :: "string \<Rightarrow> string" where
  "quoteString str = [CHR 39] @ ReplaceAll str (CHR 39) [CHR 39, CHR 39] @ [CHR 39]"

text \<open>
  How the server reads a string literal (a quote inside is doubled); \<open>None\<close> when the text is not
  one complete literal.
\<close>

fun lit_body :: "string \<Rightarrow> string option" where
  "lit_body [] = None"
| "lit_body [c] = (if c = CHR 39 then Some [] else None)"
| "lit_body (c # d # cs) =
     (if c = CHR 39 then (if d = CHR 39 then map_option ((#) c) (lit_body cs) else None)
      else map_option ((#) c) (lit_body (d # cs)))"

fun parse_lit :: "string \<Rightarrow> string option" where
  "parse_lit [] = None"
| "parse_lit (c # cs) = (if c = CHR 39 then lit_body cs else None)"

text \<open>
  The shape that \<^verbatim>\<open>AddEvent\<close>, \<^verbatim>\<open>CancelBuild\<close>, \<^verbatim>\<open>SetBuildAsRunning\<close> and \<^verbatim>\<open>SetBuildAsCompleted\<close>
  share: a transaction of two statements.  The deferred \<^verbatim>\<open>Rollback\<close> runs on every return after
  \<^verbatim>\<open>Begin\<close> succeeded.
\<close>

definition txn_body ::
  "'s PGServer \<Rightarrow> ctx \<Rightarrow> string \<Rightarrow> stmt \<Rightarrow> string \<Rightarrow> stmt \<Rightarrow> ('s, unit) act" where
  "txn_body pg c msg1 st1 msg2 st2 s =
     (case pg_TxExec pg c [] st1 s of
        (s1, Err e) \<Rightarrow> (s1, Err (Wrapf msg1 e))
      | (s1, Panic m) \<Rightarrow> (s1, Panic m)
      | (s1, Ok _) \<Rightarrow>
          (case pg_TxExec pg c [st1] st2 s1 of
             (s2, Err e) \<Rightarrow> (s2, Err (Wrapf msg2 e))
           | (s2, Panic m) \<Rightarrow> (s2, Panic m)
           | (s2, Ok _) \<Rightarrow>
               (case pg_Commit pg c [st1, st2] s2 of
                  (s3, Err e) \<Rightarrow> (s3, Err (Wrapf ''error committing txn: '' e))
                | (s3, Panic m) \<Rightarrow> (s3, Panic m)
                | (s3, Ok _) \<Rightarrow> (s3, Ok ()))))"

definition txn ::
  "'s PGServer \<Rightarrow> ctx \<Rightarrow> string \<Rightarrow> stmt \<Rightarrow> string \<Rightarrow> stmt \<Rightarrow> ('s, unit) act" where
  "txn pg c msg1 st1 msg2 st2 s =
     (case pg_Begin pg c s of
        (s1, Err e) \<Rightarrow> (s1, Err (Wrapf ''error opening txn: '' e))
      | (s1, Panic m) \<Rightarrow> (s1, Panic m)
      | (s1, Ok _) \<Rightarrow>
          (case txn_body pg c msg1 st1 msg2 st2 s1 of (s2, r) \<Rightarrow> (pg_Rollback pg c s2, r)))"

text \<open>\<open>gap\<close> is what others do between the look at the build and the transaction.\<close>

definition AddEvent ::
  "'s interference \<Rightarrow> 's PGServer \<Rightarrow> ctx \<Rightarrow> uuid \<Rightarrow> string \<Rightarrow> ('s, unit) act" where
  "AddEvent gap pg c bid event s =
     (case GetBuildByID pg c bid s of
        (s1, Err e) \<Rightarrow> (s1, Err (Wrapf ''error getting build by id: '' e))
      | (s1, Panic m) \<Rightarrow> (s1, Panic m)
      | (s1, Ok b) \<Rightarrow>
          if \<not> CanAddEvent b then
            (s1, Err (ErrMsg (''build status '' @ BuildStatus_String (b_Status b)
                              @ ''; cannot add new event'')))
          else txn pg c ''error appending event: '' (AppendEvent event bid)
                 ''error notifying channel: '' (Notify (pgChanFromID bid) (quoteString event))
                 (gap s1))"

definition CancelBuild :: "'s interference \<Rightarrow> 's PGServer \<Rightarrow> ctx \<Rightarrow> uuid \<Rightarrow> ('s, unit) act" where
  "CancelBuild gap pg c bid s =
     (case GetBuildByID pg c bid s of
        (s1, Err e) \<Rightarrow> (s1, Err (Wrapf ''error getting build: '' e))
      | (s1, Panic m) \<Rightarrow> (s1, Panic m)
      | (s1, Ok b) \<Rightarrow>
          if \<not> Running b then
            (s1, Err (ErrMsg (''build not cancellable: '' @ BuildStatus_String (b_Status b))))
          else txn pg c ''error cancelling build: '' (UpdateStatus BuildStatusCancelRequested bid)
                 ''error notifying cancel channel: ''
                 (Notify (pgCxlChanFromID bid) ([CHR 39] @ ''cancel'' @ [CHR 39]))
                 (gap s1))"

definition SetBuildAsRunning :: "'s PGServer \<Rightarrow> ctx \<Rightarrow> uuid \<Rightarrow> ('s, unit) act" where
  "SetBuildAsRunning pg c bid s =
     txn pg c ''error appending event: '' (UpdateStatus BuildStatusRunning bid)
       ''error notifying channel: ''
       (Notify (pgRunChanFromID bid) ([CHR 39] @ ''running'' @ [CHR 39])) s"

text \<open>\<^verbatim>\<open>%d\<close> prints the status as a number, \<^verbatim>\<open>%v\<close> calls its \<^verbatim>\<open>String\<close> method.\<close>

definition SetBuildAsCompleted ::
  "'s PGServer \<Rightarrow> ctx \<Rightarrow> uuid \<Rightarrow> BuildStatus \<Rightarrow> ('s, unit) act" where
  "SetBuildAsCompleted pg c bid st s =
     (if \<not> TerminalState st then
        (s, Err (ErrMsg (''invalid status for completed build: '' @ BuildStatus_String st)))
      else (case pg_Begin pg c s of
        (s1, Err e) \<Rightarrow> (s1, Err (Wrapf ''error opening txn: '' e))
      | (s1, Panic m) \<Rightarrow> (s1, Panic m)
      | (s1, Ok _) \<Rightarrow>
          (case txn_body pg c ''error setting status: ''
                  (UpdateStatusCompleted st (ts_param (pg_Now pg s1)) bid)
                  ''error notifying channel: ''
                  (Notify (pgCompletedChanFromID bid) ([CHR 39] @ itoa st @ [CHR 39])) s1 of
             (s2, r) \<Rightarrow> (pg_Rollback pg c s2, r))))"

text \<open>
  The blocking part of the four listeners: a connection of the second pool listens on a channel
  and waits; \<open>gap1\<close> is what others do before the \<^verbatim>\<open>LISTEN\<close>, \<open>gap2\<close> what they do while the call
  waits.  The connection is released on every return.
\<close>

definition listen_wait ::
  "'s interference \<Rightarrow> 's interference \<Rightarrow> 's PGServer \<Rightarrow> ctx \<Rightarrow> uuid \<Rightarrow> string \<Rightarrow> string
     \<Rightarrow> ('s, string \<times> string) act" where
  "listen_wait gap1 gap2 pg c bid ch msg s =
     (case pg_Acquire pg c (gap1 s) of
        (s1, Err e) \<Rightarrow> (s1, Err (Wrapf ''error getting db connection: '' e))
      | (s1, Panic m) \<Rightarrow> (s1, Panic m)
      | (s1, Ok conn) \<Rightarrow>
          (case pg_Listen pg c conn ch s1 of
             (s2, Err e) \<Rightarrow> (pg_Release pg conn s2, Err (Wrapf msg e))
           | (s2, Panic m) \<Rightarrow> (pg_Release pg conn s2, Panic m)
           | (s2, Ok _) \<Rightarrow>
               (case pg_WaitForNotification pg c conn (gap2 s2) of
                  (s3, Err e) \<Rightarrow>
                    (pg_Release pg conn s3,
                     Err (Wrapf (''error waiting for notification: '' @ uuid_String bid @ '': '') e))
                | (s3, Panic m) \<Rightarrow> (pg_Release pg conn s3, Panic m)
                | (s3, Ok n) \<Rightarrow> (pg_Release pg conn s3, Ok n))))"

definition ListenForCancellation ::
  "'s PGServer \<Rightarrow> 's interference \<Rightarrow> 's interference \<Rightarrow> ctx \<Rightarrow> uuid \<Rightarrow> ('s, unit) act" where
  "ListenForCancellation pg gap1 gap2 c bid s =
     (case GetBuildByID pg c bid s of
        (s1, Err e) \<Rightarrow> (s1, Err (Wrapf ''error getting build by id: '' e))
      | (s1, Panic m) \<Rightarrow> (s1, Panic m)
      | (s1, Ok b) \<Rightarrow>
          if Running b then
            (case listen_wait gap1 gap2 pg c bid (pgCxlChanFromID bid)
                    ''error listening on postgres cxl channel: '' s1 of
               (s2, Err e) \<Rightarrow> (s2, Err e) | (s2, Panic m) \<Rightarrow> (s2, Panic m) | (s2, Ok n) \<Rightarrow> (s2, Ok ()))
          else if b_Status b = BuildStatusCancelRequested \<or> b_Status b = BuildStatusCancelled then
            (s1, Ok ())
          else (s1, Err (ErrMsg (''unexpected status for build (wanted Running or Cancelled): ''
                                 @ BuildStatus_String (b_Status b)))))"

definition ListenForBuildRunning ::
  "'s PGServer \<Rightarrow> 's interference \<Rightarrow> 's interference \<Rightarrow> ctx \<Rightarrow> uuid \<Rightarrow> ('s, unit) act" where
  "ListenForBuildRunning pg gap1 gap2 c bid s =
     (case GetBuildByID pg c bid s of
        (s1, Err e) \<Rightarrow> (s1, Err (Wrapf ''error getting build by id: '' e))
      | (s1, Panic m) \<Rightarrow> (s1, Panic m)
      | (s1, Ok b) \<Rightarrow>
          if b_Status b = BuildStatusRunning then (s1, Ok ())
          else if b_Status b = BuildStatusNotStarted then
            (case listen_wait gap1 gap2 pg c bid (pgRunChanFromID bid)
                    ''error listening on postgres running channel: '' s1 of
               (s2, Err e) \<Rightarrow> (s2, Err e) | (s2, Panic m) \<Rightarrow> (s2, Panic m) | (s2, Ok n) \<Rightarrow> (s2, Ok ()))
          else (s1, Err (ErrMsg (''unexpected build status (wanted Running or NotStarted): ''
                                 @ BuildStatus_String (b_Status b)))))"

definition completed_payload :: "string \<Rightarrow> BuildStatus go" where
  "completed_payload p =
     (case Atoi p of
        Err e \<Rightarrow> Err (Wrapf ''error parsing status received via notification: '' e)
      | Panic m \<Rightarrow> Panic m
      | Ok si \<Rightarrow>
          if \<not> TerminalState si then
            Err (ErrMsg (''invalid status for completed build: '' @ BuildStatus_String si))
          else Ok si)"

definition ListenForBuildCompleted ::
  "'s PGServer \<Rightarrow> 's interference \<Rightarrow> 's interference \<Rightarrow> ctx \<Rightarrow> uuid \<Rightarrow> ('s, BuildStatus) act" where
  "ListenForBuildCompleted pg gap1 gap2 c bid s =
     (case GetBuildByID pg c bid s of
        (s1, Err e) \<Rightarrow> (s1, Err (Wrapf ''error getting build by id: '' e))
      | (s1, Panic m) \<Rightarrow> (s1, Panic m)
      | (s1, Ok b) \<Rightarrow>
          if TerminalState (b_Status b) then (s1, Ok (b_Status b))
          else if b_Status b = BuildStatusRunning \<or> b_Status b = BuildStatusNotStarted then
            (case listen_wait gap1 gap2 pg c bid (pgCompletedChanFromID bid)
                    ''error listening on postgres running channel: '' s1 of
               (s2, Err e) \<Rightarrow> (s2, Err e)
             | (s2, Panic m) \<Rightarrow> (s2, Panic m)
             | (s2, Ok (ch, p)) \<Rightarrow> (s2, completed_payload p))
          else (s1, Err (ErrMsg (''unknown or invalid build status: ''
                                 @ BuildStatus_String (b_Status b)))))"

text \<open>The endless loop of \<^verbatim>\<open>ListenForBuildEvents\<close>: it ends with the first error.\<close>

partial_function (option) event_loop ::
  "'s PGServer \<Rightarrow> ctx \<Rightarrow> nat \<Rightarrow> uuid \<Rightarrow> string list \<Rightarrow> 's \<Rightarrow> ('s \<times> string list \<times> goerr) option"
  where
  "event_loop pg c conn bid out s =
     (case pg_WaitForNotification pg c conn s of
        (s1, Ok (ch, p)) \<Rightarrow> event_loop pg c conn bid (out @ [p]) s1
      | (s1, Err e) \<Rightarrow>
          Some (s1, out,
                Wrapf (''error waiting for notification: '' @ uuid_String bid @ '': '') e)
      | (s1, Panic m) \<Rightarrow> Some (s1, out, ErrMsg m))"

declare event_loop.simps [code]

definition ListenForBuildEvents ::
  "'s PGServer \<Rightarrow> 's interference \<Rightarrow> 's interference \<Rightarrow> ctx \<Rightarrow> uuid
     \<Rightarrow> 's \<Rightarrow> ('s \<times> string list \<times> goerr) option" where
  "ListenForBuildEvents pg gap1 gap2 c bid s =
     (case GetBuildByID pg c bid s of
        (s1, Err e) \<Rightarrow> Some (s1, [], Wrapf ''error getting build by id: '' e)
      | (s1, Panic m) \<Rightarrow> Some (s1, [], ErrMsg m)
      | (s1, Ok b) \<Rightarrow>
          if \<not> EventListenable b then
            Some (s1, [], ErrMsg (''build status '' @ BuildStatus_String (b_Status b)
                                  @ ''; no events are possible''))
          else
            (case pg_Acquire pg c (gap1 s1) of
               (s2, Err e) \<Rightarrow> Some (s2, [], Wrapf ''error getting db connection: '' e)
             | (s2, Panic m) \<Rightarrow> Some (s2, [], ErrMsg m)
             | (s2, Ok conn) \<Rightarrow>
                 (case pg_Listen pg c conn (pgChanFromID bid) s2 of
                    (s3, Err e) \<Rightarrow>
                      Some (pg_Release pg conn s3, [],
                            Wrapf ''error listening on postgres channel: '' e)
                  | (s3, Panic m) \<Rightarrow> Some (pg_Release pg conn s3, [], ErrMsg m)
                  | (s3, Ok _) \<Rightarrow>
                      map_option (\<lambda>(s4, out, e). (pg_Release pg conn s4, out, e))
                        (event_loop pg c conn bid [] (gap2 s3)))))"

section \<open>API keys\<close>

definition CreateAPIKey :: "'s PGServer \<Rightarrow> ctx \<Rightarrow> APIKey \<Rightarrow> ('s, uuid) act" where
  "CreateAPIKey pg c apikey s =
     (case pg_NewV4 pg s of
        (s1, Err e) \<Rightarrow> (s1, Err (Wrapf ''error generating api key id: '' e))
      | (s1, Panic m) \<Rightarrow> (s1, Panic m)
      | (s1, Ok kid) \<Rightarrow>
          (case pg_Exec pg c (InsertAPIKey kid apikey) s1 of
             (s2, Ok _) \<Rightarrow> (s2, Ok kid)
           | (s2, Err e) \<Rightarrow> (s2, Err (Wrapf ''error inserting api key: '' e))
           | (s2, Panic m) \<Rightarrow> (s2, Panic m)))"

definition GetAPIKey :: "'s PGServer \<Rightarrow> ctx \<Rightarrow> uuid \<Rightarrow> ('s, APIKey) act" where
  "GetAPIKey pg c kid s =
     (case retry (Some (pg_SelectAPIKey pg c kid)) s of
        (s1, Err e) \<Rightarrow>
          (s1, Err (if e = ErrNoRows then ErrNotFound
                    else Wrapf ''error getting api key by id: '' e))
      | (s1, Panic m) \<Rightarrow> (s1, Panic m)
      | (s1, Ok k) \<Rightarrow> (s1, Ok k))"

definition DeleteAPIKey :: "'s PGServer \<Rightarrow> ctx \<Rightarrow> uuid \<Rightarrow> ('s, unit) act" where
  "DeleteAPIKey pg c kid s = pg_Exec pg c (DeleteAPIKeyStmt kid) s"

text \<open>The method set, with others active only at the points the blocking calls name.\<close>

definition pgDL :: "'s PGServer \<Rightarrow> 's DataLayer" where
  "pgDL pg =
     \<lparr>dl_CreateBuild = CreateBuild pg,
      dl_GetBuildByID = GetBuildByID pg,
      dl_ListBuilds = ListBuilds pg,
      dl_SetBuildCompletedTimestamp = SetBuildCompletedTimestamp pg,
      dl_SetBuildStatus = SetBuildStatus pg,
      dl_DeleteBuild = DeleteBuild pg,
      dl_CancelBuild = CancelBuild (\<lambda>s. s) pg,
      dl_ListenForCancellation = ListenForCancellation pg,
      dl_ListenForBuildEvents = ListenForBuildEvents pg,
      dl_AddEvent = AddEvent (\<lambda>s. s) pg,
      dl_SetBuildAsRunning = SetBuildAsRunning pg,
      dl_ListenForBuildRunning = ListenForBuildRunning pg,
      dl_SetBuildAsCompleted = SetBuildAsCompleted pg,
      dl_ListenForBuildCompleted = ListenForBuildCompleted pg,
      dl_CreateAPIKey = CreateAPIKey pg,
      dl_GetAPIKey = GetAPIKey pg,
      dl_DeleteAPIKey = DeleteAPIKey pg\<rparr>"

section \<open>Lemmas on retry\<close>

text \<open>What \<^verbatim>\<open>retry\<close> returns is what its last call returned, or the error that the tries are used up.\<close>

lemma retry_loop_last:
  assumes "\<forall>s s' r. P s \<and> f s = (s', r) \<longrightarrow> P s'" "P s" "retry_loop n err f s = (s', r)"
  shows "P s' \<and> ((\<exists>s0. P s0 \<and> f s0 = (s', r)) \<or> (\<exists>e. r = Err (Wrapf ''retries exceeded: '' e)))"
  using assms(2,3)
proof (induction n arbitrary: s err)
  case 0
  then show ?case by auto
next
  case (Suc n)
  obtain s1 r1 where f: "f s = (s1, r1)" by (cases "f s")
  with assms(1) Suc.prems(1) have P1: "P s1" by blast
  consider "(s', r) = (s1, r1)" | err' where "retry_loop n err' f s1 = (s', r)"
  proof (cases r1)
    case (Err e)
    with Suc.prems(2) f that show ?thesis by (cases e) (auto split: if_splits)
  qed (use Suc.prems(2) f that in auto)
  then show ?case
  proof cases
    case 1
    with f P1 Suc.prems(1) show ?thesis by auto
  next
    case 2
    show ?thesis by (rule Suc.IH [OF P1 2])
  qed
qed

lemma retry_last:
  assumes "\<forall>s s' r. P s \<and> f s = (s', r) \<longrightarrow> P s'" "P s" "retry (Some f) s = (s', r)"
  shows "P s' \<and> ((\<exists>s0. P s0 \<and> f s0 = (s', r)) \<or> (\<exists>e. r = Err (Wrapf ''retries exceeded: '' e)))"
  using retry_loop_last [OF assms(1,2)] assms(3) unfolding retry_def option.case by blast

text \<open>A first call that succeeds, or fails with an error that is no network error, is final.\<close>

lemma retry_first:
  "f s = (s', Ok x) \<Longrightarrow> retry (Some f) s = (s', Ok x)"
  "f s = (s', Err ErrNoRows) \<Longrightarrow> retry (Some f) s = (s', Err ErrNoRows)"
  by (simp_all add: retry_def retries_def numeral_eq_Suc)

section \<open>Literals and channel names\<close>

lemma lit_body_Cons:
  "c \<noteq> CHR 39 \<Longrightarrow> cs \<noteq> [] \<Longrightarrow> lit_body (c # cs) = map_option ((#) c) (lit_body cs)"
  by (cases cs) auto

lemma lit_body_quote: "lit_body (ReplaceAll str (CHR 39) [CHR 39, CHR 39] @ [CHR 39]) = Some str"
  by (induction str) (simp_all add: str_simps lit_body_Cons)

text \<open>A quoted string is one literal, whatever its text, and stands for that text.\<close>

lemma parse_quoteString: "parse_lit (quoteString str) = Some str"
  by (simp add: quoteString_def lit_body_quote)

lemma lit_body_plain: "CHR 39 \<notin> set p \<Longrightarrow> lit_body (p @ [CHR 39]) = Some p"
  by (induction p) (auto simp: lit_body_Cons)

lemma parse_lit_plain: "CHR 39 \<notin> set p \<Longrightarrow> parse_lit ([CHR 39] @ p @ [CHR 39]) = Some p"
  by (simp add: lit_body_plain)

lemma uuid_hex_no_dash: "CHR ''-'' \<notin> set (uuid_hex u)" "CHR ''_'' \<notin> set (uuid_hex u)"
proof -
  have "\<forall>d \<in> {..<16}. hex_digit d \<noteq> CHR ''-'' \<and> hex_digit d \<noteq> CHR ''_''" by code_simp
  then show "CHR ''-'' \<notin> set (uuid_hex u)" "CHR ''_'' \<notin> set (uuid_hex u)"
    using nibbles_lt by (force simp: uuid_hex_def)+
qed

lemma ReplaceAll_other: "c \<notin> set s \<Longrightarrow> ReplaceAll s c r = s"
  by (induction s) (auto simp: str_simps)

text \<open>Replacing the dashes of an identifier loses nothing.\<close>

lemma uuid_underscores:
  "ReplaceAll (ReplaceAll (uuid_String u) CHR ''-'' ''_'') CHR ''_'' ''-'' = uuid_String u"
proof -
  have no: "CHR ''-'' \<notin> set (take a (drop b (uuid_hex u)))" "CHR ''_'' \<notin> set (take a (drop b (uuid_hex u)))"
    "CHR ''-'' \<notin> set (drop b (uuid_hex u))" "CHR ''_'' \<notin> set (drop b (uuid_hex u))"
    "CHR ''-'' \<notin> set (take a (uuid_hex u))" "CHR ''_'' \<notin> set (take a (uuid_hex u))" for a b
    using uuid_hex_no_dash [of u] by (meson in_set_takeD in_set_dropD)+
  show ?thesis
    by (simp add: uuid_String_def Let_def ReplaceAll_append ReplaceAll_Cons ReplaceAll_other no)
qed

lemma uuid_underscores_inject:
  "ReplaceAll (uuid_String u) CHR ''-'' ''_'' = ReplaceAll (uuid_String v) CHR ''-'' ''_'' \<longleftrightarrow> u = v"
  by (metis uuid_underscores uuid_String_inject)

section \<open>Properties\<close>

text \<open>
  C12: whatever text an event has, \<^verbatim>\<open>quoteString\<close> makes it one complete literal that the server
  reads back as that text, so that no event can change the \<^verbatim>\<open>NOTIFY\<close> statement it is sent with.
\<close>

theorem event_literal_safe:
  "parse_lit (quoteString str) = Some str \<and> (quoteString str = quoteString str' \<longleftrightarrow> str = str')"
  by (metis option.inject parse_quoteString)

lemma length_ReplaceAll_single: "length (ReplaceAll s c [d]) = length s"
  by (induction s) (simp_all add: str_simps)

text \<open>
  The notification channels of a build: each of the four kinds has a name of its own for each
  build, names of different kinds never meet, and none is cut by the server's limit of 63 bytes.
\<close>

theorem channel_names_distinct:
  "(pgChanFromID a = pgChanFromID b \<longleftrightarrow> a = b) \<and> (pgCxlChanFromID a = pgCxlChanFromID b \<longleftrightarrow> a = b)
   \<and> (pgRunChanFromID a = pgRunChanFromID b \<longleftrightarrow> a = b)
   \<and> (pgCompletedChanFromID a = pgCompletedChanFromID b \<longleftrightarrow> a = b)
   \<and> distinct [pgChanFromID a, pgCxlChanFromID b, pgRunChanFromID c, pgCompletedChanFromID d]
   \<and> list_all (\<lambda>ch. length ch \<le> 63) [pgChanFromID a, pgCxlChanFromID a, pgRunChanFromID a, pgCompletedChanFromID a]"
  by (simp add: pgChanFromID_def pgCxlChanFromID_def pgRunChanFromID_def pgCompletedChanFromID_def
      uuid_underscores_inject length_ReplaceAll_single)

lemma retry_loop_run:
  assumes "\<And>i. i < k \<Longrightarrow> f (st i) = (st (Suc i), Err (OpError (to i) (tmp i) (m i))) \<and> (to i \<or> tmp i)"
    and "f (st k) = (s', r)" "\<And>to tmp m. r = Err (OpError to tmp m) \<Longrightarrow> \<not> to \<and> \<not> tmp" "k < n"
  shows "retry_loop n err f (st 0) = (s', r)"
  using assms
proof (induction n arbitrary: k st to tmp m err)
  case (Suc n)
  show ?case
  proof (cases k)
    case 0
    show ?thesis
    proof (cases r)
      case (Err e)
      then show ?thesis using Suc.prems(2,3) 0 by (cases e) auto
    qed (use Suc.prems(2) 0 in auto)
  next
    case (Suc k')
    from Suc.prems(1) [of 0] Suc have first: "f (st 0) = (st 1, Err (OpError (to 0) (tmp 0) (m 0)))" "to 0 \<or> tmp 0"
      by auto
    have "retry_loop n (OpError (to 0) (tmp 0) (m 0)) f (st (Suc 0)) = (s', r)"
      using Suc.prems Suc
      by (intro Suc.IH [of k' "\<lambda>i. st (Suc i)" "\<lambda>i. to (Suc i)" "\<lambda>i. tmp (Suc i)" "\<lambda>i. m (Suc i)"]) auto
    with first show ?thesis by auto
  qed
qed simp

text \<open>
  C34: \<^verbatim>\<open>retry\<close> passes over up to four temporary network errors: the first call that succeeds, or
  fails with another error, gives the result, and the function is not called again.
\<close>

theorem retry_outcome:
  assumes "\<And>i. i < k \<Longrightarrow> f (st i) = (st (Suc i), Err (OpError (to i) (tmp i) (m i))) \<and> (to i \<or> tmp i)"
    and "f (st k) = (s', r)" "\<And>to tmp m. r = Err (OpError to tmp m) \<Longrightarrow> \<not> to \<and> \<not> tmp" "k < 5"
  shows "retry (Some f) (st 0) = (s', r)"
  unfolding retry_def retries_def option.case
  by (rule retry_loop_run [where st = st and k = k and to = to and tmp = tmp and m = m]) (fact assms)+

theorem retry_outcome_witness:
  "retry (Some (\<lambda>n :: nat. (Suc n, if n < 4 then Err (OpError True False ''timeout'') else Ok n))) 0 = (5, Ok 4)"
  by (rule retry_outcome [of 4 _ "\<lambda>i. i" "\<lambda>_. True" "\<lambda>_. False" "\<lambda>_. ''timeout''"]) auto

end
