(* ===== verification/Furan_PgService.thy ===== *)
theory Furan_PgService
  imports Furan_Postgres
begin

text \<open>
  What \<^verbatim>\<open>PostgresDBLayer\<close> relies on of the database server, as the locale \<open>pg_service\<close> (and
  \<open>pg_up\<close> for a server that answers), and that over every such server the operations of
  \<open>Furan_Postgres\<close> implement the contract of a data layer.  The schema is that of
  \<^verbatim>\<open>migrations/0001_initial.up.sql\<close>: two tables with a primary key each and a trigger that sets
  \<^verbatim>\<open>updated\<close> on every update of a build.  \<open>refPG\<close> is a reference server in memory that satisfies
  the laws; it is used to evaluate the operations on concrete inputs.
\<close>

section \<open>Tables and the effect of a statement\<close>

record tables =
  t_builds :: "uuid \<rightharpoonup> brow"
  t_keys :: "uuid \<rightharpoonup> APIKey"

definition inserted :: "gotime \<Rightarrow> uuid \<Rightarrow> Build \<Rightarrow> BuildStatus \<Rightarrow> brow" where
  "inserted now bid b st =
     (b\<lparr>b_ID := bid, b_Created := now, b_Updated := zero_time, b_Completed := zero_time,
        b_Status := st, b_Events := []\<rparr>, None, None)"

definition update_build :: "gotime \<Rightarrow> uuid \<Rightarrow> (Build \<times> gotime option \<Rightarrow> Build \<times> gotime option)
    \<Rightarrow> tables \<Rightarrow> tables" where
  "update_build now bid f T =
     (case t_builds T bid of
        None \<Rightarrow> T
      | Some (b, upd, cmp) \<Rightarrow>
          (case f (b, cmp) of (b', cmp') \<Rightarrow>
             T\<lparr>t_builds := (t_builds T)(bid \<mapsto> (b', Some now, cmp'))\<rparr>))"

text \<open>The tables after a statement; \<open>None\<close> when it violates a primary key.\<close>

primrec apply_stmt :: "gotime \<Rightarrow> stmt \<Rightarrow> tables \<Rightarrow> tables option" where
  "apply_stmt now (InsertBuild bid b st) T =
     (if t_builds T bid \<noteq> None then None
      else Some (T\<lparr>t_builds := (t_builds T)(bid \<mapsto> inserted now bid b st)\<rparr>))"
| "apply_stmt now (UpdateCompleted t bid) T =
     Some (update_build now bid (\<lambda>(b, cmp). (b, Some t)) T)"
| "apply_stmt now (UpdateStatus st bid) T =
     Some (update_build now bid (\<lambda>(b, cmp). (b\<lparr>b_Status := st\<rparr>, cmp)) T)"
| "apply_stmt now (UpdateStatusCompleted st t bid) T =
     Some (update_build now bid (\<lambda>(b, cmp). (b\<lparr>b_Status := st\<rparr>, Some t)) T)"
| "apply_stmt now (AppendEvent e bid) T =
     Some (update_build now bid (\<lambda>(b, cmp). (b\<lparr>b_Events := b_Events b @ [e]\<rparr>, cmp)) T)"
| "apply_stmt now (DeleteBuildStmt bid) T =
     Some (T\<lparr>t_builds := (t_builds T)(bid := None)\<rparr>)"
| "apply_stmt now (InsertAPIKey kid k) T =
     (if t_keys T kid \<noteq> None then None
      else Some (T\<lparr>t_keys := (t_keys T)(kid \<mapsto> k\<lparr>ak_ID := kid, ak_Created := now\<rparr>)\<rparr>))"
| "apply_stmt now (SeedAPIKey kid n d) T =
     Some (if t_keys T kid \<noteq> None then T
           else T\<lparr>t_keys := (t_keys T)(kid \<mapsto>
                  \<lparr>ak_ID = kid, ak_Created = now, ak_GitHubUser = [], ak_Name = n,
                   ak_Description = d, ak_ReadOnly = False\<rparr>)\<rparr>)"
| "apply_stmt now (DeleteAPIKeyStmt kid) T = Some (T\<lparr>t_keys := (t_keys T)(kid := None)\<rparr>)"
| "apply_stmt now (Notify ch lit) T = Some T"

fun apply_stmts :: "gotime \<Rightarrow> stmt list \<Rightarrow> tables \<Rightarrow> tables option" where
  "apply_stmts now [] T = Some T"
| "apply_stmts now (st # sts) T =
     (case apply_stmt now st T of None \<Rightarrow> None | Some T' \<Rightarrow> apply_stmts now sts T')"

text \<open>SQL conditions: a comparison with NULL is not true.\<close>

fun col_value :: "sqlcol \<Rightarrow> brow \<Rightarrow> sqlval option" where
  "col_value col_github_repo (b, upd, cmp) = Some (VText (b_GitHubRepo b))"
| "col_value col_github_ref (b, upd, cmp) = Some (VText (b_GitHubRef b))"
| "col_value col_image_repos (b, upd, cmp) = None"
| "col_value col_status (b, upd, cmp) = Some (VInt (b_Status b))"
| "col_value col_completed (b, upd, cmp) = map_option VTime cmp"
| "col_value col_created (b, upd, cmp) = Some (VTime (b_Created b))"

definition arg :: "sqlval list \<Rightarrow> nat \<Rightarrow> sqlval option" where
  "arg args n = (if 1 \<le> n \<and> n \<le> length args then Some (args ! (n - 1)) else None)"

fun sql_le :: "sqlval option \<Rightarrow> sqlval option \<Rightarrow> bool" where
  "sql_le (Some (VTime t)) (Some (VTime u)) = (t \<le> u)"
| "sql_le (Some (VInt i)) (Some (VInt j)) = (i \<le> j)"
| "sql_le _ _ = False"

definition sql_eq :: "sqlval option \<Rightarrow> sqlval option \<Rightarrow> bool" where
  "sql_eq v w \<longleftrightarrow> v \<noteq> None \<and> v = w"

primrec cond_holds :: "sqlval list \<Rightarrow> brow \<Rightarrow> sqlcond \<Rightarrow> bool" where
  "cond_holds args r (ColEq c n) = sql_eq (col_value c r) (arg args n)"
| "cond_holds args r (AnyIn n c) =
     (c = col_image_repos \<and> (\<exists>x \<in> set (b_ImageRepos (fst r)). arg args n = Some (VText x)))"
| "cond_holds args r (ColGe c n) = sql_le (arg args n) (col_value c r)"
| "cond_holds args r (ColLt c n) =
     (sql_le (col_value c r) (arg args n) \<and> col_value c r \<noteq> arg args n)"

definition row_matches :: "sqlcond list \<Rightarrow> sqlval list \<Rightarrow> brow \<Rightarrow> bool" where
  "row_matches cs args r \<longleftrightarrow> (\<forall>c \<in> set cs. cond_holds args r c)"

text \<open>Statements with a bounded notification, a declared status and no text of a user, which a live server accepts.\<close>

primrec plain_stmt :: "stmt \<Rightarrow> bool" where
  "plain_stmt (InsertBuild bid b st) = False"
| "plain_stmt (UpdateCompleted t bid) = True"
| "plain_stmt (UpdateStatus st bid) = known_status st"
| "plain_stmt (UpdateStatusCompleted st t bid) = known_status st"
| "plain_stmt (AppendEvent e bid) = False"
| "plain_stmt (DeleteBuildStmt bid) = True"
| "plain_stmt (InsertAPIKey kid k) = False"
| "plain_stmt (SeedAPIKey kid n d) = False"
| "plain_stmt (DeleteAPIKeyStmt kid) = True"
| "plain_stmt (Notify ch lit) = (length lit < 8000 \<and> parse_lit lit \<noteq> None)"

section \<open>The laws\<close>

text \<open>
  Every statement outside a transaction, and every transaction, takes effect once or not at all;
  it has taken effect when the call succeeds, and may have when it fails (the answer was lost).
  Selects return what the tables hold.
\<close>

locale pg_service =
  fixes pg :: "'s PGServer"
    and tabs :: "'s \<Rightarrow> tables"
    and inv :: "'s \<Rightarrow> bool"
  assumes exec_law:
    "inv s \<Longrightarrow> pg_Exec pg c st s = (s', r) \<Longrightarrow>
       inv s' \<and> (\<forall>m. r \<noteq> Panic m)
       \<and> (r = Ok () \<longrightarrow> (\<exists>now. apply_stmt now st (tabs s) = Some (tabs s')))
       \<and> (tabs s' = tabs s \<or> (\<exists>now. apply_stmt now st (tabs s) = Some (tabs s')))"
  and select_law:
    "inv s \<Longrightarrow> pg_SelectBuild pg c bid s = (s', rb) \<Longrightarrow>
       inv s' \<and> tabs s' = tabs s \<and> (\<forall>m. rb \<noteq> Panic m)
       \<and> (\<forall>row. rb = Ok row \<longrightarrow> t_builds (tabs s) bid = Some row)
       \<and> (rb = Err ErrNoRows \<longrightarrow> t_builds (tabs s) bid = None)
       \<and> rb \<noteq> Err ErrNotFound"
  and selectkey_law:
    "inv s \<Longrightarrow> pg_SelectAPIKey pg c bid s = (s', rk) \<Longrightarrow>
       inv s' \<and> tabs s' = tabs s \<and> (\<forall>m. rk \<noteq> Panic m)
       \<and> (\<forall>k. rk = Ok k \<longrightarrow> t_keys (tabs s) bid = Some k)"
  and query_law:
    "inv s \<Longrightarrow> pg_Query pg c cs lim args s = (s', rq) \<Longrightarrow>
       inv s' \<and> tabs s' = tabs s
       \<and> (\<forall>rows. rq = Ok (map Ok rows) \<longrightarrow>
            distinct rows
            \<and> set rows \<subseteq> {r \<in> ran (t_builds (tabs s)). row_matches cs args r}
            \<and> (case lim of
                 None \<Rightarrow> set rows = {r \<in> ran (t_builds (tabs s)). row_matches cs args r}
               | Some n \<Rightarrow> length rows =
                   min (unat n) (card {r \<in> ran (t_builds (tabs s)). row_matches cs args r})))
       \<and> (cs = [] \<longrightarrow> (\<exists>e. rq = Err e))"
  and begin_law:
    "inv s \<Longrightarrow> pg_Begin pg c s = (s', r) \<Longrightarrow> inv s' \<and> tabs s' = tabs s \<and> (\<forall>m. r \<noteq> Panic m)"
  and txexec_law:
    "inv s \<Longrightarrow> pg_TxExec pg c sts st s = (s', r) \<Longrightarrow>
       inv s' \<and> tabs s' = tabs s \<and> (\<forall>m. r \<noteq> Panic m)"
  and commit_law:
    "inv s \<Longrightarrow> pg_Commit pg c sts s = (s', r) \<Longrightarrow>
       inv s' \<and> (\<forall>m. r \<noteq> Panic m)
       \<and> (r = Ok () \<longrightarrow> (\<exists>now. apply_stmts now sts (tabs s) = Some (tabs s')))
       \<and> (tabs s' = tabs s \<or> (\<exists>now. apply_stmts now sts (tabs s) = Some (tabs s')))"
  and rollback_law: "inv s \<Longrightarrow> inv (pg_Rollback pg c s) \<and> tabs (pg_Rollback pg c s) = tabs s"
  and newv4_law: "inv s \<Longrightarrow> pg_NewV4 pg s = (s', ru) \<Longrightarrow> inv s' \<and> tabs s' = tabs s"
  and rows_wf: "inv s \<Longrightarrow> t_builds (tabs s) bid = Some row \<Longrightarrow> b_ID (fst row) = bid"

locale pg_up = pg_service pg tabs inv
  for pg :: "'s PGServer" and tabs inv +
  fixes up :: "'s \<Rightarrow> bool"
  assumes up_select:
    "inv s \<Longrightarrow> up s \<Longrightarrow>
       (case t_builds (tabs s) bid of
          Some row \<Rightarrow> \<exists>s'. pg_SelectBuild pg Active bid s = (s', Ok row) \<and> up s'
        | None \<Rightarrow> \<exists>s'. pg_SelectBuild pg Active bid s = (s', Err ErrNoRows) \<and> up s')"
  and up_begin: "inv s \<Longrightarrow> up s \<Longrightarrow> \<exists>s'. pg_Begin pg Active s = (s', Ok ()) \<and> up s'"
  and up_txexec:
    "inv s \<Longrightarrow> up s \<Longrightarrow> plain_stmt st \<Longrightarrow> \<exists>s'. pg_TxExec pg Active sts st s = (s', Ok ()) \<and> up s'"
  and up_commit:
    "inv s \<Longrightarrow> up s \<Longrightarrow> list_all plain_stmt sts \<Longrightarrow>
       \<exists>s'. pg_Commit pg Active sts s = (s', Ok ()) \<and> up s'"
  and up_kept:
    "up s \<Longrightarrow> pg_Begin pg c s = (s', r) \<Longrightarrow> up s'"
    "up s \<Longrightarrow> pg_TxExec pg c sts st s = (s', r) \<Longrightarrow> up s'"
    "up s \<Longrightarrow> pg_Commit pg c sts s = (s', r) \<Longrightarrow> up s'"
    "up s \<Longrightarrow> pg_SelectBuild pg c bid s = (s', rb) \<Longrightarrow> up s'"
    "up s \<Longrightarrow> up (pg_Rollback pg c s)"

section \<open>The view of the tables\<close>

definition tab_view :: "tables \<Rightarrow> store" where
  "tab_view T bid = map_option (\<lambda>r. erase (fst r)) (t_builds T bid)"

lemma erase_out_build [simp]: "erase (out_build r) = erase (fst r)"
  by (cases r) (simp add: out_build_def split: option.splits)

lemma out_build_status [simp]: "b_Status (out_build r) = b_Status (fst r)"
  by (metis erase_fields(2) erase_out_build)

lemma tab_view_update_build:
  assumes "\<And>b cmp. erase (fst (f (b, cmp))) = g (erase b)"
  shows "tab_view (update_build now bid f T) i =
    (if i = bid then map_option g (tab_view T bid) else tab_view T i)"
  using assms
  by (auto simp: tab_view_def update_build_def split: option.splits prod.splits) (metis fst_conv)+

lemma update_build_keys [simp]: "t_keys (update_build now bid f T) = t_keys T"
  by (auto simp: update_build_def split: option.splits prod.splits)

lemma view_UpdateStatus:
  "tab_view (update_build now bid (\<lambda>(b, cmp). (b\<lparr>b_Status := st\<rparr>, cmp)) T)
     = set_status (tab_view T) bid st"
  by (rule ext)
    (subst tab_view_update_build [where g = "\<lambda>b. b\<lparr>b_Status := st\<rparr>"], simp_all add: set_status_apply)

lemma view_UpdateStatusCompleted:
  "tab_view (update_build now bid (\<lambda>(b, cmp). (b\<lparr>b_Status := st\<rparr>, Some t)) T)
     = set_status (tab_view T) bid st"
  by (rule ext)
    (subst tab_view_update_build [where g = "\<lambda>b. b\<lparr>b_Status := st\<rparr>"], simp_all add: set_status_apply)

lemma view_AppendEvent:
  "tab_view (update_build now bid (\<lambda>(b, cmp). (b\<lparr>b_Events := b_Events b @ [e]\<rparr>, cmp)) T)
     = push_event (tab_view T) bid e"
  by (rule ext)
    (subst tab_view_update_build [where g = "\<lambda>b. b\<lparr>b_Events := b_Events b @ [e]\<rparr>"],
      simp_all add: push_event_apply)

lemmas view_updates = view_UpdateStatus view_UpdateStatusCompleted view_AppendEvent

section \<open>The operations implement a data layer\<close>

context pg_service
begin

abbreviation view :: "'s \<Rightarrow> store" where
  "view s \<equiv> tab_view (tabs s)"

abbreviation keys :: "'s \<Rightarrow> uuid \<rightharpoonup> APIKey" where
  "keys s \<equiv> t_keys (tabs s)"

lemma get_result:
  assumes "inv s" "GetBuildByID pg c bid s = (s', r)"
  shows "inv s' \<and> tabs s' = tabs s
    \<and> (\<forall>b. r = Ok b \<longrightarrow> (\<exists>row. t_builds (tabs s) bid = Some row \<and> b = out_build row))
    \<and> (r = Err ErrNotFound \<longrightarrow> t_builds (tabs s) bid = None) \<and> (\<forall>m. r \<noteq> Panic m)"
proof -
  let ?P = "\<lambda>s1. inv s1 \<and> tabs s1 = tabs s"
  obtain s1 r1 where r1: "retry (Some (pg_SelectBuild pg c bid)) s = (s1, r1)" by fastforce
  have step: "\<forall>t t' q. ?P t \<and> pg_SelectBuild pg c bid t = (t', q) \<longrightarrow> ?P t'"
    using select_law by metis
  have "?P s" using assms(1) by simp
  from retry_last [OF step this r1]
  consider s0 where "?P s0" "pg_SelectBuild pg c bid s0 = (s1, r1)" | e
    where "?P s1" "r1 = Err (Wrapf ''retries exceeded: '' e)" by blast
  then show ?thesis
  proof cases
    case 1
    with select_law [of s0 c bid s1 r1] r1 assms(2) show ?thesis
      by (cases r1) (auto simp: GetBuildByID_def split: if_splits)
  next
    case 2
    with r1 assms(2) show ?thesis by (auto simp: GetBuildByID_def)
  qed
qed

lemma getkey_result:
  assumes "inv s" "GetAPIKey pg c kid s = (s', r)"
  shows "inv s' \<and> tabs s' = tabs s
    \<and> (\<forall>k. r = Ok k \<longrightarrow> t_keys (tabs s) kid = Some k) \<and> (\<forall>m. r \<noteq> Panic m)"
proof -
  let ?P = "\<lambda>s1. inv s1 \<and> tabs s1 = tabs s"
  obtain s1 r1 where r1: "retry (Some (pg_SelectAPIKey pg c kid)) s = (s1, r1)" by fastforce
  have step: "\<forall>t t' q. ?P t \<and> pg_SelectAPIKey pg c kid t = (t', q) \<longrightarrow> ?P t'"
    using selectkey_law by metis
  have "?P s" using assms(1) by simp
  from retry_last [OF step this r1]
  consider s0 where "?P s0" "pg_SelectAPIKey pg c kid s0 = (s1, r1)" | e
    where "?P s1" "r1 = Err (Wrapf ''retries exceeded: '' e)" by blast
  then show ?thesis
  proof cases
    case 1
    with selectkey_law [of s0 c kid s1 r1] r1 assms(2) show ?thesis
      by (cases r1) (auto simp: GetAPIKey_def split: if_splits)
  next
    case 2
    with r1 assms(2) show ?thesis by (auto simp: GetAPIKey_def)
  qed
qed

text \<open>A transaction is applied once or not at all, and has been applied when the call succeeds.\<close>

lemma txn_body_result:
  assumes "inv s" "txn_body pg c m1 st1 m2 st2 s = (s', r)"
  shows "inv s' \<and> (\<forall>m. r \<noteq> Panic m)
    \<and> (r = Ok () \<longrightarrow> (\<exists>now. apply_stmts now [st1, st2] (tabs s) = Some (tabs s')))
    \<and> (tabs s' = tabs s \<or> (\<exists>now. apply_stmts now [st1, st2] (tabs s) = Some (tabs s')))"
proof -
  obtain s1 r1 where 1: "pg_TxExec pg c [] st1 s = (s1, r1)" by fastforce
  note l1 = txexec_law [OF assms(1) 1]
  obtain s2 r2 where 2: "pg_TxExec pg c [st1] st2 s1 = (s2, r2)" by fastforce
  have l2: "inv s2 \<and> tabs s2 = tabs s \<and> (\<forall>m. r2 \<noteq> Panic m)" using txexec_law [OF _ 2] l1 by simp
  obtain s3 r3 where 3: "pg_Commit pg c [st1, st2] s2 = (s3, r3)" by fastforce
  have l3: "inv s3 \<and> (\<forall>m. r3 \<noteq> Panic m)
      \<and> (r3 = Ok () \<longrightarrow> (\<exists>now. apply_stmts now [st1, st2] (tabs s) = Some (tabs s3)))
      \<and> (tabs s3 = tabs s \<or> (\<exists>now. apply_stmts now [st1, st2] (tabs s) = Some (tabs s3)))"
    using commit_law [OF _ 3] l2 by simp
  from assms(2) 1 2 3 have "(s', r) = (s3, r3) \<or> (\<exists>e. s' = s3 \<and> r3 = Err e \<and> r = Err (Wrapf ''error committing txn: '' e))
      \<or> (\<exists>e. r = Err e) \<and> s' \<in> {s1, s2}"
    using l1 l2 l3 by (cases r1; cases r2; cases r3) (auto simp: txn_body_def)
  with l1 l2 l3 show ?thesis by auto
qed

lemma txn_result:
  assumes "inv s" "txn pg c m1 st1 m2 st2 s = (s', r)"
  shows "inv s' \<and> (\<forall>m. r \<noteq> Panic m)
    \<and> (r = Ok () \<longrightarrow> (\<exists>now. apply_stmts now [st1, st2] (tabs s) = Some (tabs s')))
    \<and> (tabs s' = tabs s \<or> (\<exists>now. apply_stmts now [st1, st2] (tabs s) = Some (tabs s')))"
proof -
  obtain s1 r1 where 1: "pg_Begin pg c s = (s1, r1)" by fastforce
  note l1 = begin_law [OF assms(1) 1]
  obtain s2 r2 where 2: "txn_body pg c m1 st1 m2 st2 s1 = (s2, r2)" by fastforce
  note l2 = txn_body_result [OF conjunct1 [OF l1] 2]
  from assms(2) 1 2 l1
  have "(s', r) = (pg_Rollback pg c s2, r2) \<or> (\<exists>e. r = Err e) \<and> s' = s1"
    by (cases r1) (auto simp: txn_def)
  with l1 l2 rollback_law [of s2 c] show ?thesis by auto
qed

lemma txn_view:
  assumes "inv s" "txn pg c m1 st1 m2 (Notify ch lit) s = (s', r)"
    and "\<And>now T. \<exists>T'. apply_stmt now st1 T = Some T' \<and> tab_view T' = g (tab_view T)
            \<and> t_keys T' = t_keys T"
  shows "inv s' \<and> keys s' = keys s \<and> (\<forall>m. r \<noteq> Panic m)
    \<and> (view s' = view s \<or> view s' = g (view s)) \<and> (r = Ok () \<longrightarrow> view s' = g (view s))"
proof -
  have "apply_stmts now [st1, Notify ch lit] (tabs s) = Some (tabs s') \<Longrightarrow>
      view s' = g (view s) \<and> keys s' = keys s" for now
    using assms(3) [of now "tabs s"] by auto
  with txn_result [OF assms(1,2)] show ?thesis by auto
qed

lemma SetBuildAsCompleted_txn:
  assumes "TerminalState st"
  shows "\<exists>t. SetBuildAsCompleted pg c bid st s =
    txn pg c ''error setting status: '' (UpdateStatusCompleted st t bid)
      ''error notifying channel: ''
      (Notify (pgCompletedChanFromID bid) ([CHR 39] @ itoa st @ [CHR 39])) s"
  using assms
  by (intro exI [of _ "ts_param (pg_Now pg (fst (pg_Begin pg c s)))"])
    (auto simp: SetBuildAsCompleted_def txn_def split: prod.splits go.splits)

lemma event_result:
  assumes "inv s" "AddEvent (\<lambda>s. s) pg c bid e s = (s', r)"
  shows "inv s' \<and> keys s' = keys s \<and> (\<forall>m. r \<noteq> Panic m)
    \<and> (view s' = view s \<or> view s' = push_event (view s) bid e)
    \<and> (r = Ok () \<longrightarrow> view s' = push_event (view s) bid e)"
proof -
  obtain s1 r1 where 1: "GetBuildByID pg c bid s = (s1, r1)" by fastforce
  note l1 = get_result [OF assms(1) 1]
  let ?t = "txn pg c ''error appending event: '' (AppendEvent e bid)
      ''error notifying channel: '' (Notify (pgChanFromID bid) (quoteString e)) s1"
  from assms(2) 1 l1 have "(s', r) = ?t \<or> s' = s1 \<and> (\<exists>e. r = Err e)"
    by (cases r1) (auto simp: AddEvent_def split: if_splits)
  then show ?thesis
  proof
    assume t: "(s', r) = ?t"
    from txn_view [OF conjunct1 [OF l1] t [symmetric], of "\<lambda>m. push_event m bid e"] l1
    show ?thesis by (simp add: view_updates)
  qed (use l1 in auto)
qed

lemma running_result:
  assumes "inv s" "SetBuildAsRunning pg c bid s = (s', r)"
  shows "inv s' \<and> keys s' = keys s \<and> (\<forall>m. r \<noteq> Panic m)
    \<and> (view s' = view s \<or> view s' = set_status (view s) bid BuildStatusRunning)
    \<and> (r = Ok () \<longrightarrow> view s' = set_status (view s) bid BuildStatusRunning)"
  using txn_view [OF assms(1) assms(2) [unfolded SetBuildAsRunning_def],
      of "\<lambda>m. set_status m bid BuildStatusRunning"]
  by (simp add: view_updates)

lemma completed_result:
  assumes "inv s" "TerminalState st" "SetBuildAsCompleted pg c bid st s = (s', r)"
  shows "inv s' \<and> keys s' = keys s \<and> (\<forall>m. r \<noteq> Panic m)
    \<and> (view s' = view s \<or> view s' = set_status (view s) bid st)
    \<and> (r = Ok () \<longrightarrow> view s' = set_status (view s) bid st)"
proof -
  from SetBuildAsCompleted_txn [OF assms(2)] assms(3) obtain t
    where "txn pg c ''error setting status: '' (UpdateStatusCompleted st t bid)
      ''error notifying channel: ''
      (Notify (pgCompletedChanFromID bid) ([CHR 39] @ itoa st @ [CHR 39])) s = (s', r)" by metis
  from txn_view [OF assms(1) this, of "\<lambda>m. set_status m bid st"] show ?thesis
    by (simp add: view_updates)
qed

text \<open>
  \<^verbatim>\<open>CancelBuild\<close> with other clients at work between the look and the transaction (\<open>gap\<close> keeps the
  invariant): the build was running at the look, and the new status is set whatever \<open>gap\<close> did.
\<close>

lemma cancel_result:
  assumes "inv s" "\<And>t. inv t \<Longrightarrow> inv (gap t)" "CancelBuild gap pg c bid s = (s', r)"
  shows "inv s' \<and> (r = Ok () \<longrightarrow>
      status_of (view s) bid = Some BuildStatusRunning
      \<and> (\<exists>t. tabs t = tabs s \<and> keys s' = keys (gap t)
           \<and> view s' = set_status (view (gap t)) bid BuildStatusCancelRequested))"
proof -
  obtain s1 r1 where 1: "GetBuildByID pg c bid s = (s1, r1)" by fastforce
  note l1 = get_result [OF assms(1) 1]
  let ?t = "txn pg c ''error cancelling build: '' (UpdateStatus BuildStatusCancelRequested bid)
      ''error notifying cancel channel: ''
      (Notify (pgCxlChanFromID bid) ([CHR 39] @ ''cancel'' @ [CHR 39])) (gap s1)"
  from assms(3) 1 l1
  have "(s', r) = ?t \<and> (\<exists>b. r1 = Ok b \<and> Running b) \<or> s' = s1 \<and> (\<exists>e. r = Err e)"
    by (cases r1) (auto simp: CancelBuild_def split: if_splits)
  then show ?thesis
  proof
    assume t: "(s', r) = ?t \<and> (\<exists>b. r1 = Ok b \<and> Running b)"
    then obtain b where b: "r1 = Ok b" "Running b" by blast
    with l1 have "status_of (view s) bid = Some BuildStatusRunning"
      by (auto simp: status_of_def tab_view_def Running_def)
    moreover from txn_view [OF assms(2) [OF conjunct1 [OF l1]] conjunct1 [OF t, symmetric],
        of "\<lambda>m. set_status m bid BuildStatusCancelRequested"]
    have "inv s' \<and> keys s' = keys (gap s1)
      \<and> (r = Ok () \<longrightarrow> view s' = set_status (view (gap s1)) bid BuildStatusCancelRequested)"
      by (simp add: view_updates)
    ultimately show ?thesis using l1 by auto
  qed (use l1 in auto)
qed

lemma create_result:
  assumes "inv s" "CreateBuild pg c b s = (s', Ok bid)"
  shows "inv s' \<and> keys s' = keys s \<and> view s bid = None
    \<and> (\<exists>b'. created_as b bid b' \<and> b_Events b' = []
          \<and> b_Request b' = b_Request (clear_credential b) \<and> view s' = (view s)(bid \<mapsto> b'))"
proof -
  let ?b = "(clear_credential b)\<lparr>b_BuildOptions := json_opts (b_BuildOptions (clear_credential b))\<rparr>"
  obtain s1 r1 where 1: "pg_NewV4 pg s = (s1, r1)" by fastforce
  note l1 = newv4_law [OF assms(1) 1]
  from assms(2) 1
  have 2: "pg_Exec pg c (InsertBuild bid ?b BuildStatusNotStarted) s1 = (s', Ok ())"
    by (auto simp: CreateBuild_def Let_def split: go.splits prod.splits)
  from exec_law [OF conjunct1 [OF l1] 2] l1 obtain now
    where ap: "apply_stmt now (InsertBuild bid ?b BuildStatusNotStarted) (tabs s) = Some (tabs s')"
      and inv: "inv s'" by auto
  let ?b' = "erase (fst (inserted now bid ?b BuildStatusNotStarted))"
  from ap have "t_builds (tabs s) bid = None"
    by (cases "t_builds (tabs s) bid") simp_all
  moreover from ap have T: "tabs s' = (tabs s)\<lparr>t_builds := (t_builds (tabs s))(bid \<mapsto> inserted now bid ?b BuildStatusNotStarted)\<rparr>"
    by (simp split: if_splits)
  moreover have "view s' = (view s)(bid \<mapsto> ?b')"
    by (rule ext) (simp add: T tab_view_def)
  moreover have "created_as b bid ?b'" "b_Events ?b' = []"
      "b_Request ?b' = b_Request (clear_credential b)"
    by (auto simp: created_as_def inserted_def clear_credential_def json_opts_def split: option.splits)
  ultimately show ?thesis using inv by (auto simp: tab_view_def T)
qed

end

sublocale pg_service \<subseteq> data_layer "pgDL pg" "\<lambda>s. tab_view (tabs s)" "\<lambda>s. t_keys (tabs s)" inv
proof (unfold_locales, goal_cases)
  case (1 s c bid s' r)
  with get_result [of s c bid s' r] rows_wf [of s bid] show ?case
    by (auto simp: pgDL_def tab_view_def) (metis erase_fields(1) erase_out_build fst_conv)
next
  case (2 s c b s' bid)
  with create_result [of s c b s' bid] show ?case by (auto simp: pgDL_def)
next
  case (9 s c bid s')
  with cancel_result [of s "\<lambda>s. s" c bid s' "Ok ()"] show ?case by (auto simp: pgDL_def)
next
  case (10 s c bid s')
  from exec_law [OF 10(1) 10(2) [unfolded pgDL_def DeleteBuild_def DataLayer.simps]]
  have "inv s'" and T: "tabs s' = (tabs s)\<lparr>t_builds := (t_builds (tabs s))(bid := None)\<rparr>"
    by (auto dest: sym)
  then show ?case by (auto simp: T tab_view_def fun_eq_iff)
next
  case (11 s c kid s' r)
  with getkey_result [of s c kid s' r] show ?case by (auto simp: pgDL_def)
qed (auto simp: pgDL_def dest: event_result running_result completed_result)

text \<open>While the server is up the calls succeed.\<close>

context pg_up
begin

lemma up_txn:
  assumes "inv s" "up s" "plain_stmt st1" "plain_stmt st2"
  shows "\<exists>s'. txn pg Active m1 st1 m2 st2 s = (s', Ok ()) \<and> up s'"
proof -
  from up_begin [OF assms(1,2)] obtain s1 where 1: "pg_Begin pg Active s = (s1, Ok ())" "up s1" by blast
  have i1: "inv s1" using begin_law [OF assms(1) 1(1)] by blast
  from up_txexec [OF i1 1(2) assms(3), of "[]"] obtain s2
    where 2: "pg_TxExec pg Active [] st1 s1 = (s2, Ok ())" "up s2" by blast
  have i2: "inv s2" using txexec_law [OF i1 2(1)] by blast
  from up_txexec [OF i2 2(2) assms(4), of "[st1]"] obtain s3
    where 3: "pg_TxExec pg Active [st1] st2 s2 = (s3, Ok ())" "up s3" by blast
  have i3: "inv s3" using txexec_law [OF i2 3(1)] by blast
  from up_commit [OF i3 3(2), of "[st1, st2]"] assms(3,4) obtain s4
    where 4: "pg_Commit pg Active [st1, st2] s3 = (s4, Ok ())" "up s4" by auto
  have "txn pg Active m1 st1 m2 st2 s = (pg_Rollback pg Active s4, Ok ())"
    by (simp add: txn_def txn_body_def 1 2 3 4)
  with up_kept(5) [OF 4(2)] show ?thesis by blast
qed

lemma up_txn_kept:
  assumes "up s" "txn pg c m1 st1 m2 st2 s = (s', r)"
  shows "up s'"
proof -
  obtain s1 r1 where 1: "pg_Begin pg c s = (s1, r1)" by fastforce
  obtain s2 r2 where 2: "pg_TxExec pg c [] st1 s1 = (s2, r2)" by fastforce
  obtain s3 r3 where 3: "pg_TxExec pg c [st1] st2 s2 = (s3, r3)" by fastforce
  obtain s4 r4 where 4: "pg_Commit pg c [st1, st2] s3 = (s4, r4)" by fastforce
  note u1 = up_kept(1) [OF assms(1) 1]
  note u2 = up_kept(2) [OF u1 2]
  note u3 = up_kept(2) [OF u2 3]
  note u4 = up_kept(3) [OF u3 4]
  from assms(2) 1 2 3 4 have "s' \<in> {s1, pg_Rollback pg c s2, pg_Rollback pg c s3, pg_Rollback pg c s4}"
    by (cases r1; cases r2; cases r3; cases r4) (auto simp: txn_def txn_body_def)
  with u1 u2 u3 u4 up_kept(5) show ?thesis by auto
qed

lemma up_retry_kept:
  assumes "up s" "retry (Some (pg_SelectBuild pg c bid)) s = (s', r)"
  shows "up s'"
proof -
  have "\<forall>t t' q. up t \<and> pg_SelectBuild pg c bid t = (t', q) \<longrightarrow> up t'" using up_kept(4) by blast
  from retry_last [OF this assms] show ?thesis by blast
qed

lemma up_get_kept:
  assumes "up s" "GetBuildByID pg c bid s = (s', r)"
  shows "up s'"
proof -
  obtain s1 r1 where 1: "retry (Some (pg_SelectBuild pg c bid)) s = (s1, r1)" by fastforce
  with assms(2) have "s' = s1" by (cases r1) (auto simp: GetBuildByID_def)
  with up_retry_kept [OF assms(1) 1] show ?thesis by simp
qed

lemma up_get:
  assumes "inv s" "up s" "t_builds (tabs s) bid = Some row"
  shows "\<exists>s'. GetBuildByID pg Active bid s = (s', Ok (out_build row)) \<and> up s'"
  using up_select [OF assms(1,2), of bid] assms(3)
  by (auto simp: GetBuildByID_def retry_first)

lemma up_get_none:
  assumes "inv s" "up s" "t_builds (tabs s) bid = None"
  shows "\<exists>s'. GetBuildByID pg Active bid s = (s', Err ErrNotFound) \<and> up s'"
  using up_select [OF assms(1,2), of bid] assms(3)
  by (auto simp: GetBuildByID_def retry_first)

lemma status_literal:
  assumes "TerminalState st"
  shows "plain_stmt (Notify ch ([CHR 39] @ itoa st @ [CHR 39]))"
proof -
  have "itoa 2 = ''2''" "itoa 4 = ''4''" "itoa 5 = ''5''" "itoa 7 = ''7''" by code_simp+
  with assms show ?thesis by (auto simp: TerminalState_def)
qed

lemma up_completed:
  assumes "inv s" "up s" "TerminalState st"
  shows "\<exists>s'. SetBuildAsCompleted pg Active bid st s = (s', Ok ()) \<and> up s'"
proof -
  from SetBuildAsCompleted_txn [OF assms(3)] obtain t where
    "SetBuildAsCompleted pg Active bid st s =
      txn pg Active ''error setting status: '' (UpdateStatusCompleted st t bid)
        ''error notifying channel: ''
        (Notify (pgCompletedChanFromID bid) ([CHR 39] @ itoa st @ [CHR 39])) s" by blast
  then show ?thesis using up_txn [OF assms(1,2) _ status_literal [OF assms(3)]] TerminalState_known [OF assms(3)] by simp
qed

lemma up_cancel:
  assumes "inv s" "up s" "status_of (view s) bid = Some BuildStatusRunning"
  shows "\<exists>s'. CancelBuild (\<lambda>s. s) pg Active bid s = (s', Ok ()) \<and> up s'"
proof -
  from assms(3) obtain row where row: "t_builds (tabs s) bid = Some row"
    "b_Status (fst row) = BuildStatusRunning"
    by (auto simp: status_of_def tab_view_def)
  from up_get [OF assms(1,2) row(1)] obtain s1
    where 1: "GetBuildByID pg Active bid s = (s1, Ok (out_build row))" "up s1" by blast
  have "inv s1" using get_result [OF assms(1) 1(1)] by blast
  with 1 row(2) show ?thesis by (simp add: CancelBuild_def Running_def up_txn known_status_def)
qed

lemma up_event_kept:
  assumes "up s" "AddEvent (\<lambda>s. s) pg c bid e s = (s', r)"
  shows "up s'"
proof -
  obtain s1 r1 where 1: "GetBuildByID pg c bid s = (s1, r1)" by fastforce
  note u1 = up_get_kept [OF assms(1) 1]
  from assms(2) 1 u1 show ?thesis
    by (cases r1) (auto simp: AddEvent_def split: if_splits dest: up_txn_kept)
qed

end

sublocale pg_up \<subseteq>
  reliable_layer "pgDL pg" "\<lambda>s. tab_view (tabs s)" "\<lambda>s. t_keys (tabs s)" inv up
proof (unfold_locales, goal_cases)
  case (1 s bid b)
  then obtain row where "t_builds (tabs s) bid = Some row" by (auto simp: tab_view_def)
  from up_get [OF 1(1,2) this] show ?case by (auto simp: pgDL_def)
next
  case (2 s bid)
  then show ?case using up_get_none [OF 2(1,2), of bid] by (auto simp: pgDL_def tab_view_def)
next
  case (3 s c bid e s' r)
  then show ?case by (auto simp: pgDL_def dest: up_event_kept)
next
  case (4 s c bid s' r)
  then show ?case by (auto simp: pgDL_def SetBuildAsRunning_def dest: up_txn_kept)
next
  case (5 s st c bid s' r)
  then show ?case using SetBuildAsCompleted_txn [OF 5(2), of c bid s]
    by (auto simp: pgDL_def dest: up_txn_kept sym)
next
  case (6 s bid)
  then show ?case by (simp add: pgDL_def SetBuildAsRunning_def up_txn known_status_def)
next
  case (7 s st bid)
  then show ?case by (simp add: pgDL_def up_completed)
next
  case (8 s bid)
  then show ?case by (simp add: pgDL_def up_cancel)
qed

context pg_up
begin

lemmas axioms_of_layer = reliable_layer_axioms

end

section \<open>Listing builds\<close>

text \<open>A condition with the value of its placeholder filled in.\<close>

primrec cond_idx :: "sqlcond \<Rightarrow> nat" where
  "cond_idx (ColEq c n) = n"
| "cond_idx (AnyIn n c) = n"
| "cond_idx (ColGe c n) = n"
| "cond_idx (ColLt c n) = n"

primrec cond_with :: "sqlcond \<Rightarrow> brow \<Rightarrow> sqlval option \<Rightarrow> bool" where
  "cond_with (ColEq c n) r a = sql_eq (col_value c r) a"
| "cond_with (AnyIn n c) r a =
     (c = col_image_repos \<and> (\<exists>x \<in> set (b_ImageRepos (fst r)). a = Some (VText x)))"
| "cond_with (ColGe c n) r a = sql_le a (col_value c r)"
| "cond_with (ColLt c n) r a = (sql_le (col_value c r) a \<and> col_value c r \<noteq> a)"

lemma cond_holds_with: "cond_holds args r c = cond_with c r (arg args (cond_idx c))"
  by (cases c) simp_all

text \<open>Every placeholder has an argument: the conditions are numbered \<open>1\<close>, \<open>2\<close>, \<open>\<dots>\<close> in order.\<close>

definition numbered :: "sqlcond list \<times> sqlval list \<Rightarrow> bool" where
  "numbered ca \<longleftrightarrow> map cond_idx (fst ca) = map Suc [0..<length (snd ca)]"

lemma numbered_length: "numbered (conds, args) \<Longrightarrow> length conds = length args"
  by (auto simp: numbered_def dest: map_eq_imp_length_eq)

lemma numbered_add_cond:
  "numbered ca \<Longrightarrow> (\<And>n. cond_idx (mk n) = n) \<Longrightarrow> numbered (add_cond p mk v ca)"
  by (cases ca) (simp add: add_cond_def numbered_def)

lemma numbered_list_conds: "numbered (list_conds opts)"
  unfolding list_conds_def Let_def
  by (intro numbered_add_cond) (simp_all add: numbered_def)

definition sat :: "brow \<Rightarrow> sqlcond list \<times> sqlval list \<Rightarrow> bool" where
  "sat r ca = row_matches (fst ca) (snd ca) r"

lemma numbered_idx:
  assumes "numbered ca" "c \<in> set (fst ca)"
  shows "1 \<le> cond_idx c \<and> cond_idx c \<le> length (snd ca)"
proof -
  have "cond_idx c \<in> set (map cond_idx (fst ca))" using assms(2) by simp
  then have "cond_idx c \<in> set (map Suc [0..<length (snd ca)])"
    using assms(1) unfolding numbered_def by simp
  then show ?thesis by auto
qed

lemma sat_add_cond:
  assumes "numbered ca" "\<And>n. cond_idx (mk n) = n"
  shows "sat r (add_cond p mk v ca) \<longleftrightarrow>
    sat r ca \<and> (p \<longrightarrow> cond_with (mk (length (snd ca) + 1)) r (Some v))"
proof -
  obtain conds args where ca: "ca = (conds, args)" by (cases ca)
  have old: "arg (args @ [v]) (cond_idx c) = arg args (cond_idx c)" if "c \<in> set conds" for c
    using numbered_idx [OF assms(1), of c] that by (auto simp: ca arg_def nth_append)
  have new: "arg (args @ [v]) (Suc (length args)) = Some v" by (simp add: arg_def)
  show ?thesis
    using assms(2) by (auto simp: ca add_cond_def sat_def row_matches_def cond_holds_with old new)
qed

text \<open>What the conditions of \<^verbatim>\<open>ListBuilds\<close> say of a row.\<close>

definition pg_selects :: "ListBuildsOptions \<Rightarrow> brow \<Rightarrow> bool" where
  "pg_selects opts row \<longleftrightarrow>
     (case row of (b, upd, cmp) \<Rightarrow>
        (lo_WithGitHubRepo opts \<noteq> [] \<longrightarrow> b_GitHubRepo b = lo_WithGitHubRepo opts)
        \<and> (lo_WithGitHubRef opts \<noteq> [] \<longrightarrow> b_GitHubRef b = lo_WithGitHubRef opts)
        \<and> (lo_WithImageRepo opts \<noteq> [] \<longrightarrow> lo_WithImageRepo opts \<in> set (b_ImageRepos b))
        \<and> (lo_WithStatus opts \<noteq> BuildStatusUnknown \<longrightarrow> b_Status b = lo_WithStatus opts)
        \<and> (\<not> IsZero (lo_CompletedAfter opts) \<longrightarrow>
             (case cmp of None \<Rightarrow> False | Some t \<Rightarrow> ts_param (lo_CompletedAfter opts) \<le> t))
        \<and> (\<not> IsZero (lo_StartedAfter opts) \<longrightarrow> ts_param (lo_StartedAfter opts) \<le> b_Created b)
        \<and> (\<not> IsZero (lo_CompletedBefore opts) \<longrightarrow>
             (case cmp of None \<Rightarrow> False | Some t \<Rightarrow> t < ts_param (lo_CompletedBefore opts)))
        \<and> (\<not> IsZero (lo_StartedBefore opts) \<longrightarrow> b_Created b < ts_param (lo_StartedBefore opts)))"

lemma list_conds_sat: "sat row (list_conds opts) = pg_selects opts row"
proof -
  obtain b upd cmp where row: "row = (b, upd, cmp)" by (cases row)
  have nil: "numbered ([], [])" "sat row ([], [])" by (simp_all add: numbered_def sat_def row_matches_def)
  have lt: "t \<le> u \<and> t \<noteq> u \<longleftrightarrow> t < u" for t u :: gotime by auto
  show ?thesis
    unfolding list_conds_def Let_def
    by (simp add: sat_add_cond numbered_add_cond nil)
      (auto simp: row pg_selects_def sql_eq_def lt split: option.splits)
qed

text \<open>
  The difference to \<open>selects\<close>: the parameters have microsecond resolution and a missing completion
  time is NULL, not the zero time.  Where neither matters the two agree.
\<close>

definition times_plain :: "ListBuildsOptions \<Rightarrow> bool" where
  "times_plain opts \<longleftrightarrow>
     (\<forall>t \<in> {lo_CompletedAfter opts, lo_StartedAfter opts, lo_CompletedBefore opts, lo_StartedBefore opts}.
        ts_param t = t \<and> zero_time \<le> t)"

definition row_plain :: "brow \<Rightarrow> bool" where
  "row_plain row \<longleftrightarrow>
     (case row of (b, upd, cmp) \<Rightarrow>
        b_Completed b = zero_time \<and> cmp \<noteq> Some zero_time \<and> b_Created b \<noteq> zero_time)"

lemma out_build_simps:
  "b_Completed (out_build (b, upd, cmp)) = (case cmp of None \<Rightarrow> b_Completed b | Some t \<Rightarrow> t)"
  "b_Created (out_build (b, upd, cmp)) = b_Created b"
  "b_GitHubRepo (out_build (b, upd, cmp)) = b_GitHubRepo b"
  "b_GitHubRef (out_build (b, upd, cmp)) = b_GitHubRef b"
  "b_ImageRepos (out_build (b, upd, cmp)) = b_ImageRepos b"
  "b_Status (out_build (b, upd, cmp)) = b_Status b"
  by (simp_all add: out_build_def split: option.splits)

lemma pg_selects_plain:
  assumes "times_plain opts" "row_plain row"
  shows "pg_selects opts row = selects opts (out_build row)"
proof -
  obtain b upd cmp where row: "row = (b, upd, cmp)" by (cases row)
  have ts: "ts_param (lo_CompletedAfter opts) = lo_CompletedAfter opts"
    "ts_param (lo_StartedAfter opts) = lo_StartedAfter opts"
    "ts_param (lo_CompletedBefore opts) = lo_CompletedBefore opts"
    "ts_param (lo_StartedBefore opts) = lo_StartedBefore opts"
    and nn: "\<not> IsZero (lo_CompletedAfter opts) \<Longrightarrow> \<not> lo_CompletedAfter opts \<le> zero_time"
    using assms(1) by (auto simp: times_plain_def IsZero_def)
  show ?thesis
    using assms(2) nn
    by (auto simp: pg_selects_def selects_def row row_plain_def out_build_simps ts IsZero_def
        split: option.splits)
qed

lemma scan_rows_Ok:
  "scan_rows rs out = Ok res \<Longrightarrow> \<exists>rows. rs = map Ok rows \<and> res = out @ map out_build rows"
proof (induction rs out rule: scan_rows.induct)
  case (2 row rs out)
  then obtain rows where "rs = map Ok rows" "res = (out @ [out_build row]) @ map out_build rows" by auto
  then show ?case by (intro exI [of _ "row # rows"]) simp
qed auto

context pg_service
begin

lemma ListBuilds_result:
  assumes "inv s" "options_ok opts" "ListBuilds pg c opts s = (s', Ok out)"
  shows "tabs s' = tabs s \<and> (\<exists>rows. out = map out_build rows \<and> distinct rows
    \<and> set rows \<subseteq> {r \<in> ran (t_builds (tabs s)). pg_selects opts r}
    \<and> (if lo_Limit opts = 0 then set rows = {r \<in> ran (t_builds (tabs s)). pg_selects opts r}
        else length rows =
          min (unat (lo_Limit opts)) (card {r \<in> ran (t_builds (tabs s)). pg_selects opts r})))"
proof -
  obtain conds args where ca: "list_conds opts = (conds, args)" by fastforce
  let ?lim = "if 0 < lo_Limit opts then Some (lo_Limit opts) else None"
  obtain s1 rq where q: "pg_Query pg c conds ?lim args s = (s1, rq)" by fastforce
  have "ListBuilds pg c opts s = (case rq of Err e \<Rightarrow> (s1, Err (Wrapf ''error querying db: '' e))
      | Panic m \<Rightarrow> (s1, Panic m) | Ok rows \<Rightarrow> (s1, scan_rows rows []))"
    unfolding ListBuilds_def if_not_P [OF options_ok_guards(1) [OF assms(2)]]
      if_not_P [OF options_ok_guards(2) [OF assms(2)]]
      if_not_P [OF options_ok_guards(3) [OF assms(2)]] ca prod.case q by (rule refl)
  with assms(3) obtain rs where rs: "rq = Ok rs" "scan_rows rs [] = Ok out" "s' = s1"
    by (cases rq) auto
  from scan_rows_Ok [OF rs(2)] obtain rows where rows: "rs = map Ok rows" "out = map out_build rows"
    by auto
  have "row_matches conds args = pg_selects opts"
    using list_conds_sat [of _ opts] by (intro ext) (simp only: sat_def ca fst_conv snd_conv)
  with query_law [OF assms(1) q] rs(1,3) rows show ?thesis
    by (auto simp: word_gt_0 split: if_splits)
qed

text \<open>A listing with no condition is refused by the server.\<close>

lemma ListBuilds_no_condition:
  assumes "inv s" "fst (list_conds opts) = []"
  shows "\<exists>e. snd (ListBuilds pg c opts s) = Err e"
proof -
  obtain args where ca: "list_conds opts = ([], args)" using assms(2) by (cases "list_conds opts") auto
  obtain s1 rq where q: "pg_Query pg c [] (if 0 < lo_Limit opts then Some (lo_Limit opts) else None) args s = (s1, rq)"
    by fastforce
  from query_law [OF assms(1) q] obtain e where "rq = Err e" by blast
  with q show ?thesis by (simp add: ListBuilds_def ca)
qed

end

section \<open>A reference server\<close>

text \<open>
  Tables in memory, the identifiers ever inserted, the connections of the listen pool with their
  channels and undelivered notifications, a clock, a source of identifiers, and whether the
  server is unreachable.  A released connection keeps its channels: nothing sends \<^verbatim>\<open>UNLISTEN\<close>.
\<close>

record refpg =
  rp_tabs :: tables
  rp_ids :: "uuid list"
  rp_conns :: "(nat \<times> string list \<times> (string \<times> string) list) list"
  rp_idle :: "nat list"
  rp_next :: nat
  rp_clock :: gotime
  rp_rand :: "nat \<Rightarrow> uuid go"
  rp_nrand :: nat
  rp_down :: bool

definition ref_guard :: "ctx \<Rightarrow> refpg \<Rightarrow> goerr option" where
  "ref_guard c s =
     (if c = Done then Some ErrCanceled
      else if rp_down s then Some (OpError True True ''i/o timeout'') else None)"

definition ref_deliver :: "string \<Rightarrow> string \<Rightarrow> refpg \<Rightarrow> refpg" where
  "ref_deliver ch p s =
     s\<lparr>rp_conns := map (\<lambda>(n, chs, q). (n, chs, if ch \<in> set chs then q @ [(ch, p)] else q)) (rp_conns s)\<rparr>"

definition ref_side :: "stmt \<Rightarrow> refpg \<Rightarrow> refpg" where
  "ref_side st s =
     (case st of
        InsertBuild bid b status \<Rightarrow> s\<lparr>rp_ids := List.insert bid (rp_ids s)\<rparr>
      | Notify ch lit \<Rightarrow> (case parse_lit lit of None \<Rightarrow> s | Some p \<Rightarrow> ref_deliver ch p s)
      | _ \<Rightarrow> s)"

definition ref_run :: "ctx \<Rightarrow> stmt list \<Rightarrow> (refpg, unit) act" where
  "ref_run c sts s =
     (case ref_guard c s of
        Some e \<Rightarrow> (s, Err e)
      | None \<Rightarrow>
          (case apply_stmts (rp_clock s) sts (rp_tabs s) of
             None \<Rightarrow> (s, Err (ErrMsg ''duplicate key value violates unique constraint''))
           | Some T \<Rightarrow> ((fold ref_side sts s)\<lparr>rp_tabs := T\<rparr>, Ok ())))"

definition ref_query :: "ctx \<Rightarrow> sqlcond list \<Rightarrow> 64 word option \<Rightarrow> sqlval list \<Rightarrow> (refpg, brow go list) act"
  where
  "ref_query c cs lim args s =
     (case ref_guard c s of
        Some e \<Rightarrow> (s, Err e)
      | None \<Rightarrow>
          if cs = [] then (s, Err (ErrMsg ''syntax error''))
          else
            let rows = filter (row_matches cs args) (List.map_filter (t_builds (rp_tabs s)) (rp_ids s))
            in (s, Ok (map Ok (case lim of None \<Rightarrow> rows | Some n \<Rightarrow> take (unat n) rows))))"

definition ref_ok :: "ctx \<Rightarrow> (refpg, unit) act" where
  "ref_ok c s = (case ref_guard c s of Some e \<Rightarrow> (s, Err e) | None \<Rightarrow> (s, Ok ()))"

definition ref_txexec :: "ctx \<Rightarrow> stmt \<Rightarrow> (refpg, unit) act" where
  "ref_txexec c st s =
     (case ref_guard c s of
        Some e \<Rightarrow> (s, Err e)
      | None \<Rightarrow>
          (case st of
             Notify ch lit \<Rightarrow>
               if parse_lit lit = None \<or> 8000 \<le> length lit then (s, Err (ErrMsg ''syntax error''))
               else (s, Ok ())
           | _ \<Rightarrow> (s, Ok ())))"

definition ref_acquire :: "ctx \<Rightarrow> (refpg, nat) act" where
  "ref_acquire c s =
     (case ref_guard c s of
        Some e \<Rightarrow> (s, Err e)
      | None \<Rightarrow>
          (case rp_idle s of
             n # ns \<Rightarrow> (s\<lparr>rp_idle := ns\<rparr>, Ok n)
           | [] \<Rightarrow>
               (s\<lparr>rp_conns := (rp_next s, [], []) # rp_conns s, rp_next := rp_next s + 1\<rparr>,
                Ok (rp_next s))))"

definition ref_listen :: "ctx \<Rightarrow> nat \<Rightarrow> string \<Rightarrow> (refpg, unit) act" where
  "ref_listen c conn ch s =
     (case ref_guard c s of
        Some e \<Rightarrow> (s, Err e)
      | None \<Rightarrow>
          (s\<lparr>rp_conns := map (\<lambda>(n, chs, q). (n, if n = conn then List.insert ch chs else chs, q))
                          (rp_conns s)\<rparr>, Ok ()))"

text \<open>The wait ends with a notification of any channel of the connection, or with its context.\<close>

definition ref_wait :: "ctx \<Rightarrow> nat \<Rightarrow> (refpg, string \<times> string) act" where
  "ref_wait c conn s =
     (case ref_guard c s of
        Some e \<Rightarrow> (s, Err e)
      | None \<Rightarrow>
          (case map_of (rp_conns s) conn of
             Some (chs, n # ns) \<Rightarrow>
               (s\<lparr>rp_conns := map (\<lambda>(k, cs, q). (k, cs, if k = conn then tl q else q)) (rp_conns s)\<rparr>,
                Ok n)
           | _ \<Rightarrow> (s, Err ErrCanceled)))"

definition refPG :: "refpg PGServer" where
  "refPG =
     \<lparr>pg_Exec = (\<lambda>c st. ref_run c [st]),
      pg_SelectBuild = (\<lambda>c bid s.
        (s, case ref_guard c s of Some e \<Rightarrow> Err e
            | None \<Rightarrow> (case t_builds (rp_tabs s) bid of None \<Rightarrow> Err ErrNoRows | Some r \<Rightarrow> Ok r))),
      pg_SelectAPIKey = (\<lambda>c kid s.
        (s, case ref_guard c s of Some e \<Rightarrow> Err e
            | None \<Rightarrow> (case t_keys (rp_tabs s) kid of None \<Rightarrow> Err ErrNoRows | Some k \<Rightarrow> Ok k))),
      pg_Query = ref_query,
      pg_Begin = ref_ok,
      pg_TxExec = (\<lambda>c sts st. ref_txexec c st),
      pg_Commit = ref_run,
      pg_Rollback = (\<lambda>c s. s),
      pg_Acquire = ref_acquire,
      pg_Listen = ref_listen,
      pg_WaitForNotification = ref_wait,
      pg_Release = (\<lambda>n s. s\<lparr>rp_idle := n # rp_idle s\<rparr>),
      pg_NewV4 = (\<lambda>s. (s\<lparr>rp_nrand := rp_nrand s + 1\<rparr>, rp_rand s (rp_nrand s))),
      pg_Now = rp_clock\<rparr>"

definition ref_init :: "gotime \<Rightarrow> (nat \<Rightarrow> uuid go) \<Rightarrow> refpg" where
  "ref_init now rnd =
     \<lparr>rp_tabs = \<lparr>t_builds = Map.empty, t_keys = Map.empty\<rparr>, rp_ids = [], rp_conns = [], rp_idle = [],
      rp_next = 0, rp_clock = now, rp_rand = rnd, rp_nrand = 0, rp_down = False\<rparr>"

definition tabs_wf :: "uuid list \<Rightarrow> tables \<Rightarrow> bool" where
  "tabs_wf ids T \<longleftrightarrow>
     (\<forall>bid. case t_builds T bid of
              None \<Rightarrow> True | Some row \<Rightarrow> bid \<in> set ids \<and> b_ID (fst row) = bid)"

definition ref_inv :: "refpg \<Rightarrow> bool" where
  "ref_inv s \<longleftrightarrow> distinct (rp_ids s) \<and> tabs_wf (rp_ids s) (rp_tabs s)"

lemma tabs_wfD:
  assumes "tabs_wf ids T" "t_builds T bid = Some row"
  shows "bid \<in> set ids \<and> b_ID (fst row) = bid"
  using spec [OF assms(1) [unfolded tabs_wf_def], of bid] assms(2) by simp

lemma ref_init_inv: "ref_inv (ref_init now rnd)"
  by (simp add: ref_inv_def ref_init_def tabs_wf_def)

definition keeps_id :: "(Build \<times> gotime option \<Rightarrow> Build \<times> gotime option) \<Rightarrow> bool" where
  "keeps_id f \<longleftrightarrow> (\<forall>b cmp. b_ID (fst (f (b, cmp))) = b_ID b)"

lemma tabs_wf_update:
  assumes "keeps_id f" "tabs_wf ids T"
  shows "tabs_wf ids (update_build now bid f T)"
proof (cases "t_builds T bid")
  case None
  with assms(2) show ?thesis by (simp add: update_build_def)
next
  case (Some r)
  obtain b upd cmp where r: "r = (b, upd, cmp)" by (cases r)
  obtain b' cmp' where f: "f (b, cmp) = (b', cmp')" by fastforce
  have "b_ID b' = bid" "bid \<in> set ids"
    using assms(1) tabs_wfD [OF assms(2) Some] r f by (metis fst_conv keeps_id_def)+
  with assms(2) Some r f show ?thesis by (simp add: update_build_def tabs_wf_def)
qed

lemma tabs_wf_mono: "tabs_wf ids T \<Longrightarrow> set ids \<subseteq> set ids' \<Longrightarrow> tabs_wf ids' T"
  unfolding tabs_wf_def by (fastforce split: option.splits)

lemma tabs_wf_upd:
  "tabs_wf ids T \<Longrightarrow> bid \<in> set ids \<Longrightarrow> b_ID (fst row) = bid \<Longrightarrow>
     tabs_wf ids (T\<lparr>t_builds := (t_builds T)(bid \<mapsto> row)\<rparr>)"
  by (simp add: tabs_wf_def)

lemma tabs_wf_other [simp]:
  "tabs_wf ids (T\<lparr>t_keys := k\<rparr>) = tabs_wf ids T"
  "tabs_wf ids T \<Longrightarrow> tabs_wf ids (T\<lparr>t_builds := (t_builds T)(bid := None)\<rparr>)"
  by (simp_all add: tabs_wf_def)

lemma ref_side_simps [simp]:
  "rp_tabs (ref_side st s) = rp_tabs s" "rp_down (ref_side st s) = rp_down s"
  by (auto simp: ref_side_def ref_deliver_def split: stmt.splits option.splits)

lemma fold_ref_side_simps [simp]:
  "rp_tabs (fold ref_side sts s) = rp_tabs s" "rp_down (fold ref_side sts s) = rp_down s"
  by (induction sts arbitrary: s) simp_all

lemma ref_side_inv_step:
  assumes "apply_stmt now st (rp_tabs s) = Some T" "ref_inv s"
  shows "ref_inv ((ref_side st s)\<lparr>rp_tabs := T\<rparr>)"
proof (cases st)
  case (InsertBuild bid b status)
  have "tabs_wf (List.insert bid (rp_ids s)) (rp_tabs s)"
    using assms(2) by (auto simp: ref_inv_def intro: tabs_wf_mono)
  from tabs_wf_upd [OF this, of bid "inserted now bid b status"] assms InsertBuild show ?thesis
    by (simp add: ref_inv_def ref_side_def inserted_def split: if_splits)
next
  case (Notify ch lit)
  with assms show ?thesis
    by (simp add: ref_inv_def ref_side_def ref_deliver_def split: option.splits)
qed (use assms in \<open>auto simp: ref_inv_def ref_side_def keeps_id_def intro!: tabs_wf_update
      split: if_splits\<close>)

lemma ref_side_tabs: "ref_side st (s\<lparr>rp_tabs := T\<rparr>) = (ref_side st s)\<lparr>rp_tabs := T\<rparr>"
  by (auto simp: ref_side_def ref_deliver_def split: stmt.splits option.splits)

lemma fold_ref_side_tabs: "fold ref_side sts (s\<lparr>rp_tabs := T\<rparr>) = (fold ref_side sts s)\<lparr>rp_tabs := T\<rparr>"
  by (induction sts arbitrary: s) (simp_all add: ref_side_tabs)

lemma ref_stmts_inv:
  "apply_stmts now sts (rp_tabs s) = Some T \<Longrightarrow> ref_inv s \<Longrightarrow> ref_inv ((fold ref_side sts s)\<lparr>rp_tabs := T\<rparr>)"
proof (induction sts arbitrary: s)
  case (Cons st sts)
  then obtain T' where T': "apply_stmt now st (rp_tabs s) = Some T'" "apply_stmts now sts T' = Some T"
    by (auto split: option.splits)
  from Cons.IH [of "(ref_side st s)\<lparr>rp_tabs := T'\<rparr>"] ref_side_inv_step [OF T'(1) Cons.prems(2)] T'(2)
  show ?case by (simp add: fold_ref_side_tabs)
qed (auto simp: ref_inv_def)

lemma ref_run_law:
  assumes "ref_inv s" "ref_run c sts s = (s', r)"
  shows "ref_inv s' \<and> (\<forall>m. r \<noteq> Panic m)
    \<and> (r = Ok () \<longrightarrow> (\<exists>now. apply_stmts now sts (rp_tabs s) = Some (rp_tabs s')))
    \<and> (rp_tabs s' = rp_tabs s \<or> (\<exists>now. apply_stmts now sts (rp_tabs s) = Some (rp_tabs s')))"
  using assms ref_stmts_inv [of "rp_clock s" sts s]
  by (auto simp: ref_run_def split: option.splits)

lemma apply_stmts_single: "apply_stmts now [st] T = apply_stmt now st T"
  by (cases "apply_stmt now st T") auto

lemma plain_applies: "plain_stmt st \<Longrightarrow> \<exists>T'. apply_stmt now st T = Some T'"
  by (cases st) auto

lemma plains_apply: "list_all plain_stmt sts \<Longrightarrow> \<exists>T'. apply_stmts now sts T = Some T'"
proof (induction sts arbitrary: T)
  case (Cons st sts)
  then obtain T1 where "apply_stmt now st T = Some T1" using plain_applies by fastforce
  with Cons show ?case by auto
qed simp

text \<open>The rows of the table, each once.\<close>

lemma ref_rows:
  assumes "ref_inv s"
  shows "set (List.map_filter (t_builds (rp_tabs s)) (rp_ids s)) = ran (t_builds (rp_tabs s))"
    and "distinct (List.map_filter (t_builds (rp_tabs s)) (rp_ids s))"
proof -
  from assms show "set (List.map_filter (t_builds (rp_tabs s)) (rp_ids s)) = ran (t_builds (rp_tabs s))"
    by (force simp: ref_inv_def List.map_filter_def ran_def dest: tabs_wfD)
  have "inj_on (the \<circ> t_builds (rp_tabs s)) {x. t_builds (rp_tabs s) x \<noteq> None}"
  proof (rule inj_onI)
    fix x y
    assume "x \<in> {x. t_builds (rp_tabs s) x \<noteq> None}" "y \<in> {x. t_builds (rp_tabs s) x \<noteq> None}"
      and eq: "(the \<circ> t_builds (rp_tabs s)) x = (the \<circ> t_builds (rp_tabs s)) y"
    then obtain r where "t_builds (rp_tabs s) x = Some r" "t_builds (rp_tabs s) y = Some r" by force
    with assms show "x = y" unfolding ref_inv_def by (metis tabs_wfD)
  qed
  then show "distinct (List.map_filter (t_builds (rp_tabs s)) (rp_ids s))"
    using assms by (auto simp: ref_inv_def List.map_filter_def distinct_map intro: inj_on_subset)
qed

lemma ref_query_law:
  assumes "ref_inv s" "ref_query c cs lim args s = (s', rq)"
  shows "s' = s
    \<and> (\<forall>rows. rq = Ok (map Ok rows) \<longrightarrow>
         distinct rows
         \<and> set rows \<subseteq> {r \<in> ran (t_builds (rp_tabs s)). row_matches cs args r}
         \<and> (case lim of
              None \<Rightarrow> set rows = {r \<in> ran (t_builds (rp_tabs s)). row_matches cs args r}
            | Some n \<Rightarrow> length rows =
                min (unat n) (card {r \<in> ran (t_builds (rp_tabs s)). row_matches cs args r})))
    \<and> (cs = [] \<longrightarrow> (\<exists>e. rq = Err e))"
proof -
  let ?rows = "filter (row_matches cs args) (List.map_filter (t_builds (rp_tabs s)) (rp_ids s))"
  have set: "set ?rows = {r \<in> ran (t_builds (rp_tabs s)). row_matches cs args r}"
    and dist: "distinct ?rows" using ref_rows [OF assms(1)] by auto
  have card: "card {r \<in> ran (t_builds (rp_tabs s)). row_matches cs args r} = length ?rows"
    using distinct_card [OF dist] set by simp
  have inj: "map Ok xs = map Ok ys \<longleftrightarrow> xs = ys" for xs ys :: "brow list"
    by (rule inj_map_eq_map) (simp add: inj_def)
  have rq: "s' = s \<and> ((\<exists>e. rq = Err e) \<or> cs \<noteq> [] \<and> rq = Ok (map Ok (case lim of None \<Rightarrow> ?rows | Some n \<Rightarrow> take (unat n) ?rows)))"
    using assms(2) by (auto simp: ref_query_def Let_def split: option.splits if_splits)
  have lim: "distinct rs \<and> set rs \<subseteq> {r \<in> ran (t_builds (rp_tabs s)). row_matches cs args r}
         \<and> (case lim of
              None \<Rightarrow> set rs = {r \<in> ran (t_builds (rp_tabs s)). row_matches cs args r}
            | Some n \<Rightarrow> length rs =
                min (unat n) (card {r \<in> ran (t_builds (rp_tabs s)). row_matches cs args r}))"
    if "rs = (case lim of None \<Rightarrow> ?rows | Some n \<Rightarrow> take (unat n) ?rows)" for rs
  proof (cases lim)
    case None
    with that set dist show ?thesis by simp
  next
    case (Some n)
    have "set (take (unat n) ?rows) \<subseteq> set ?rows" by (rule set_take_subset)
    with that set dist card Some show ?thesis by (simp add: min.commute)
  qed
  show ?thesis using rq lim inj by auto
qed

interpretation refpg: pg_up refPG rp_tabs ref_inv "\<lambda>s. \<not> rp_down s"
proof (unfold_locales, goal_cases)
  case (1 s c st s' r)
  with ref_run_law [of s c "[st]" s' r] show ?case by (simp only: apply_stmts_single refPG_def PGServer.simps) simp
next
  case (4 s c cs lim args s' rq)
  with ref_query_law [of s c cs lim args s' rq] show ?case by (simp add: refPG_def)
next
  case (7 s c sts s' r)
  with ref_run_law [of s c sts s' r] show ?case by (simp add: refPG_def)
next
  case (14 s sts)
  from plains_apply [OF 14(3), of "rp_clock s" "rp_tabs s"] 14(2) show ?case
    by (auto simp: refPG_def ref_run_def ref_guard_def)
qed (auto simp: refPG_def ref_ok_def ref_txexec_def ref_guard_def ref_run_def ref_inv_def
      split: option.splits if_splits stmt.splits dest: tabs_wfD)

section \<open>Properties\<close>

text \<open>A reference server that holds one build, for the witnesses.\<close>

definition ref_with :: "Build \<Rightarrow> refpg" where
  "ref_with b =
     (ref_init (Time 7 0) (\<lambda>_. Ok 77))\<lparr>rp_tabs := \<lparr>t_builds = [b_ID b \<mapsto> (b, None, None)], t_keys = Map.empty\<rparr>,
        rp_ids := [b_ID b]\<rparr>"

definition demo_build :: "BuildStatus \<Rightarrow> Build" where
  "demo_build st = zero_Build\<lparr>b_ID := 5, b_Created := Time 3 0, b_GitHubRepo := ''acme/app'', b_Status := st\<rparr>"

definition demo_opts :: ListBuildsOptions where
  "demo_opts = zero_ListBuildsOptions\<lparr>lo_WithGitHubRepo := ''acme/app''\<rparr>"

definition two_builds :: refpg where
  "two_builds =
     (ref_with (demo_build BuildStatusRunning))\<lparr>rp_tabs := \<lparr>t_builds =
        [5 \<mapsto> (demo_build BuildStatusRunning, None, None),
         6 \<mapsto> ((demo_build BuildStatusRunning)\<lparr>b_ID := 6\<rparr>, None, None)], t_keys = Map.empty\<rparr>, rp_ids := [5, 6]\<rparr>"

lemma ref_with_inv: "ref_inv (ref_with b)"
  by (simp add: ref_with_def ref_inv_def ref_init_def tabs_wf_def)

lemmas ref_eval = refPG_def ref_with_def ref_init_def ref_run_def ref_ok_def ref_txexec_def ref_guard_def
  ref_acquire_def ref_listen_def ref_wait_def ref_side_def ref_deliver_def ref_query_def

lemma itoa_5: "itoa 5 = ''5''"
  by code_simp

lemma completed_payload_5: "completed_payload ''5'' = Ok BuildStatusSuccess"
  by code_simp

lemmas ref_demo = ref_eval demo_build_def zero_Build_def SetBuildAsCompleted_def SetBuildAsRunning_def CancelBuild_def
  GetBuildByID_def retry_first txn_def txn_body_def update_build_def out_build_def Running_def status_of_def tab_view_def

text \<open>
  C13: in the query of a listing the placeholders are numbered from 1 in the order of the arguments,
  so that every condition is compared with its own value: the rows that match are those the options
  describe.
\<close>

theorem placeholders_match_arguments:
  "map cond_idx (fst (list_conds opts)) = map Suc [0..<length (snd (list_conds opts))]
   \<and> (row_matches (fst (list_conds opts)) (snd (list_conds opts)) row \<longleftrightarrow> pg_selects opts row)"
  using numbered_list_conds [of opts] list_conds_sat [of row opts] by (simp add: numbered_def sat_def)



text \<open>
  A build that was created is in the database under a fresh identifier, as the caller described
  it, not started; the plain credential of the request is not stored.
\<close>

theorem created_without_credential:
  assumes "pg_service pg tabs Inv" "Inv s" "CreateBuild pg c b s = (s', Ok bid)"
  shows "tab_view (tabs s) bid = None \<and> (\<exists>b'. created_as b bid b'
    \<and> tab_view (tabs s') = (tab_view (tabs s))(bid \<mapsto> b')
    \<and> (case rq_Build (b_Request b') of None \<Rightarrow> True | Some d \<Rightarrow> bd_GithubCredential d = []))"
proof -
  from pg_service.create_result [OF assms] obtain b' where b': "tab_view (tabs s) bid = None" "created_as b bid b'"
    "b_Request b' = b_Request (clear_credential b)" "tab_view (tabs s') = (tab_view (tabs s))(bid \<mapsto> b')" by blast
  moreover have "case rq_Build (b_Request b') of None \<Rightarrow> True | Some d \<Rightarrow> bd_GithubCredential d = []"
    unfolding b'(3) by (simp add: clear_credential_def split: option.splits)
  ultimately show ?thesis by blast
qed

theorem created_without_credential_witness:
  "\<exists>s' bid b'. CreateBuild refPG Active (demo_build BuildStatusUnknown) (ref_with (demo_build BuildStatusRunning)) = (s', Ok bid)
    \<and> created_as (demo_build BuildStatusUnknown) bid b' \<and> tab_view (rp_tabs s') bid = Some b'"
proof -
  obtain s' bid where r: "CreateBuild refPG Active (demo_build BuildStatusUnknown) (ref_with (demo_build BuildStatusRunning)) = (s', Ok bid)"
    by (simp add: ref_eval CreateBuild_def demo_build_def Let_def)
  from created_without_credential [OF refpg.pg_service_axioms ref_with_inv r] r show ?thesis by auto
qed



text \<open>
  C39: \<^verbatim>\<open>CancelBuild\<close> looks at the build and then writes in a transaction of its own.  The build was
  running at the look, but what others did in between does not matter: also a build that has ended
  meanwhile is set to CancelRequested.
\<close>

theorem cancel_overwrites_meanwhile:
  assumes "pg_service pg tabs Inv" "Inv s" "\<And>t. Inv t \<Longrightarrow> Inv (gap t)"
    and "CancelBuild gap pg c bid s = (s', Ok ())"
  shows "status_of (tab_view (tabs s)) bid = Some BuildStatusRunning
    \<and> (\<exists>t. tabs t = tabs s
         \<and> tab_view (tabs s') = set_status (tab_view (tabs (gap t))) bid BuildStatusCancelRequested)"
  using pg_service.cancel_result [OF assms] by blast

theorem cancel_overwrites_meanwhile_witness:
  "let gap = (\<lambda>s :: refpg. fst (SetBuildAsCompleted refPG Active 5 BuildStatusSuccess s));
       s = ref_with (demo_build BuildStatusRunning);
       s' = fst (CancelBuild gap refPG Active 5 s)
   in snd (CancelBuild gap refPG Active 5 s) = Ok ()
      \<and> status_of (tab_view (rp_tabs s)) 5 = Some BuildStatusRunning
      \<and> status_of (tab_view (rp_tabs (gap s))) 5 = Some BuildStatusSuccess
      \<and> status_of (tab_view (rp_tabs s')) 5 = Some BuildStatusCancelRequested"
proof -
  let ?gap = "\<lambda>s. fst (SetBuildAsCompleted refPG Active 5 BuildStatusSuccess s)"
  let ?s = "ref_with (demo_build BuildStatusRunning)"
  have keep: "ref_inv t \<Longrightarrow> ref_inv (?gap t)" for t
    using refpg.completed_result [of t 5 Active 5 "?gap t"] by (metis TerminalState_simps(6) prod.collapse)
  have ev: "snd (CancelBuild ?gap refPG Active 5 ?s) = Ok ()"
    "status_of (tab_view (rp_tabs (?gap ?s))) 5 = Some BuildStatusSuccess"
    "status_of (tab_view (rp_tabs (fst (CancelBuild ?gap refPG Active 5 ?s)))) 5 = Some BuildStatusCancelRequested"
    by (simp_all add: ref_demo itoa_5)
  then have c: "CancelBuild ?gap refPG Active 5 ?s = (fst (CancelBuild ?gap refPG Active 5 ?s), Ok ())"
    by (metis prod.collapse)
  from cancel_overwrites_meanwhile [OF refpg.pg_service_axioms ref_with_inv keep c] ev
  show ?thesis unfolding Let_def by blast
qed

text \<open>
  The wake-up of \<^verbatim>\<open>ListenForBuildRunning\<close> can be lost.  The build is looked at before the channel
  is listened to: when it starts running in between, the call waits until its context ends, although
  the build is running; when it starts while the call waits, the call returns.
\<close>

theorem running_wakeup_lost:
  "let run = (\<lambda>s :: refpg. fst (SetBuildAsRunning refPG Active 5 s));
       s = ref_with (demo_build BuildStatusNotStarted);
       early = ListenForBuildRunning refPG run (\<lambda>s. s) Active 5 s
   in snd early = Err (Wrapf (''error waiting for notification: '' @ uuid_String 5 @ '': '') ErrCanceled)
      \<and> status_of (tab_view (rp_tabs (fst early))) 5 = Some BuildStatusRunning
      \<and> snd (ListenForBuildRunning refPG (\<lambda>s. s) run Active 5 s) = Ok ()"
  by (simp add: ref_demo ListenForBuildRunning_def listen_wait_def)

text \<open>
  A connection goes back to the pool without \<^verbatim>\<open>UNLISTEN\<close>, and \<^verbatim>\<open>ListenForBuildCompleted\<close> does not
  look at the channel of a notification.  A call for build 6 that gets the connection that a call for
  build 5 has used is answered by the completion of build 5: it reports build 6 as a success while
  build 6 is running.
\<close>

theorem completion_of_another_build:
  "let first = ListenForBuildCompleted refPG (\<lambda>s. s) (\<lambda>s. s) Active 5 two_builds;
       complete5 = (\<lambda>s :: refpg. fst (SetBuildAsCompleted refPG Active 5 BuildStatusSuccess s));
       second = ListenForBuildCompleted refPG (\<lambda>s. s) complete5 Active 6 (fst first)
   in (\<exists>e. snd first = Err e) \<and> snd second = Ok BuildStatusSuccess
      \<and> status_of (tab_view (rp_tabs (fst second))) 6 = Some BuildStatusRunning"
  by (simp add: ref_demo two_builds_def ListenForBuildCompleted_def listen_wait_def itoa_5 completed_payload_5)

end
