(* ===== verification/Furan_PgSuite.thy ===== *)
theory Furan_PgSuite
  imports Furan_Testsuite Furan_PgService
begin

text \<open>
  \<^verbatim>\<open>PostgresDBLayer\<close> keeps the full contract of a data layer on every database server that answers at once,
  that no one else uses meanwhile, and whose clock is the client's (the locale \<open>pg_full\<close>); so it passes
  the test suite, as \<^verbatim>\<open>datalayer_test.go\<close> checks.  The reference server is such a server.
\<close>

section \<open>Statements that are accepted\<close>

text \<open>Statements whose parameters the columns take: texts without zero bytes, statuses and times in range.\<close>

primrec clean_stmt :: "stmt \<Rightarrow> bool" where
  "clean_stmt (InsertBuild bid b st) = (list_all ascii_text (build_texts b) \<and> known_status st)"
| "clean_stmt (UpdateCompleted t bid) = (storable t \<and> ts_param t = t)"
| "clean_stmt (UpdateStatus st bid) = known_status st"
| "clean_stmt (UpdateStatusCompleted st t bid) = (known_status st \<and> storable t \<and> ts_param t = t)"
| "clean_stmt (AppendEvent e bid) = event_text e"
| "clean_stmt (DeleteBuildStmt bid) = True"
| "clean_stmt (InsertAPIKey kid k) = list_all ascii_text (key_texts k)"
| "clean_stmt (SeedAPIKey kid n d) = (ascii_text n \<and> ascii_text d)"
| "clean_stmt (DeleteAPIKeyStmt kid) = True"
| "clean_stmt (Notify ch lit) = False"

text \<open>A notification: a literal of less than 8000 bytes.\<close>

definition clean_note :: "string \<Rightarrow> string \<Rightarrow> bool" where
  "clean_note lit p \<longleftrightarrow> parse_lit lit = Some p \<and> length lit < 8000 \<and> ascii_text lit"

text \<open>The connections that listen: their channels and the notifications that have not been received.\<close>

type_synonym conns = "nat \<rightharpoonup> string set \<times> (string \<times> string) list"

definition deliver :: "string \<Rightarrow> string \<Rightarrow> conns \<Rightarrow> conns" where
  "deliver ch p cs n = map_option (\<lambda>(chs, q). (chs, if ch \<in> chs then q @ [(ch, p)] else q)) (cs n)"

text \<open>The time at which a statement runs, as the server stores it, between two readings of the clock.\<close>

definition at_time :: "gotime \<Rightarrow> gotime \<Rightarrow> gotime \<Rightarrow> bool" where
  "at_time t now t' \<longleftrightarrow> ts_param t \<le> now \<and> now \<le> t'"

text \<open>What a call keeps: the server works, no identifier is drawn, and the clock does not go back.\<close>

definition kept :: "('s \<Rightarrow> bool) \<Rightarrow> ('s \<Rightarrow> bool) \<Rightarrow> ('s \<Rightarrow> nat \<Rightarrow> uuid go) \<Rightarrow> ('s \<Rightarrow> gotime) \<Rightarrow> 's \<Rightarrow> 's \<Rightarrow> bool" where
  "kept I U f now s s' \<longleftrightarrow> I s' \<and> U s' \<and> f s' = f s \<and> now s \<le> now s'"

text \<open>The names of channels are identifiers of at most 52 characters.\<close>

definition furan_channel :: "string \<Rightarrow> bool" where
  "furan_channel ch \<longleftrightarrow>
     (\<exists>bid. ch \<in> {pgChanFromID bid, pgCxlChanFromID bid, pgRunChanFromID bid, pgCompletedChanFromID bid})"

section \<open>The laws\<close>

text \<open>
  \<open>ids s k\<close> is the result of the call of \<^verbatim>\<open>uuid.NewV4\<close> after the next \<open>k\<close>; \<open>newpool\<close> is what
  \<^verbatim>\<open>NewPostgresDBLayer\<close> does: new connection pools for the same database.  The call that waits for a
  notification ends with its context when there is none.
\<close>

locale pg_full = pg_up pg tabs inv up
  for pg :: "'s PGServer" and tabs inv up +
  fixes ids :: "'s \<Rightarrow> nat \<Rightarrow> uuid go" and conns :: "'s \<Rightarrow> conns" and newpool :: "'s \<Rightarrow> 's"
    and other :: uuid
  assumes up_clock: "up s \<Longrightarrow> sane (pg_Now pg s)"
    and exec_works:
      "inv s \<Longrightarrow> up s \<Longrightarrow> clean_stmt st \<Longrightarrow> \<forall>now. apply_stmt now st (tabs s) \<noteq> None \<Longrightarrow>
       \<exists>s' now. pg_Exec pg Active st s = (s', Ok ()) \<and> kept inv up ids (pg_Now pg) s s' \<and> conns s' = conns s
         \<and> apply_stmt now st (tabs s) = Some (tabs s') \<and> at_time (pg_Now pg s) now (pg_Now pg s')"
    and select_works:
      "inv s \<Longrightarrow> up s \<Longrightarrow> \<exists>s'. pg_SelectBuild pg Active bid s
           = (s', case t_builds (tabs s) bid of None \<Rightarrow> Err ErrNoRows | Some row \<Rightarrow> Ok row)
         \<and> kept inv up ids (pg_Now pg) s s' \<and> conns s' = conns s \<and> tabs s' = tabs s"
    and selectkey_works:
      "inv s \<Longrightarrow> up s \<Longrightarrow> \<exists>s'. pg_SelectAPIKey pg Active kid s
           = (s', case t_keys (tabs s) kid of None \<Rightarrow> Err ErrNoRows | Some k \<Rightarrow> Ok k)
         \<and> kept inv up ids (pg_Now pg) s s' \<and> conns s' = conns s \<and> tabs s' = tabs s"
    and query_works:
      "inv s \<Longrightarrow> up s \<Longrightarrow> list_conds opts = (cs, args) \<Longrightarrow> cs \<noteq> [] \<Longrightarrow> list_all ascii_text (option_texts opts) \<Longrightarrow>
       known_status (lo_WithStatus opts) \<Longrightarrow> \<forall>t \<in> option_times opts. IsZero t \<or> storable t \<Longrightarrow>
       (case lim of None \<Rightarrow> True | Some n \<Rightarrow> n < 2 ^ 63) \<Longrightarrow>
       \<exists>s' rows. pg_Query pg Active cs lim args s = (s', Ok (map Ok rows)) \<and> kept inv up ids (pg_Now pg) s s' \<and> conns s' = conns s"
    and begin_works: "inv s \<Longrightarrow> up s \<Longrightarrow> \<exists>s'. pg_Begin pg Active s = (s', Ok ()) \<and> kept inv up ids (pg_Now pg) s s' \<and> conns s' = conns s"
    and txexec_works:
      "inv s \<Longrightarrow> up s \<Longrightarrow> clean_stmt st \<or> (\<exists>ch lit p. st = Notify ch lit \<and> clean_note lit p \<and> furan_channel ch) \<Longrightarrow>
       \<exists>s'. pg_TxExec pg Active sts st s = (s', Ok ()) \<and> kept inv up ids (pg_Now pg) s s' \<and> conns s' = conns s"
    and commit_works:
      "inv s \<Longrightarrow> up s \<Longrightarrow> clean_stmt st \<Longrightarrow> \<forall>now. apply_stmt now st (tabs s) \<noteq> None \<Longrightarrow> clean_note lit p \<Longrightarrow>
       furan_channel ch \<Longrightarrow> \<exists>s' now. pg_Commit pg Active [st, Notify ch lit] s = (s', Ok ()) \<and> kept inv up ids (pg_Now pg) s s' \<and> conns s' = deliver ch p (conns s)
         \<and> apply_stmt now st (tabs s) = Some (tabs s')"
    and rollback_works: "inv s \<Longrightarrow> up s \<Longrightarrow> kept inv up ids (pg_Now pg) s (pg_Rollback pg Active s) \<and> conns (pg_Rollback pg Active s) = conns s"
    and newv4_works:
      "inv s \<Longrightarrow> up s \<Longrightarrow> \<exists>s'. pg_NewV4 pg s = (s', ids s 0) \<and> inv s' \<and> up s' \<and> ids s' = (\<lambda>k. ids s (Suc k))
         \<and> pg_Now pg s \<le> pg_Now pg s' \<and> conns s' = conns s"
    and acquire_works:
      "inv s \<Longrightarrow> up s \<Longrightarrow> conns s = Map.empty \<Longrightarrow> \<exists>s' n. pg_Acquire pg Active s = (s', Ok n) \<and> kept inv up ids (pg_Now pg) s s'
         \<and> conns s' = [n \<mapsto> ({}, [])] \<and> tabs s' = tabs s"
    and listen_works:
      "inv s \<Longrightarrow> up s \<Longrightarrow> conns s n = Some (chs, q) \<Longrightarrow> furan_channel ch \<Longrightarrow>
       \<exists>s'. pg_Listen pg Active n ch s = (s', Ok ())
         \<and> kept inv up ids (pg_Now pg) s s' \<and> conns s' = (conns s)(n \<mapsto> (insert ch chs, q)) \<and> tabs s' = tabs s"
    and wait_works:
      "inv s \<Longrightarrow> up s \<Longrightarrow> conns s n = Some (chs, m # q) \<Longrightarrow> \<exists>s'. pg_WaitForNotification pg Active n s = (s', Ok m)
         \<and> kept inv up ids (pg_Now pg) s s' \<and> conns s' = (conns s)(n \<mapsto> (chs, q)) \<and> tabs s' = tabs s"
    and wait_ends:
      "inv s \<Longrightarrow> up s \<Longrightarrow> conns s n = Some (chs, []) \<Longrightarrow> \<exists>s' e. pg_WaitForNotification pg Active n s = (s', Err e)
         \<and> ctx_ended e \<and> kept inv up ids (pg_Now pg) s s' \<and> conns s' = conns s \<and> tabs s' = tabs s"
    and release_works:
      "inv s \<Longrightarrow> up s \<Longrightarrow> conns s n \<noteq> None \<Longrightarrow>
       kept inv up ids (pg_Now pg) s (pg_Release pg n s) \<and> tabs (pg_Release pg n s) = tabs s"
    and newpool_works:
      "inv s \<Longrightarrow> up s \<Longrightarrow> kept inv up ids (pg_Now pg) s (newpool s) \<and> tabs (newpool s) = tabs s \<and> conns (newpool s) = Map.empty"

section \<open>The contract's parameters\<close>

definition pg_builds :: "tables \<Rightarrow> uuid \<rightharpoonup> Build" where
  "pg_builds T bid = map_option (\<lambda>row. settle (out_build row)) (t_builds T bid)"

definition plain_tabs :: "tables \<Rightarrow> bool" where
  "plain_tabs T \<longleftrightarrow>
     (\<forall>bid b upd cmp. t_builds T bid = Some (b, upd, cmp) \<longrightarrow>
        b_Completed b = zero_time \<and> zero_time < b_Created b \<and> cmp \<noteq> Some zero_time)"

definition new_ids :: "uuid \<Rightarrow> uuid list \<Rightarrow> (nat \<Rightarrow> uuid go) \<Rightarrow> tables \<Rightarrow> bool" where
  "new_ids other us f T \<longleftrightarrow>
     dom (t_builds T) \<union> dom (t_keys T) \<subseteq> - {0, other} \<and> draws us f 0 ({0, other} \<union> dom (t_builds T) \<union> dom (t_keys T))"

section \<open>Effects of the statements\<close>

lemma ts_param_rounds: "rounds ts_param"
  by (auto simp: rounds_def ts_param_def less_eq_gotime_def less_gotime_def div_le_mono)

lemma ts_param_zero: "ts_param zero_time = zero_time"
  by (simp add: ts_param_def zero_time_def)

lemma ts_param_idem: "ts_param (ts_param t) = ts_param t"
  by (simp add: ts_param_def)

lemma storable_ts_param: "storable t \<Longrightarrow> storable (ts_param t)"
  using order_le_less_trans [OF div_times_less_eq_dividend] by (simp add: storable_def ts_param_def time_valid_def)

lemma storable_nonzero [simp]: "\<not> storable zero_time"
  by (simp add: storable_def zero_time_def)

lemma update_build_other: "i \<noteq> bid \<Longrightarrow> t_builds (update_build now bid f T) i = t_builds T i"
  by (simp add: update_build_def split: option.splits prod.splits)

lemma update_build_at:
  "t_builds (update_build now bid f T) bid
     = map_option (\<lambda>(b, upd, cmp). case f (b, cmp) of (b', cmp') \<Rightarrow> (b', Some now, cmp')) (t_builds T bid)"
  by (auto simp: update_build_def split: option.splits prod.splits)

lemma update_build_dom [simp]: "dom (t_builds (update_build now bid f T)) = dom (t_builds T)"
  by (auto simp: update_build_def split: option.splits prod.splits)

lemma settle_out_build:
  "settle (out_build (b, upd, cmp)) = settle (case cmp of None \<Rightarrow> b | Some t \<Rightarrow> b\<lparr>b_Completed := t\<rparr>)"
  by (simp add: out_build_def settle_def split: option.splits)

lemma pg_builds_status:
  "pg_builds (update_build now bid (\<lambda>(b, cmp). (b\<lparr>b_Status := st\<rparr>, cmp)) T) = change (pg_builds T) bid (\<lambda>b. b\<lparr>b_Status := st\<rparr>)"
proof (rule ext)
  fix i
  show "pg_builds (update_build now bid (\<lambda>(b, cmp). (b\<lparr>b_Status := st\<rparr>, cmp)) T) i
      = change (pg_builds T) bid (\<lambda>b. b\<lparr>b_Status := st\<rparr>) i"
    by (cases "i = bid"; cases "t_builds T bid")
      (auto simp: pg_builds_def change_apply update_build_other update_build_at settle_out_build split: option.splits)
qed

lemma out_build_events [simp]: "b_Events (out_build (b, upd, cmp)) = b_Events b"
  by (simp add: out_build_def split: option.splits)

lemma pg_builds_event:
  "pg_builds (update_build now bid (\<lambda>(b, cmp). (b\<lparr>b_Events := b_Events b @ [e]\<rparr>, cmp)) T)
     = change (pg_builds T) bid (\<lambda>b. b\<lparr>b_Events := b_Events b @ [e]\<rparr>)"
proof (rule ext)
  fix i
  show "pg_builds (update_build now bid (\<lambda>(b, cmp). (b\<lparr>b_Events := b_Events b @ [e]\<rparr>, cmp)) T) i
      = change (pg_builds T) bid (\<lambda>b. b\<lparr>b_Events := b_Events b @ [e]\<rparr>) i"
    by (cases "i = bid"; cases "t_builds T bid")
      (auto simp: pg_builds_def change_apply update_build_other update_build_at settle_out_build split: option.splits)
qed

lemma pg_builds_completed:
  "pg_builds (update_build now bid (\<lambda>(b, cmp). (b, Some t)) T) = change (pg_builds T) bid (\<lambda>b. b\<lparr>b_Completed := t\<rparr>)"
proof (rule ext)
  fix i
  show "pg_builds (update_build now bid (\<lambda>(b, cmp). (b, Some t)) T) i = change (pg_builds T) bid (\<lambda>b. b\<lparr>b_Completed := t\<rparr>) i"
    by (cases "i = bid"; cases "t_builds T bid")
      (auto simp: pg_builds_def change_apply update_build_other update_build_at settle_out_build split: option.splits)
qed

lemma plain_update:
  assumes "plain_tabs T"
    and "\<And>b cmp b' cmp'. f (b, cmp) = (b', cmp') \<Longrightarrow> b_Completed b' = b_Completed b \<and> b_Created b' = b_Created b
      \<and> (cmp \<noteq> Some zero_time \<longrightarrow> cmp' \<noteq> Some zero_time)"
  shows "plain_tabs (update_build now bid f T)"
  unfolding plain_tabs_def
proof (intro allI impI)
  fix i b' upd' cmp' assume r: "t_builds (update_build now bid f T) i = Some (b', upd', cmp')"
  show "b_Completed b' = zero_time \<and> zero_time < b_Created b' \<and> cmp' \<noteq> Some zero_time"
  proof (cases "i = bid")
    case True
    with r obtain b upd cmp where o: "t_builds T bid = Some (b, upd, cmp)"
      and f: "(case f (b, cmp) of (x, y) \<Rightarrow> (x, Some now, y)) = (b', upd', cmp')"
      by (auto simp: update_build_at)
    from f have "f (b, cmp) = (b', cmp')" by (cases "f (b, cmp)") simp
    from assms(2) [OF this] o assms(1) show ?thesis unfolding plain_tabs_def by metis
  next
    case False
    with r assms(1) show ?thesis unfolding plain_tabs_def update_build_other [OF False] by metis
  qed
qed

definition inserting :: "stmt \<Rightarrow> bool" where
  "inserting st = (case st of InsertBuild _ _ _ \<Rightarrow> True | InsertAPIKey _ _ \<Rightarrow> True | SeedAPIKey _ _ _ \<Rightarrow> True | _ \<Rightarrow> False)"

lemma apply_other:
  assumes "\<not> inserting st"
  shows "apply_stmt now st T \<noteq> None"
    "apply_stmt now st T = Some T' \<Longrightarrow> dom (t_builds T') \<subseteq> dom (t_builds T) \<and> dom (t_keys T') \<subseteq> dom (t_keys T)"
proof -
  show "apply_stmt now st T \<noteq> None" using assms by (cases st) (simp_all add: inserting_def)
  show "dom (t_builds T') \<subseteq> dom (t_builds T) \<and> dom (t_keys T') \<subseteq> dom (t_keys T)" if "apply_stmt now st T = Some T'"
    using assms that [symmetric] by (cases st) (simp_all add: inserting_def)
qed

lemma plain_apply:
  assumes "plain_tabs T" "clean_stmt st" "apply_stmt now st T = Some T'" "\<not> inserting st"
  shows "plain_tabs T'"
  using assms
  by (cases st) (auto simp: inserting_def intro!: plain_update, (auto simp: plain_tabs_def split: if_splits)+)

lemma new_ids_mono:
  assumes "new_ids other us f T" "dom (t_builds T') \<subseteq> dom (t_builds T)" "dom (t_keys T') \<subseteq> dom (t_keys T)"
  shows "new_ids other us f T'"
proof -
  have "draws us f 0 ({0, other} \<union> dom (t_builds T') \<union> dom (t_keys T'))"
    by (rule draws_mono [of _ _ _ "{0, other} \<union> dom (t_builds T) \<union> dom (t_keys T)"]) (use assms in \<open>auto simp: new_ids_def\<close>)
  with assms show ?thesis unfolding new_ids_def by blast
qed

lemma kept_trans: "kept I U f c s s' \<Longrightarrow> kept I U f c s' s'' \<Longrightarrow> kept I U f c s s''"
  unfolding kept_def by auto

lemma keptD:
  assumes "kept I U f c s s'"
  shows "I s'" "U s'" "f s' = f s" "c s \<le> c s'"
  using assms by (auto simp: kept_def)

definition pg_usable :: "('s \<Rightarrow> bool) \<Rightarrow> ('s \<Rightarrow> bool) \<Rightarrow> ('s \<Rightarrow> tables) \<Rightarrow> ('s \<Rightarrow> nat \<Rightarrow> uuid go) \<Rightarrow> uuid \<Rightarrow> uuid list \<Rightarrow> 's \<Rightarrow> bool" where
  "pg_usable I U tab f u us s \<longleftrightarrow> I s \<and> U s \<and> plain_tabs (tab s) \<and> new_ids u us (f s) (tab s)"

definition pg_ready ::
  "('s \<Rightarrow> bool) \<Rightarrow> ('s \<Rightarrow> bool) \<Rightarrow> ('s \<Rightarrow> tables) \<Rightarrow> ('s \<Rightarrow> nat \<Rightarrow> uuid go) \<Rightarrow> ('s \<Rightarrow> conns) \<Rightarrow> uuid \<Rightarrow> uuid list \<Rightarrow> 's \<Rightarrow> bool" where
  "pg_ready I U tab f cs u us s \<longleftrightarrow> pg_usable I U tab f u us s \<and> cs s = Map.empty"

lemma pg_usable_step:
  assumes "pg_usable I U tab f u us s" "kept I U f now s s'" "plain_tabs (tab s')"
    "dom (t_builds (tab s')) \<subseteq> dom (t_builds (tab s))" "dom (t_keys (tab s')) \<subseteq> dom (t_keys (tab s))"
  shows "pg_usable I U tab f u us s'"
  using assms new_ids_mono [of u us "f s" "tab s" "tab s'"] unfolding pg_usable_def kept_def by simp

lemma pg_usable_same:
  "pg_usable I U tab f u us s \<Longrightarrow> kept I U f now s s' \<Longrightarrow> tab s' = tab s \<Longrightarrow> pg_usable I U tab f u us s'"
  by (simp add: pg_usable_def kept_def)

lemma draws_shift: "draws us (\<lambda>k. f (Suc k)) i X = draws us f (Suc i) X"
  by (induction us arbitrary: i X) simp_all

text \<open>The row of a new build.\<close>

definition new_row :: "Build \<Rightarrow> Build" where
  "new_row b = (clear_credential b)\<lparr>b_BuildOptions := json_opts (b_BuildOptions (clear_credential b))\<rparr>"

lemma new_row_texts: "list_all ascii_text (build_texts b) \<Longrightarrow> list_all ascii_text (build_texts (new_row b))"
  by (auto simp: new_row_def clear_credential_def json_opts_def build_texts_def definition_texts_def ascii_text_def split: option.splits)

lemma new_row_stored:
  assumes "new_build b"
  shows "stored_as b u (settle (out_build (inserted now u (new_row b) BuildStatusNotStarted)))"
    "b_Created (settle (out_build (inserted now u (new_row b) BuildStatusNotStarted))) = now"
  by (auto simp: stored_as_def created_as_def inserted_def out_build_def new_row_def clear_credential_def json_opts_def settle_def
      split: option.splits)

lemma new_ids_draw:
  assumes "new_ids other (u # us) f T"
  shows "f 0 = Ok u" "u \<notin> {0, other}" "t_builds T u = None" "t_keys T u = None"
    "dom (t_builds T') \<union> dom (t_keys T') = insert u (dom (t_builds T) \<union> dom (t_keys T)) \<Longrightarrow>
       new_ids other us (\<lambda>k. f (Suc k)) T'"
proof -
  let ?X = "{0, other} \<union> dom (t_builds T) \<union> dom (t_keys T)"
  from assms have u: "f 0 = Ok u" "u \<notin> ?X" "draws us f 1 (insert u ?X)" and d: "dom (t_builds T) \<union> dom (t_keys T) \<subseteq> - {0, other}"
    by (auto simp: new_ids_def)
  show "new_ids other us (\<lambda>k. f (Suc k)) T'"
    if e: "dom (t_builds T') \<union> dom (t_keys T') = insert u (dom (t_builds T) \<union> dom (t_keys T))" for T'
  proof -
    have "{0, other} \<union> dom (t_builds T') \<union> dom (t_keys T') = insert u ?X" using e by blast
    moreover have "dom (t_builds T') \<union> dom (t_keys T') \<subseteq> - {0, other}" unfolding e using d u(2) by blast
    ultimately show ?thesis using u(3) unfolding new_ids_def draws_shift by simp
  qed
  show "f 0 = Ok u" "t_builds T u = None" "t_keys T u = None" "u \<notin> {0, other}" using u(1,2) by (blast, metis UnI1 UnI2 domIff, metis UnI2 domIff, blast)
qed

text \<open>With the parameters at the resolution of the server the conditions select what the options describe.\<close>

lemma ts_param_IsZero: "IsZero t \<or> storable t \<Longrightarrow> IsZero (ts_param t) \<longleftrightarrow> IsZero t"
  using storable_ts_param [of t] by (auto simp: IsZero_def ts_param_zero)

lemma pg_selects_at_res:
  assumes "\<forall>t \<in> option_times opts. IsZero t \<or> storable t" "b_Completed b = zero_time" "zero_time < b_Created b" "cmp \<noteq> Some zero_time"
  shows "pg_selects opts (b, upd, cmp) \<longleftrightarrow> selects (at_res ts_param opts) (out_build (b, upd, cmp))"
proof -
  have pos: "\<not> ts_param t \<le> zero_time" if "t \<in> option_times opts" "\<not> IsZero t" for t
    using storable_pos [OF ts_param_rounds, of t] assms(1) that by auto
  have z: "IsZero (ts_param t) \<longleftrightarrow> IsZero t" if "t \<in> option_times opts" for t using ts_param_IsZero assms(1) that by blast
  have m: "lo_CompletedAfter opts \<in> option_times opts" "lo_StartedAfter opts \<in> option_times opts"
    "lo_CompletedBefore opts \<in> option_times opts" "lo_StartedBefore opts \<in> option_times opts" by (simp_all add: option_times_def)
  have iz: "IsZero zero_time" "\<not> IsZero (b_Created b)" "cmp = Some t \<Longrightarrow> \<not> IsZero t" for t using assms(3,4) by (auto simp: IsZero_def)
  show ?thesis
    by (cases cmp) (simp_all add: pg_selects_def selects_def at_res_def out_build_simps z m iz assms(2) pos [OF m(1)])
qed

lemma fst_add_cond: "fst (add_cond p mk v ca) = [] \<longleftrightarrow> \<not> p \<and> fst ca = []"
  by (cases ca) (simp add: add_cond_def)

lemma list_conds_some:
  assumes "opts\<lparr>lo_Limit := 0\<rparr> \<noteq> zero_ListBuildsOptions"
  shows "fst (list_conds opts) \<noteq> []"
proof
  assume "fst (list_conds opts) = []"
  then have "opts\<lparr>lo_Limit := 0\<rparr> = zero_ListBuildsOptions"
    unfolding list_conds_def Let_def by (simp add: fst_add_cond zero_ListBuildsOptions_def IsZero_def)
  with assms show False by simp
qed

text \<open>Notifications.\<close>

lemma deliver_one: "deliver ch p [k \<mapsto> ({ch}, q)] = [k \<mapsto> ({ch}, q @ [(ch, p)])]"
  by (rule ext) (simp add: deliver_def)

lemma clean_note_plain: "CHR 39 \<notin> set p \<Longrightarrow> ascii_text p \<Longrightarrow> length p < 1000 \<Longrightarrow> clean_note ([CHR 39] @ p @ [CHR 39]) p"
  unfolding clean_note_def parse_lit_plain by (simp add: ascii_text_def)

lemma clean_notes:
  "clean_note ([CHR 39] @ ''running'' @ [CHR 39]) ''running''" "clean_note ([CHR 39] @ ''cancel'' @ [CHR 39]) ''cancel''"
  by (rule clean_note_plain; simp add: ascii_text_def)+

lemma quote_ascii_text:
  "ascii_text e \<Longrightarrow> ascii_text (ReplaceAll e (CHR 39) [CHR 39, CHR 39]) \<and> length (ReplaceAll e (CHR 39) [CHR 39, CHR 39]) \<le> 2 * length e"
  by (induction e) (auto simp: ReplaceAll_Cons ascii_text_def ReplaceAll_def)

lemma clean_note_event: "event_text e \<Longrightarrow> clean_note (quoteString e) e"
  using quote_ascii_text [of e] parse_quoteString [of e]
  by (simp add: clean_note_def event_text_def quoteString_def ascii_text_def)

lemma clean_note_status:
  assumes "TerminalState st"
  shows "clean_note ([CHR 39] @ itoa st @ [CHR 39]) (itoa st)" "completed_payload (itoa st) = Ok st"
proof -
  have i: "itoa 2 = ''2''" "itoa 4 = ''4''" "itoa 5 = ''5''" "itoa 7 = ''7''" by code_simp+
  have p: "completed_payload ''2'' = Ok 2" "completed_payload ''4'' = Ok 4" "completed_payload ''5'' = Ok 5" "completed_payload ''7'' = Ok 7"
    by code_simp+
  from assms have "st \<in> {2, 4, 5, 7}" by (auto simp: TerminalState_def)
  then have "st = 2 \<or> st = 4 \<or> st = 5 \<or> st = 7" by simp
  then show "completed_payload (itoa st) = Ok st" by (elim disjE) (simp_all add: i p)
  have "CHR 39 \<notin> set (itoa st) \<and> ascii_text (itoa st) \<and> length (itoa st) < 1000"
    using \<open>st = 2 \<or> st = 4 \<or> st = 5 \<or> st = 7\<close> by (elim disjE) (simp_all add: i ascii_text_def)
  then show "clean_note ([CHR 39] @ itoa st @ [CHR 39]) (itoa st)" using clean_note_plain by blast
qed

lemma furan_channels [simp]:
  "furan_channel (pgChanFromID bid)" "furan_channel (pgCxlChanFromID bid)" "furan_channel (pgRunChanFromID bid)"
  "furan_channel (pgCompletedChanFromID bid)"
  by (auto simp: furan_channel_def)

section \<open>The operations\<close>

context pg_full
begin

abbreviation usable :: "uuid list \<Rightarrow> 's \<Rightarrow> bool" where
  "usable \<equiv> pg_usable inv up tabs ids other"

abbreviation ready :: "uuid list \<Rightarrow> 's \<Rightarrow> bool" where
  "ready \<equiv> pg_ready inv up tabs ids conns other"

abbreviation goes :: "'s \<Rightarrow> 's \<Rightarrow> bool" where
  "goes \<equiv> kept inv up ids (pg_Now pg)"

lemma usableD: "usable us s \<Longrightarrow> inv s \<and> up s \<and> plain_tabs (tabs s) \<and> new_ids other us (ids s) (tabs s)"
  by (simp add: pg_usable_def)

lemma readyD: "ready us s \<Longrightarrow> usable us s \<and> inv s \<and> up s \<and> plain_tabs (tabs s) \<and> conns s = Map.empty"
  by (simp add: pg_ready_def pg_usable_def)

lemma get_full:
  assumes "inv s" "up s"
  shows "\<exists>s'. GetBuildByID pg Active bid s
      = (s', case t_builds (tabs s) bid of None \<Rightarrow> Err ErrNotFound | Some row \<Rightarrow> Ok (out_build row))
    \<and> goes s s' \<and> conns s' = conns s \<and> tabs s' = tabs s"
  using select_works [OF assms, of bid] by (auto simp: GetBuildByID_def retry_first split: option.splits)

lemma exec_full:
  assumes "usable us s" "clean_stmt st" "\<not> inserting st"
  shows "\<exists>s' now. pg_Exec pg Active st s = (s', Ok ()) \<and> goes s s' \<and> conns s' = conns s
    \<and> apply_stmt now st (tabs s) = Some (tabs s') \<and> usable us s'"
proof -
  note u = usableD [OF assms(1)]
  from exec_works [of s st] u assms(2,3) apply_other(1) [OF assms(3)] obtain s' now
    where s': "pg_Exec pg Active st s = (s', Ok ())" "goes s s'" "conns s' = conns s" "apply_stmt now st (tabs s) = Some (tabs s')" by blast
  from pg_usable_step [OF assms(1) s'(2)] plain_apply [OF _ assms(2) s'(4) assms(3)] apply_other(2) [OF assms(3) s'(4)] u
  have "usable us s'" by blast
  with s' show ?thesis by blast
qed

lemma txn_full:
  assumes "usable us s" "clean_stmt st" "\<not> inserting st" "clean_note lit p" "furan_channel ch"
  shows "\<exists>s' now. txn pg Active m1 st m2 (Notify ch lit) s = (s', Ok ()) \<and> goes s s' \<and> conns s' = deliver ch p (conns s)
    \<and> apply_stmt now st (tabs s) = Some (tabs s') \<and> usable us s'"
proof -
  note u = usableD [OF assms(1)]
  from begin_works u obtain s1 where 1: "pg_Begin pg Active s = (s1, Ok ())" "goes s s1" "conns s1 = conns s" by blast
  note t1 = begin_law [OF _ 1(1)] and k1 = keptD [OF 1(2)]
  from txexec_works [of s1 st "[]"] assms(2) k1 obtain s2
    where 2: "pg_TxExec pg Active [] st s1 = (s2, Ok ())" "goes s1 s2" "conns s2 = conns s" unfolding 1(3) by blast
  note t2 = txexec_law [OF k1(1) 2(1)] and k2 = keptD [OF 2(2)]
  from txexec_works [of s2 "Notify ch lit" "[st]"] assms(4,5) k2 obtain s3
    where 3: "pg_TxExec pg Active [st] (Notify ch lit) s2 = (s3, Ok ())" "goes s2 s3" "conns s3 = conns s" unfolding 2(3) by blast
  note t3 = txexec_law [OF k2(1) 3(1)] and k3 = keptD [OF 3(2)]
  have T: "tabs s3 = tabs s" using t1 t2 t3 u by simp
  from commit_works [OF k3(1,2) assms(2) _ assms(4,5)] apply_other(1) [OF assms(3)] obtain s4 now
    where 4: "pg_Commit pg Active [st, Notify ch lit] s3 = (s4, Ok ())" "goes s3 s4" "conns s4 = deliver ch p (conns s)"
      "apply_stmt now st (tabs s) = Some (tabs s4)" unfolding T 3(3) by blast
  note k4 = keptD [OF 4(2)]
  let ?s = "pg_Rollback pg Active s4"
  note r = rollback_works [OF k4(1,2)] and rt = rollback_law [OF k4(1), of Active]
  have g: "goes s ?s" using 1(2) 2(2) 3(2) 4(2) r kept_trans by metis
  have e: "txn pg Active m1 st m2 (Notify ch lit) s = (?s, Ok ())" by (simp add: txn_def txn_body_def 1(1) 2(1) 3(1) 4(1))
  have a: "apply_stmt now st (tabs s) = Some (tabs ?s)" using 4(4) rt by simp
  from pg_usable_step [OF assms(1) g] plain_apply [OF _ assms(2) a assms(3)] apply_other(2) [OF assms(3) a] u
  have "usable us ?s" by blast
  with e g a r 4(3) show ?thesis by metis
qed

lemma create_full:
  assumes "ready (u # us) s" "new_build b"
  shows "\<exists>s' b'. CreateBuild pg Active b s = (s', Ok u) \<and> ready us s' \<and> pg_Now pg s \<le> pg_Now pg s'
    \<and> pg_builds (tabs s') = (pg_builds (tabs s))(u \<mapsto> b') \<and> u \<in> - {0, other} \<and> pg_builds (tabs s) u = None
    \<and> stored_as b u b' \<and> ts_param (pg_Now pg s) \<le> b_Created b' \<and> b_Created b' \<le> pg_Now pg s'"
proof -
  note r = readyD [OF assms(1)]
  from r have "new_ids other (u # us) (ids s) (tabs s)" using usableD by blast
  note new = new_ids_draw [OF this]
  note u = new(1,2,3,5)
  from newv4_works [of s] r u(1) obtain s1 where 1: "pg_NewV4 pg s = (s1, Ok u)" "inv s1" "up s1" "ids s1 = (\<lambda>k. ids s (Suc k))"
    "pg_Now pg s \<le> pg_Now pg s1" "conns s1 = conns s" by auto
  have t1: "tabs s1 = tabs s" using newv4_law [OF _ 1(1)] r by blast
  let ?st = "InsertBuild u (new_row b) BuildStatusNotStarted"
  have "clean_stmt ?st" using new_row_texts assms(2) by (simp add: new_build_def)
  from exec_works [OF 1(2,3) this] u(3) obtain s2 now where 2: "pg_Exec pg Active ?st s1 = (s2, Ok ())" "goes s1 s2" "conns s2 = conns s1"
    "apply_stmt now ?st (tabs s) = Some (tabs s2)" "at_time (pg_Now pg s1) now (pg_Now pg s2)" unfolding t1 by fastforce
  note k = keptD [OF 2(2)]
  let ?row = "inserted now u (new_row b) BuildStatusNotStarted"
  have T: "tabs s2 = (tabs s)\<lparr>t_builds := (t_builds (tabs s))(u \<mapsto> ?row)\<rparr>" using 2(4) u(3) by simp
  have now: "ts_param (pg_Now pg s) \<le> now" "now \<le> pg_Now pg s2"
    using 2(5) rounds_mono [OF ts_param_rounds 1(5)] by (auto simp: at_time_def)
  have z: "zero_time < ts_param (pg_Now pg s)" using storable_pos [OF ts_param_rounds sane_storable [OF up_clock]] r by blast
  have "plain_tabs (tabs s2)"
    using r z now(1) by (auto simp: T plain_tabs_def inserted_def)
  moreover have "new_ids other us (ids s2) (tabs s2)" unfolding k(3) 1(4) by (rule u(4)) (simp add: T)
  ultimately have rd: "ready us s2" using k 2(3) 1(6) r by (simp add: pg_ready_def pg_usable_def)
  have full: "pg_builds (tabs s2) = (pg_builds (tabs s))(u \<mapsto> settle (out_build ?row))"
    by (rule ext) (simp add: pg_builds_def T)
  have "CreateBuild pg Active b s = (s2, Ok u)" using 1(1) 2(1) by (simp add: CreateBuild_def Let_def new_row_def)
  with rd full new_row_stored(1) [OF assms(2), of u now] new_row_stored(2) [OF assms(2), of now u] now u(2,3) 1(5) k(4) show ?thesis
    by (intro exI [of _ s2] exI [of _ "settle (out_build ?row)"]) (auto simp: pg_builds_def)
qed

lemma createkey_full:
  assumes "ready (u # us) s" "list_all ascii_text (key_texts k)"
  shows "\<exists>s' k'. CreateAPIKey pg Active k s = (s', Ok u) \<and> ready us s' \<and> t_keys (tabs s') = (t_keys (tabs s))(u \<mapsto> k')
    \<and> u \<in> - {0, other} \<and> t_keys (tabs s) u = None \<and> ak_ReadOnly k' = ak_ReadOnly k"
proof -
  note r = readyD [OF assms(1)]
  from r have "new_ids other (u # us) (ids s) (tabs s)" using usableD by blast
  note new = new_ids_draw [OF this]
  note u = new(1,2,4,5)
  from newv4_works [of s] r u(1) obtain s1 where 1: "pg_NewV4 pg s = (s1, Ok u)" "inv s1" "up s1" "ids s1 = (\<lambda>k. ids s (Suc k))"
    "conns s1 = conns s" by auto
  have t1: "tabs s1 = tabs s" using newv4_law [OF _ 1(1)] r by blast
  have "clean_stmt (InsertAPIKey u k)" using assms(2) by simp
  from exec_works [OF 1(2,3) this] u(3) obtain s2 now where 2: "pg_Exec pg Active (InsertAPIKey u k) s1 = (s2, Ok ())" "goes s1 s2"
    "conns s2 = conns s1" "apply_stmt now (InsertAPIKey u k) (tabs s) = Some (tabs s2)" unfolding t1 by fastforce
  note g = keptD [OF 2(2)]
  have T: "tabs s2 = (tabs s)\<lparr>t_keys := (t_keys (tabs s))(u \<mapsto> k\<lparr>ak_ID := u, ak_Created := now\<rparr>)\<rparr>" using 2(4) u(3) by simp
  have "plain_tabs (tabs s2)" using r by (auto simp: T plain_tabs_def)
  moreover have "new_ids other us (ids s2) (tabs s2)" unfolding g(3) 1(4) by (rule u(4)) (simp add: T)
  ultimately have "ready us s2" using g 2(3) 1(5) r by (simp add: pg_ready_def pg_usable_def)
  moreover have "CreateAPIKey pg Active k s = (s2, Ok u)" using 1(1) 2(1) by (simp add: CreateAPIKey_def)
  ultimately show ?thesis using u(2,3) by (intro exI [of _ s2] exI [of _ "k\<lparr>ak_ID := u, ak_Created := now\<rparr>"]) (auto simp: T)
qed

lemma list_full:
  assumes "ready us s" "options_ok opts" "\<forall>t \<in> option_times opts. IsZero t \<or> storable t" "list_all ascii_text (option_texts opts)"
    and "known_status (lo_WithStatus opts)" "lo_Limit opts < 2 ^ 63" "opts\<lparr>lo_Limit := 0\<rparr> \<noteq> zero_ListBuildsOptions"
  shows "\<exists>s' out. ListBuilds pg Active opts s = (s', Ok out) \<and> goes s s' \<and> conns s' = conns s \<and> tabs s' = tabs s
    \<and> distinct (map settle out) \<and> settle ` set out \<subseteq> {b \<in> ran (pg_builds (tabs s)). selects (at_res ts_param opts) b}
    \<and> length out = (let n = card {b \<in> ran (pg_builds (tabs s)). selects (at_res ts_param opts) b}
        in if lo_Limit opts = 0 then n else min (unat (lo_Limit opts)) n)"
proof -
  note r = readyD [OF assms(1)]
  obtain cs args where ca: "list_conds opts = (cs, args)" by fastforce
  have ne: "cs \<noteq> []" using list_conds_some [OF assms(7)] ca by simp
  let ?lim = "if 0 < lo_Limit opts then Some (lo_Limit opts) else None"
  have "case ?lim of None \<Rightarrow> True | Some n \<Rightarrow> n < 2 ^ 63" using assms(6) by simp
  from query_works [OF _ _ ca ne assms(4,5,3) this, of s] r obtain s' rows
    where q: "pg_Query pg Active cs ?lim args s = (s', Ok (map Ok rows))" "goes s s'" "conns s' = conns s" by blast
  have scan: "scan_rows (map Ok rs) acc = Ok (acc @ map out_build rs)" for rs acc
    by (induction rs arbitrary: acc) simp_all
  have l: "ListBuilds pg Active opts s = (s', Ok (map out_build rows))"
    unfolding ListBuilds_def if_not_P [OF options_ok_guards(1) [OF assms(2)]]
      if_not_P [OF options_ok_guards(2) [OF assms(2)]]
      if_not_P [OF options_ok_guards(3) [OF assms(2)]] ca prod.case q(1) go.case scan by simp
  from ListBuilds_result [OF _ assms(2) l] r obtain rs where rs: "tabs s' = tabs s" "map out_build rows = map out_build rs" "distinct rs"
    "set rs \<subseteq> {r \<in> ran (t_builds (tabs s)). pg_selects opts r}"
    "if lo_Limit opts = 0 then set rs = {r \<in> ran (t_builds (tabs s)). pg_selects opts r}
     else length rs = min (unat (lo_Limit opts)) (card {r \<in> ran (t_builds (tabs s)). pg_selects opts r})" by blast
  let ?g = "\<lambda>row. settle (out_build row)"
  let ?R = "{r \<in> ran (t_builds (tabs s)). pg_selects opts r}"
  let ?S = "{b \<in> ran (pg_builds (tabs s)). selects (at_res ts_param opts) b}"
  have row: "pg_selects opts row \<longleftrightarrow> selects (at_res ts_param opts) (out_build row)" if "row \<in> ran (t_builds (tabs s))" for row
  proof -
    obtain b upd cmp where e: "row = (b, upd, cmp)" by (cases row)
    with that obtain i where "t_builds (tabs s) i = Some (b, upd, cmp)" by (auto simp: ran_def)
    with r have "b_Completed b = zero_time" "zero_time < b_Created b" "cmp \<noteq> Some zero_time" unfolding plain_tabs_def by metis+
    from pg_selects_at_res [OF assms(3) this] show ?thesis unfolding e .
  qed
  have "ran (pg_builds (tabs s)) = ?g ` ran (t_builds (tabs s))" by (auto simp: pg_builds_def ran_def)
  then have S: "?S = ?g ` ?R" using row by auto
  have inj: "inj_on ?g (ran (t_builds (tabs s)))"
  proof (rule inj_onI)
    fix x y assume x: "x \<in> ran (t_builds (tabs s))" "y \<in> ran (t_builds (tabs s))" and e: "?g x = ?g y"
    then obtain i j where ij: "t_builds (tabs s) i = Some x" "t_builds (tabs s) j = Some y" by (auto simp: ran_def)
    have "b_ID (fst x) = i" "b_ID (fst y) = j" using rows_wf r ij by blast+
    moreover have "b_ID (?g x) = b_ID (fst x)" "b_ID (?g y) = b_ID (fst y)" by (metis erase_fields(1) erase_out_build settle_fields(1))+
    ultimately show "x = y" using ij e by simp
  qed
  then have injR: "inj_on ?g ?R" by (rule inj_on_subset) blast
  have fin: "finite ?R" by (rule finite_subset [OF _ finite_ran]) auto
  have card: "card ?S = card ?R" unfolding S by (rule card_image [OF injR])
  have "map settle (map out_build rows) = map ?g rs" unfolding rs(2) by simp
  moreover have "distinct (map ?g rs)" using rs(3,4) injR by (auto simp: distinct_map intro: inj_on_subset)
  moreover have "settle ` set (map out_build rows) = ?g ` set rs" unfolding rs(2) by auto
  moreover have "length rows = length rs" using rs(2) by (metis length_map)
  moreover have "length rs = (if lo_Limit opts = 0 then card ?R else min (unat (lo_Limit opts)) (card ?R))"
    using rs(5) distinct_card [OF rs(3)] by (auto split: if_splits)
  moreover have "?g ` set rs \<subseteq> ?S" unfolding S using rs(4) by blast
  ultimately show ?thesis using l q(2,3) rs(1) unfolding Let_def card
    by (intro exI [of _ s'] exI [of _ "map out_build rows"]) auto
qed

text \<open>The listeners, on a pool that has given out no connection.\<close>

lemma wait_full:
  assumes "ready us s" "furan_channel ch"
    and "\<And>t k. usable us t \<Longrightarrow> tabs t = tabs s \<Longrightarrow> conns t = [k \<mapsto> ({ch}, [])] \<Longrightarrow> goes s t \<Longrightarrow>
      usable us (f t) \<and> goes t (f t) \<and> conns (f t) = [k \<mapsto> ({ch}, [(ch, p)])]"
  shows "\<exists>s'. listen_wait (\<lambda>t. t) f pg Active bid ch msg s = (s', Ok (ch, p)) \<and> usable us s'"
proof -
  note r = readyD [OF assms(1)]
  from acquire_works [of s] r obtain s1 k where 1: "pg_Acquire pg Active s = (s1, Ok k)" "goes s s1" "conns s1 = [k \<mapsto> ({}, [])]"
    "tabs s1 = tabs s" by blast
  note k1 = keptD [OF 1(2)]
  from listen_works [OF k1(1,2) _ assms(2), of k "{}" "[]"] 1(3,4) obtain s2
    where 2: "pg_Listen pg Active k ch s1 = (s2, Ok ())" "goes s1 s2" "conns s2 = [k \<mapsto> ({ch}, [])]" "tabs s2 = tabs s" by auto
  note g2 = kept_trans [OF 1(2) 2(2)]
  have u2: "usable us s2" using pg_usable_same [OF conjunct1 [OF r] g2] 2(4) by blast
  from assms(3) [OF u2 2(4,3) g2] have f: "usable us (f s2)" "conns (f s2) k = Some ({ch}, [(ch, p)])" by simp_all
  note uf = usableD [OF f(1)]
  from wait_works [OF _ _ f(2)] uf obtain s3 where 3: "pg_WaitForNotification pg Active k (f s2) = (s3, Ok (ch, p))" "goes (f s2) s3"
    "conns s3 = (conns (f s2))(k \<mapsto> ({ch}, []))" "tabs s3 = tabs (f s2)" by blast
  note k3 = keptD [OF 3(2)]
  let ?s = "pg_Release pg k s3"
  have rel: "goes s3 ?s \<and> tabs ?s = tabs s3" using release_works [OF k3(1,2)] 3(3) by simp
  have "usable us ?s" using pg_usable_same [OF f(1) kept_trans [OF 3(2) conjunct1 [OF rel]]] rel 3(4) by simp
  moreover have "listen_wait (\<lambda>t. t) f pg Active bid ch msg s = (?s, Ok (ch, p))"
    by (simp add: listen_wait_def 1(1) 2(1) 3(1))
  ultimately show ?thesis by blast
qed

lemma cancel_note:
  assumes "usable us t" "t_builds (tabs t) bid = Some row" "b_Status (fst row) = BuildStatusRunning"
    "conns t = [k \<mapsto> ({pgCxlChanFromID bid}, [])]"
  shows "usable us (fst (CancelBuild (\<lambda>s. s) pg Active bid t)) \<and> goes t (fst (CancelBuild (\<lambda>s. s) pg Active bid t))
    \<and> conns (fst (CancelBuild (\<lambda>s. s) pg Active bid t)) = [k \<mapsto> ({pgCxlChanFromID bid}, [(pgCxlChanFromID bid, ''cancel'')])]"
proof -
  note u = usableD [OF assms(1)]
  from get_full [of t bid] u assms(2) obtain t1 where 1: "GetBuildByID pg Active bid t = (t1, Ok (out_build row))" "goes t t1"
    "conns t1 = conns t" "tabs t1 = tabs t" by auto
  have u1: "usable us t1" using pg_usable_same [OF assms(1) 1(2)] 1(4) by blast
  have c: "clean_note ([CHR 39] @ ''cancel'' @ [CHR 39]) ''cancel''" by (rule clean_note_plain) (simp_all add: ascii_text_def)
  from txn_full [OF u1 _ _ c, of "UpdateStatus BuildStatusCancelRequested bid" "pgCxlChanFromID bid"
      "''error cancelling build: ''" "''error notifying cancel channel: ''"] obtain t2
    where 2: "txn pg Active ''error cancelling build: '' (UpdateStatus BuildStatusCancelRequested bid)
       ''error notifying cancel channel: '' (Notify (pgCxlChanFromID bid) ([CHR 39] @ ''cancel'' @ [CHR 39])) t1 = (t2, Ok ())"
      "goes t1 t2" "conns t2 = deliver (pgCxlChanFromID bid) ''cancel'' (conns t1)" "usable us t2"
    by (auto simp: inserting_def)
  have "CancelBuild (\<lambda>s. s) pg Active bid t = (t2, Ok ())"
    using 1(1) 2(1) assms(3) by (simp add: CancelBuild_def Running_def)
  then show ?thesis using 2(3,4) kept_trans [OF 1(2) 2(2)] by (simp add: 1(3) assms(4) deliver_one)
qed

lemma running_note:
  assumes "usable us t" "conns t = [k \<mapsto> ({pgRunChanFromID bid}, [])]"
  shows "usable us (fst (SetBuildAsRunning pg Active bid t)) \<and> goes t (fst (SetBuildAsRunning pg Active bid t))
    \<and> conns (fst (SetBuildAsRunning pg Active bid t)) = [k \<mapsto> ({pgRunChanFromID bid}, [(pgRunChanFromID bid, ''running'')])]"
proof -
  have c: "clean_note ([CHR 39] @ ''running'' @ [CHR 39]) ''running''" by (rule clean_note_plain) (simp_all add: ascii_text_def)
  from txn_full [OF assms(1) _ _ c, of "UpdateStatus BuildStatusRunning bid" "pgRunChanFromID bid"
      "''error appending event: ''" "''error notifying channel: ''"] obtain t2
    where "SetBuildAsRunning pg Active bid t = (t2, Ok ())" "goes t t2" "usable us t2"
      "conns t2 = deliver (pgRunChanFromID bid) ''running'' (conns t)"
    by (auto simp: inserting_def SetBuildAsRunning_def)
  then show ?thesis by (simp add: assms(2) deliver_one)
qed

lemma completed_note:
  assumes "usable us t" "TerminalState st" "conns t = [k \<mapsto> ({pgCompletedChanFromID bid}, [])]"
  shows "usable us (fst (SetBuildAsCompleted pg Active bid st t)) \<and> goes t (fst (SetBuildAsCompleted pg Active bid st t))
    \<and> conns (fst (SetBuildAsCompleted pg Active bid st t)) = [k \<mapsto> ({pgCompletedChanFromID bid}, [(pgCompletedChanFromID bid, itoa st)])]"
proof -
  note u = usableD [OF assms(1)]
  from begin_works u obtain t1 where 1: "pg_Begin pg Active t = (t1, Ok ())" "goes t t1" by blast
  let ?t = "ts_param (pg_Now pg t1)"
  have "storable ?t" using sane_storable [OF up_clock] keptD(2) [OF 1(2)] by (simp add: storable_ts_param)
  then have cs: "clean_stmt (UpdateStatusCompleted st ?t bid)" using TerminalState_known [OF assms(2)] by (simp add: ts_param_idem)
  have e: "SetBuildAsCompleted pg Active bid st t = txn pg Active ''error setting status: '' (UpdateStatusCompleted st ?t bid)
      ''error notifying channel: '' (Notify (pgCompletedChanFromID bid) ([CHR 39] @ itoa st @ [CHR 39])) t"
    using assms(2) 1(1) by (simp add: SetBuildAsCompleted_def txn_def)
  from txn_full [OF assms(1) cs _ clean_note_status(1) [OF assms(2)], of "pgCompletedChanFromID bid"
      "''error setting status: ''" "''error notifying channel: ''"] obtain t2
    where "SetBuildAsCompleted pg Active bid st t = (t2, Ok ())" "goes t t2" "usable us t2"
      "conns t2 = deliver (pgCompletedChanFromID bid) (itoa st) (conns t)"
    unfolding e by (auto simp: inserting_def)
  then show ?thesis by (simp add: assms(3) deliver_one)
qed

text \<open>The events.\<close>

lemma event_loop_full:
  assumes "inv s" "up s" "conns s k = Some (chs, q)"
  shows "\<exists>s' e. event_loop pg Active k bid out s = Some (s', out @ map snd q, e) \<and> goes s s' \<and> tabs s' = tabs s \<and> conns s' k \<noteq> None"
  using assms
proof (induction q arbitrary: s out)
  case Nil
  from wait_ends [OF Nil] obtain s' e where "pg_WaitForNotification pg Active k s = (s', Err e)" "goes s s'" "conns s' = conns s" "tabs s' = tabs s"
    by blast
  with Nil(3) show ?case by (subst event_loop.simps) simp
next
  case (Cons m q)
  from wait_works [OF Cons.prems] obtain s1 where 1: "pg_WaitForNotification pg Active k s = (s1, Ok m)" "goes s s1"
    "conns s1 = (conns s)(k \<mapsto> (chs, q))" "tabs s1 = tabs s" by blast
  note k1 = keptD [OF 1(2)]
  from Cons.IH [OF k1(1,2), of "out @ [snd m]"] 1(3) obtain s' e
    where 2: "event_loop pg Active k bid (out @ [snd m]) s1 = Some (s', (out @ [snd m]) @ map snd q, e)" "goes s1 s'" "tabs s' = tabs s1"
      "conns s' k \<noteq> None" by auto
  have "event_loop pg Active k bid out s = Some (s', out @ map snd (m # q), e)"
    by (subst event_loop.simps, cases m) (use 1(1) 2(1) in simp)
  with 2 1(4) kept_trans [OF 1(2) 2(2)] show ?case by (metis (no_types, lifting))
qed

lemma add_event_full:
  assumes "usable us t" "t_builds (tabs t) bid = Some row" "\<not> TerminalState (b_Status (fst row))" "event_text e"
    "conns t = [k \<mapsto> ({pgChanFromID bid}, q)]"
  shows "\<exists>t' row'. AddEvent (\<lambda>s. s) pg Active bid e t = (t', Ok ()) \<and> usable us t' \<and> goes t t'
    \<and> conns t' = [k \<mapsto> ({pgChanFromID bid}, q @ [(pgChanFromID bid, e)])]
    \<and> t_builds (tabs t') bid = Some row' \<and> b_Status (fst row') = b_Status (fst row)"
proof -
  note u = usableD [OF assms(1)]
  from get_full [of t bid] u assms(2) obtain t1 where 1: "GetBuildByID pg Active bid t = (t1, Ok (out_build row))" "goes t t1"
    "conns t1 = conns t" "tabs t1 = tabs t" by auto
  have u1: "usable us t1" using pg_usable_same [OF assms(1) 1(2)] 1(4) by blast
  from txn_full [OF u1 _ _ clean_note_event [OF assms(4)], of "AppendEvent e bid" "pgChanFromID bid"
      "''error appending event: ''" "''error notifying channel: ''"] assms(4) obtain t2 now
    where 2: "txn pg Active ''error appending event: '' (AppendEvent e bid)
       ''error notifying channel: '' (Notify (pgChanFromID bid) (quoteString e)) t1 = (t2, Ok ())"
      "goes t1 t2" "conns t2 = deliver (pgChanFromID bid) e (conns t1)" "usable us t2"
      "apply_stmt now (AppendEvent e bid) (tabs t1) = Some (tabs t2)"
    by (auto simp: inserting_def)
  have "AddEvent (\<lambda>s. s) pg Active bid e t = (t2, Ok ())"
    using 1(1) 2(1) assms(3) by (simp add: AddEvent_def CanAddEvent_def EventListenable_def)
  moreover obtain b upd cmp where "row = (b, upd, cmp)" by (cases row)
  moreover have "tabs t2 = update_build now bid (\<lambda>(b, cmp). (b\<lparr>b_Events := b_Events b @ [e]\<rparr>, cmp)) (tabs t)" using 2(5) 1(4) by simp
  ultimately show ?thesis using 2(3,4) kept_trans [OF 1(2) 2(2)] assms(2) by (simp add: 1(3) assms(5) deliver_one update_build_at)
qed

lemma add_events_full:
  assumes "usable us t" "t_builds (tabs t) bid = Some row" "\<not> TerminalState (b_Status (fst row))" "list_all event_text es"
    "conns t = [k \<mapsto> ({pgChanFromID bid}, q)]"
  shows "usable us (add_events (pgDL pg) bid es t) \<and> goes t (add_events (pgDL pg) bid es t)
    \<and> conns (add_events (pgDL pg) bid es t) = [k \<mapsto> ({pgChanFromID bid}, q @ map (Pair (pgChanFromID bid)) es)]"
  using assms
proof (induction es arbitrary: t row q)
  case Nil
  then show ?case using usableD [OF Nil(1)] by (simp add: kept_def)
next
  case (Cons e es)
  have e: "event_text e" "list_all event_text es" using Cons.prems(4) by simp_all
  from add_event_full [OF Cons.prems(1-3) e(1) Cons.prems(5)] obtain t1 row1
    where 1: "AddEvent (\<lambda>s. s) pg Active bid e t = (t1, Ok ())" "usable us t1" "goes t t1"
      "conns t1 = [k \<mapsto> ({pgChanFromID bid}, q @ [(pgChanFromID bid, e)])]"
      "t_builds (tabs t1) bid = Some row1" "b_Status (fst row1) = b_Status (fst row)" by blast
  have "\<not> TerminalState (b_Status (fst row1))" using Cons.prems(3) 1(6) by simp
  from Cons.IH [OF 1(2,5) this e(2) 1(4)]
  have "usable us (add_events (pgDL pg) bid es t1) \<and> goes t1 (add_events (pgDL pg) bid es t1)
    \<and> conns (add_events (pgDL pg) bid es t1) = [k \<mapsto> ({pgChanFromID bid}, (q @ [(pgChanFromID bid, e)]) @ map (Pair (pgChanFromID bid)) es)]" .
  moreover have "add_events (pgDL pg) bid (e # es) t = add_events (pgDL pg) bid es t1" using 1(1) by (simp add: pgDL_def)
  ultimately show ?case using kept_trans [OF 1(3)] by simp
qed

lemma events_full:
  assumes "ready us s" "t_builds (tabs s) bid = Some row" "\<not> TerminalState (b_Status (fst row))" "list_all event_text es"
  shows "\<exists>s' e. ListenForBuildEvents pg (\<lambda>t. t) (add_events (pgDL pg) bid es) Active bid s = Some (s', es, e) \<and> usable us s'"
proof -
  let ?ch = "pgChanFromID bid"
  note r = readyD [OF assms(1)]
  from get_full [of s bid] r assms(2) obtain s0 where 0: "GetBuildByID pg Active bid s = (s0, Ok (out_build row))" "goes s s0"
    "conns s0 = Map.empty" "tabs s0 = tabs s" by auto
  note k0 = keptD [OF 0(2)]
  from acquire_works [OF k0(1,2) 0(3)] obtain s1 k where 1: "pg_Acquire pg Active s0 = (s1, Ok k)" "goes s0 s1" "conns s1 = [k \<mapsto> ({}, [])]"
    "tabs s1 = tabs s" using 0(4) by auto
  note k1 = keptD [OF 1(2)]
  from listen_works [OF k1(1,2), of k "{}" "[]" ?ch] 1(3,4) obtain s2
    where 2: "pg_Listen pg Active k ?ch s1 = (s2, Ok ())" "goes s1 s2" "conns s2 = [k \<mapsto> ({?ch}, [])]" "tabs s2 = tabs s" by auto
  have u2: "usable us s2" using pg_usable_same [OF conjunct1 [OF r] kept_trans [OF 0(2) kept_trans [OF 1(2) 2(2)]]] 2(4) by blast
  let ?t = "add_events (pgDL pg) bid es s2"
  from add_events_full [OF u2 _ assms(3,4) 2(3)] assms(2) 2(4)
  have t: "usable us ?t" "conns ?t k = Some ({?ch}, map (Pair ?ch) es)" by auto
  note ut = usableD [OF t(1)]
  from event_loop_full [OF _ _ t(2), of bid "[]"] ut obtain s3 e
    where 3: "event_loop pg Active k bid [] ?t = Some (s3, es, e)" "goes ?t s3" "tabs s3 = tabs ?t" "conns s3 k \<noteq> None"
    by (auto simp: comp_def)
  note k3 = keptD [OF 3(2)]
  note rel = release_works [OF k3(1,2) 3(4)]
  have "usable us (pg_Release pg k s3)" using pg_usable_same [OF t(1) kept_trans [OF 3(2) conjunct1 [OF rel]]] rel 3(3) by simp
  moreover have "ListenForBuildEvents pg (\<lambda>t. t) (add_events (pgDL pg) bid es) Active bid s = Some (pg_Release pg k s3, es, e)"
    using assms(3) by (simp add: ListenForBuildEvents_def 0(1) 1(1) 2(1) 3(1) EventListenable_def)
  ultimately show ?thesis by blast
qed

lemma get_ready:
  assumes "ready us s" "t_builds (tabs s) bid = Some row"
  shows "\<exists>s'. GetBuildByID pg Active bid s = (s', Ok (out_build row)) \<and> ready us s' \<and> goes s s' \<and> tabs s' = tabs s"
proof -
  note r = readyD [OF assms(1)]
  from get_full [of s bid] r assms(2) obtain s' where 1: "GetBuildByID pg Active bid s = (s', Ok (out_build row))" "goes s s'"
    "conns s' = conns s" "tabs s' = tabs s" by auto
  then show ?thesis using pg_usable_same [OF conjunct1 [OF r] 1(2)] r by (auto simp: pg_ready_def)
qed

lemma heard_full:
  assumes "ready us s" "t_builds (tabs s) bid = Some row"
  shows "b_Status (fst row) = BuildStatusRunning \<Longrightarrow>
      \<exists>s'. ListenForCancellation pg (\<lambda>t. t) (\<lambda>t. fst (CancelBuild (\<lambda>s. s) pg Active bid t)) Active bid s = (s', Ok ()) \<and> usable us s'"
    "b_Status (fst row) = BuildStatusNotStarted \<Longrightarrow>
      \<exists>s'. ListenForBuildRunning pg (\<lambda>t. t) (\<lambda>t. fst (SetBuildAsRunning pg Active bid t)) Active bid s = (s', Ok ()) \<and> usable us s'"
    "b_Status (fst row) \<in> {BuildStatusRunning, BuildStatusNotStarted} \<Longrightarrow> TerminalState st \<Longrightarrow>
      \<exists>s'. ListenForBuildCompleted pg (\<lambda>t. t) (\<lambda>t. fst (SetBuildAsCompleted pg Active bid st t)) Active bid s = (s', Ok st) \<and> usable us s'"
proof -
  from get_ready [OF assms] obtain s1 where 1: "GetBuildByID pg Active bid s = (s1, Ok (out_build row))" "ready us s1" "tabs s1 = tabs s" by blast
  show "\<exists>s'. ListenForCancellation pg (\<lambda>t. t) (\<lambda>t. fst (CancelBuild (\<lambda>s. s) pg Active bid t)) Active bid s = (s', Ok ()) \<and> usable us s'"
    if st: "b_Status (fst row) = BuildStatusRunning"
  proof -
    have "usable us (fst (CancelBuild (\<lambda>s. s) pg Active bid t)) \<and> goes t (fst (CancelBuild (\<lambda>s. s) pg Active bid t))
      \<and> conns (fst (CancelBuild (\<lambda>s. s) pg Active bid t)) = [k \<mapsto> ({pgCxlChanFromID bid}, [(pgCxlChanFromID bid, ''cancel'')])]"
      if "usable us t" "tabs t = tabs s1" "conns t = [k \<mapsto> ({pgCxlChanFromID bid}, [])]" for t k
      using cancel_note [OF that(1) _ st that(3)] that(2) 1(3) assms(2) by simp
    from wait_full [OF 1(2) furan_channels(2) this, of bid "''error listening on postgres cxl channel: ''"] obtain s2
      where "listen_wait (\<lambda>t. t) (\<lambda>t. fst (CancelBuild (\<lambda>s. s) pg Active bid t)) pg Active bid (pgCxlChanFromID bid)
          ''error listening on postgres cxl channel: '' s1 = (s2, Ok (pgCxlChanFromID bid, ''cancel''))" "usable us s2" by blast
    then show ?thesis using 1(1) st by (simp add: ListenForCancellation_def Running_def)
  qed
  show "\<exists>s'. ListenForBuildRunning pg (\<lambda>t. t) (\<lambda>t. fst (SetBuildAsRunning pg Active bid t)) Active bid s = (s', Ok ()) \<and> usable us s'"
    if st: "b_Status (fst row) = BuildStatusNotStarted"
  proof -
    from wait_full [OF 1(2) furan_channels(3), where f = "\<lambda>t. fst (SetBuildAsRunning pg Active bid t)" and p = "''running''"] running_note obtain s2
      where "listen_wait (\<lambda>t. t) (\<lambda>t. fst (SetBuildAsRunning pg Active bid t)) pg Active bid (pgRunChanFromID bid)
          ''error listening on postgres running channel: '' s1 = (s2, Ok (pgRunChanFromID bid, ''running''))" "usable us s2" by blast
    then show ?thesis using 1(1) st by (simp add: ListenForBuildRunning_def)
  qed
  show "\<exists>s'. ListenForBuildCompleted pg (\<lambda>t. t) (\<lambda>t. fst (SetBuildAsCompleted pg Active bid st t)) Active bid s = (s', Ok st) \<and> usable us s'"
    if st: "b_Status (fst row) \<in> {BuildStatusRunning, BuildStatusNotStarted}" "TerminalState st"
  proof -
    from wait_full [OF 1(2) furan_channels(4), where f = "\<lambda>t. fst (SetBuildAsCompleted pg Active bid st t)" and p = "itoa st"] completed_note [OF _ st(2)] obtain s2
      where "listen_wait (\<lambda>t. t) (\<lambda>t. fst (SetBuildAsCompleted pg Active bid st t)) pg Active bid (pgCompletedChanFromID bid)
          ''error listening on postgres running channel: '' s1 = (s2, Ok (pgCompletedChanFromID bid, itoa st))" "usable us s2" by blast
    moreover have "\<not> TerminalState (b_Status (fst row))" using st(1) by (auto simp: TerminalState_def)
    ultimately show ?thesis using 1(1) st clean_note_status(2) [OF st(2)] by (auto simp: ListenForBuildCompleted_def)
  qed
qed

lemma listen_wait_ends:
  assumes "ready us s" "furan_channel ch"
  shows "\<exists>s' e. listen_wait (\<lambda>t. t) (\<lambda>t. t) pg Active bid ch msg s = (s', Err e) \<and> ctx_ended e"
proof -
  note r = readyD [OF assms(1)]
  from acquire_works [of s] r obtain s1 k where 1: "pg_Acquire pg Active s = (s1, Ok k)" "goes s s1" "conns s1 = [k \<mapsto> ({}, [])]" by blast
  note k1 = keptD [OF 1(2)]
  from listen_works [OF k1(1,2) _ assms(2), of k "{}" "[]"] 1(3) obtain s2
    where 2: "pg_Listen pg Active k ch s1 = (s2, Ok ())" "goes s1 s2" "conns s2 k = Some ({ch}, [])" by auto
  note k2 = keptD [OF 2(2)]
  from wait_ends [OF k2(1,2) 2(3)] obtain s3 e where "pg_WaitForNotification pg Active k s2 = (s3, Err e)" "ctx_ended e" by blast
  then show ?thesis by (simp add: listen_wait_def 1(1) 2(1))
qed

lemma waits_full:
  assumes "ready us s" "t_builds (tabs s) bid = Some row"
  shows "b_Status (fst row) = BuildStatusRunning \<Longrightarrow>
      \<exists>s' e. ListenForCancellation pg (\<lambda>t. t) (\<lambda>t. t) Active bid s = (s', Err e) \<and> ctx_ended e"
    "b_Status (fst row) = BuildStatusNotStarted \<Longrightarrow>
      \<exists>s' e. ListenForBuildRunning pg (\<lambda>t. t) (\<lambda>t. t) Active bid s = (s', Err e) \<and> ctx_ended e"
    "b_Status (fst row) \<in> {BuildStatusRunning, BuildStatusNotStarted} \<Longrightarrow>
      \<exists>s' e. ListenForBuildCompleted pg (\<lambda>t. t) (\<lambda>t. t) Active bid s = (s', Err e) \<and> ctx_ended e"
proof -
  from get_ready [OF assms] obtain s1 where 1: "GetBuildByID pg Active bid s = (s1, Ok (out_build row))" "ready us s1" by blast
  note ends = listen_wait_ends [OF 1(2)]
  show "b_Status (fst row) = BuildStatusRunning \<Longrightarrow>
      \<exists>s' e. ListenForCancellation pg (\<lambda>t. t) (\<lambda>t. t) Active bid s = (s', Err e) \<and> ctx_ended e"
    using 1(1) ends [of "pgCxlChanFromID bid" bid "''error listening on postgres cxl channel: ''", OF furan_channels(2)]
    by (auto simp: ListenForCancellation_def Running_def)
  show "b_Status (fst row) = BuildStatusNotStarted \<Longrightarrow>
      \<exists>s' e. ListenForBuildRunning pg (\<lambda>t. t) (\<lambda>t. t) Active bid s = (s', Err e) \<and> ctx_ended e"
    using 1(1) ends [of "pgRunChanFromID bid" bid "''error listening on postgres running channel: ''", OF furan_channels(3)]
    by (auto simp: ListenForBuildRunning_def)
  show "b_Status (fst row) \<in> {BuildStatusRunning, BuildStatusNotStarted} \<Longrightarrow>
      \<exists>s' e. ListenForBuildCompleted pg (\<lambda>t. t) (\<lambda>t. t) Active bid s = (s', Err e) \<and> ctx_ended e"
    using 1(1) ends [of "pgCompletedChanFromID bid" bid "''error listening on postgres running channel: ''", OF furan_channels(4)]
    by (auto simp: ListenForBuildCompleted_def TerminalState_def)
qed

lemma no_wait_full:
  assumes "ready us s" "t_builds (tabs s) bid = Some row"
  shows "\<exists>s'. ready us s' \<and> goes s s' \<and> tabs s' = tabs s
    \<and> (TerminalState (b_Status (fst row)) \<longrightarrow> (\<exists>e. ListenForBuildEvents pg g1 g2 Active bid s = Some (s', [], e) \<and> \<not> ctx_ended e))
    \<and> (b_Status (fst row) \<notin> {BuildStatusRunning, BuildStatusCancelRequested, BuildStatusCancelled} \<longrightarrow>
        (\<exists>e. ListenForCancellation pg g1 g2 Active bid s = (s', Err e) \<and> \<not> ctx_ended e))
    \<and> (b_Status (fst row) \<in> {BuildStatusCancelRequested, BuildStatusCancelled} \<longrightarrow> ListenForCancellation pg g1 g2 Active bid s = (s', Ok ()))
    \<and> (b_Status (fst row) \<notin> {BuildStatusRunning, BuildStatusNotStarted} \<longrightarrow> (\<exists>e. ListenForBuildRunning pg g1 g2 Active bid s = (s', Err e) \<and> \<not> ctx_ended e))
    \<and> (b_Status (fst row) = BuildStatusRunning \<longrightarrow> ListenForBuildRunning pg g1 g2 Active bid s = (s', Ok ()))
    \<and> (b_Status (fst row) \<notin> {BuildStatusRunning, BuildStatusNotStarted} \<longrightarrow> \<not> TerminalState (b_Status (fst row)) \<longrightarrow>
        (\<exists>e. ListenForBuildCompleted pg g1 g2 Active bid s = (s', Err e) \<and> \<not> ctx_ended e))
    \<and> (TerminalState (b_Status (fst row)) \<longrightarrow> ListenForBuildCompleted pg g1 g2 Active bid s = (s', Ok (b_Status (fst row))))"
proof -
  from get_ready [OF assms] obtain s1 where 1: "GetBuildByID pg Active bid s = (s1, Ok (out_build row))" "ready us s1" "goes s s1" "tabs s1 = tabs s" by blast
  have "TerminalState (b_Status (fst row)) \<longrightarrow> (\<exists>e. ListenForBuildEvents pg g1 g2 Active bid s = Some (s1, [], e) \<and> \<not> ctx_ended e)"
    by (simp add: ListenForBuildEvents_def 1(1) EventListenable_def)
  moreover have "b_Status (fst row) \<notin> {BuildStatusRunning, BuildStatusCancelRequested, BuildStatusCancelled} \<longrightarrow>
        (\<exists>e. ListenForCancellation pg g1 g2 Active bid s = (s1, Err e) \<and> \<not> ctx_ended e)"
    by (simp add: ListenForCancellation_def 1(1) Running_def)
  moreover have "b_Status (fst row) \<in> {BuildStatusCancelRequested, BuildStatusCancelled} \<longrightarrow> ListenForCancellation pg g1 g2 Active bid s = (s1, Ok ())"
    by (auto simp: ListenForCancellation_def 1(1) Running_def)
  moreover have "b_Status (fst row) \<notin> {BuildStatusRunning, BuildStatusNotStarted} \<longrightarrow> (\<exists>e. ListenForBuildRunning pg g1 g2 Active bid s = (s1, Err e) \<and> \<not> ctx_ended e)"
    "b_Status (fst row) = BuildStatusRunning \<longrightarrow> ListenForBuildRunning pg g1 g2 Active bid s = (s1, Ok ())"
    by (simp_all add: ListenForBuildRunning_def 1(1))
  moreover have "b_Status (fst row) \<notin> {BuildStatusRunning, BuildStatusNotStarted} \<longrightarrow> \<not> TerminalState (b_Status (fst row)) \<longrightarrow>
        (\<exists>e. ListenForBuildCompleted pg g1 g2 Active bid s = (s1, Err e) \<and> \<not> ctx_ended e)"
    "TerminalState (b_Status (fst row)) \<longrightarrow> ListenForBuildCompleted pg g1 g2 Active bid s = (s1, Ok (b_Status (fst row)))"
    by (simp_all add: ListenForBuildCompleted_def 1(1))
  ultimately show ?thesis using 1(2-4) by blast
qed

lemma builds_row:
  assumes "pg_builds (tabs s) bid = Some b"
  obtains row where "t_builds (tabs s) bid = Some row" "b_Status (fst row) = b_Status b"
  using assms by (auto simp: pg_builds_def)

lemma no_wait_builds:
  assumes "ready us s" "pg_builds (tabs s) bid = Some b"
  shows "\<exists>s'. ready us s' \<and> pg_Now pg s \<le> pg_Now pg s' \<and> pg_builds (tabs s') = pg_builds (tabs s)
    \<and> (TerminalState (b_Status b) \<longrightarrow> (\<exists>e. ListenForBuildEvents pg g1 g2 Active bid s = Some (s', [], e) \<and> \<not> ctx_ended e))
    \<and> (b_Status b \<notin> {BuildStatusRunning, BuildStatusCancelRequested, BuildStatusCancelled} \<longrightarrow>
        (\<exists>e. ListenForCancellation pg g1 g2 Active bid s = (s', Err e) \<and> \<not> ctx_ended e))
    \<and> (b_Status b \<in> {BuildStatusCancelRequested, BuildStatusCancelled} \<longrightarrow> ListenForCancellation pg g1 g2 Active bid s = (s', Ok ()))
    \<and> (b_Status b \<notin> {BuildStatusRunning, BuildStatusNotStarted} \<longrightarrow> (\<exists>e. ListenForBuildRunning pg g1 g2 Active bid s = (s', Err e) \<and> \<not> ctx_ended e))
    \<and> (b_Status b = BuildStatusRunning \<longrightarrow> ListenForBuildRunning pg g1 g2 Active bid s = (s', Ok ()))
    \<and> (b_Status b \<notin> {BuildStatusRunning, BuildStatusNotStarted} \<longrightarrow> \<not> TerminalState (b_Status b) \<longrightarrow>
        (\<exists>e. ListenForBuildCompleted pg g1 g2 Active bid s = (s', Err e) \<and> \<not> ctx_ended e))
    \<and> (TerminalState (b_Status b) \<longrightarrow> ListenForBuildCompleted pg g1 g2 Active bid s = (s', Ok (b_Status b)))"
proof -
  from builds_row [OF assms(2)] obtain row where w: "t_builds (tabs s) bid = Some row" "b_Status (fst row) = b_Status b" .
  from no_wait_full [OF assms(1) w(1), of g1 g2, unfolded w(2)] show ?thesis unfolding kept_def by metis
qed

lemma deliver_none: "deliver ch p Map.empty = Map.empty"
  by (rule ext) (simp add: deliver_def)

lemma ready_txn:
  assumes "ready us s" "clean_stmt st" "\<not> inserting st" "clean_note lit p" "furan_channel ch"
  shows "\<exists>s' now. txn pg Active m1 st m2 (Notify ch lit) s = (s', Ok ()) \<and> ready us s' \<and> pg_Now pg s \<le> pg_Now pg s'
    \<and> apply_stmt now st (tabs s) = Some (tabs s')"
proof -
  note r = readyD [OF assms(1)]
  from txn_full [OF conjunct1 [OF r] assms(2-5), of m1 m2] r show ?thesis by (auto simp: pg_ready_def kept_def deliver_none)
qed

lemma ready_exec:
  assumes "ready us s" "clean_stmt st" "\<not> inserting st"
  shows "\<exists>s' now. pg_Exec pg Active st s = (s', Ok ()) \<and> ready us s' \<and> pg_Now pg s \<le> pg_Now pg s'
    \<and> apply_stmt now st (tabs s) = Some (tabs s')"
proof -
  note r = readyD [OF assms(1)]
  from exec_full [OF conjunct1 [OF r] assms(2,3)] r show ?thesis by (auto simp: pg_ready_def kept_def)
qed

end

sublocale pg_full \<subseteq> full_layer "pgDL pg" "\<lambda>s. tab_view (tabs s)" "\<lambda>s. t_keys (tabs s)" inv "\<lambda>s. pg_builds (tabs s)"
  "pg_ready inv up tabs ids conns other" "pg_usable inv up tabs ids other" "pg_Now pg" ts_param "- {0, other}" newpool
proof (unfold_locales, goal_cases)
  case (1 us s)
  note r = readyD [OF 1]
  then have "new_ids other us (ids s) (tabs s)" using usableD by blast
  then have "distinct us" using draws_new by (auto simp: new_ids_def)
  with r up_clock show ?case by blast
next
  case (2 s bid)
  then show ?case by (simp add: tab_view_def pg_builds_def option.map_comp comp_def)
next
  case (3 us s bid b)
  then show ?case using rows_wf readyD by (auto simp: pg_builds_def) (metis erase_fields(1) erase_out_build fst_conv)
next
  case 4
  then show ?case by (rule ts_param_rounds)
next
  case 5
  then show ?case by (rule ts_param_zero)
next
  case 6
  then show ?case by simp
next
  case (7 us s)
  then show ?case using newpool_works [of s] usableD [OF 7] pg_usable_same [OF 7, of "pg_Now pg" "newpool s"]
    by (simp add: pg_ready_def)
next
  case (8 u us s b)
  then show ?case using create_full by (simp add: pgDL_def)
next
  case (9 us s bid)
  note r = readyD [OF 9]
  from get_full [of s bid] r pg_usable_same [OF conjunct1 [OF r]] show ?case
    by (fastforce simp: pgDL_def pg_builds_def pg_ready_def kept_def split: option.splits)
next
  case (10 us s st bid)
  from ready_exec [OF 10(1), of "UpdateStatus st bid"] 10(2) obtain s' now
    where "pg_Exec pg Active (UpdateStatus st bid) s = (s', Ok ())" "ready us s'" "pg_Now pg s \<le> pg_Now pg s'"
      and a: "apply_stmt now (UpdateStatus st bid) (tabs s) = Some (tabs s')"
    by (auto simp: inserting_def simp del: apply_stmt.simps)
  moreover have "tabs s' = update_build now bid (\<lambda>(b, cmp). (b\<lparr>b_Status := st\<rparr>, cmp)) (tabs s)" using a by simp
  ultimately show ?case by (simp add: pgDL_def SetBuildStatus_def pg_builds_status)
next
  case (11 us s t bid)
  from ready_exec [OF 11(1), of "UpdateCompleted (ts_param t) bid"] 11(2) obtain s' now
    where "pg_Exec pg Active (UpdateCompleted (ts_param t) bid) s = (s', Ok ())" "ready us s'" "pg_Now pg s \<le> pg_Now pg s'"
      and a: "apply_stmt now (UpdateCompleted (ts_param t) bid) (tabs s) = Some (tabs s')"
    by (auto simp: inserting_def ts_param_idem storable_ts_param simp del: apply_stmt.simps)
  moreover have "tabs s' = update_build now bid (\<lambda>(b, cmp). (b, Some (ts_param t))) (tabs s)" using a by simp
  ultimately show ?case by (simp add: pgDL_def SetBuildCompletedTimestamp_def pg_builds_completed)
next
  case (12 us s bid)
  from ready_exec [OF 12(1), of "DeleteBuildStmt bid"] obtain s' now
    where "pg_Exec pg Active (DeleteBuildStmt bid) s = (s', Ok ())" "ready us s'" "pg_Now pg s \<le> pg_Now pg s'"
      and a: "apply_stmt now (DeleteBuildStmt bid) (tabs s) = Some (tabs s')"
    by (auto simp: inserting_def simp del: apply_stmt.simps)
  moreover have "pg_builds (tabs s') = (pg_builds (tabs s))(bid := None)"
    using a [symmetric] by (auto simp: pg_builds_def fun_eq_iff)
  ultimately show ?case by (simp add: pgDL_def DeleteBuild_def)
next
  case (13 us s opts)
  note r = readyD [OF 13(1)]
  from list_full [OF 13] r pg_usable_same [OF conjunct1 [OF r]] show ?case
    by (fastforce simp: pgDL_def pg_ready_def kept_def)
next
  case (14 us s opts)
  then show ?case by (auto simp: pgDL_def ListBuilds_def options_ok_def)
next
  case (15 u us s k)
  then show ?case using createkey_full by (simp add: pgDL_def)
next
  case (16 us s kid)
  note r = readyD [OF 16]
  from selectkey_works [of s kid] r pg_usable_same [OF conjunct1 [OF r]] show ?case
    by (fastforce simp: pgDL_def GetAPIKey_def retry_first pg_ready_def split: option.splits)
next
  case (17 us s kid)
  from ready_exec [OF 17(1), of "DeleteAPIKeyStmt kid"] obtain s' now
    where "pg_Exec pg Active (DeleteAPIKeyStmt kid) s = (s', Ok ())" "ready us s'"
      and a: "apply_stmt now (DeleteAPIKeyStmt kid) (tabs s) = Some (tabs s')"
    by (auto simp: inserting_def simp del: apply_stmt.simps)
  moreover have "t_keys (tabs s') = (t_keys (tabs s))(kid := None)" using a [symmetric] by simp
  ultimately show ?case by (simp add: pgDL_def DeleteAPIKey_def)
next
  case (18 us s)
  then show ?case using usableD [of us s] readyD [of us s] by (simp add: new_ids_def)
next
  case (19 us s)
  then have "dom (t_builds (tabs s)) \<subseteq> - {0, other}" using usableD [of us s] readyD [of us s] by (simp add: new_ids_def)
  moreover have "dom (pg_builds (tabs s)) = dom (t_builds (tabs s))" by (auto simp: pg_builds_def)
  ultimately show ?case by simp
next
  case (20 us s bid b g1 g2)
  from no_wait_builds [OF 20(1,2), of g1 g2] 20(3-) show ?case unfolding pgDL_def DataLayer.simps by blast
next
  case (21 us s bid b es)
  from builds_row [OF 21(2)] obtain row where w: "t_builds (tabs s) bid = Some row" "b_Status (fst row) = b_Status b" .
  from events_full [OF 21(1) w(1) _ 21(4)] 21(3) w(2) show ?case by (simp add: pgDL_def)
next
  case (22 us s bid b g1 g2)
  from no_wait_builds [OF 22(1,2), of g1 g2] 22(3-) show ?case unfolding pgDL_def DataLayer.simps by blast
next
  case (23 us s bid b g1 g2)
  from no_wait_builds [OF 23(1,2), of g1 g2] 23(3-) show ?case unfolding pgDL_def DataLayer.simps by blast
next
  case (25 us s bid b)
  from builds_row [OF 25(2)] obtain row where w: "t_builds (tabs s) bid = Some row" "b_Status (fst row) = b_Status b" .
  from heard_full(1) [OF 25(1) w(1)] 25(3) w(2) show ?case by (simp add: pgDL_def)
next
  case (26 us s bid b g1 g2)
  from no_wait_builds [OF 26(1,2), of g1 g2] 26(3-) show ?case unfolding pgDL_def DataLayer.simps by blast
next
  case (27 us s bid b g1 g2)
  from no_wait_builds [OF 27(1,2), of g1 g2] 27(3-) show ?case unfolding pgDL_def DataLayer.simps by blast
next
  case (29 us s bid b)
  from builds_row [OF 29(2)] obtain row where w: "t_builds (tabs s) bid = Some row" "b_Status (fst row) = b_Status b" .
  from heard_full(2) [OF 29(1) w(1)] 29(3) w(2) show ?case by (simp add: pgDL_def)
next
  case (30 us s bid b g1 g2)
  from no_wait_builds [OF 30(1,2), of g1 g2] 30(3-) show ?case unfolding pgDL_def DataLayer.simps by blast
next
  case (31 us s bid b g1 g2)
  from no_wait_builds [OF 31(1,2), of g1 g2] 31(3-) show ?case unfolding pgDL_def DataLayer.simps by blast
next
  case (33 us s bid b st)
  from builds_row [OF 33(2)] obtain row where w: "t_builds (tabs s) bid = Some row" "b_Status (fst row) = b_Status b" .
  from heard_full(3) [OF 33(1) w(1) _ 33(4)] 33(3) w(2) show ?case by (simp add: pgDL_def)
next
  case (24 us s bid b)
  from builds_row [OF 24(2)] obtain row where w: "t_builds (tabs s) bid = Some row" "b_Status (fst row) = b_Status b" .
  from waits_full(1) [OF 24(1) w(1)] 24(3) w(2) show ?case by (simp add: pgDL_def)
next
  case (28 us s bid b)
  from builds_row [OF 28(2)] obtain row where w: "t_builds (tabs s) bid = Some row" "b_Status (fst row) = b_Status b" .
  from waits_full(2) [OF 28(1) w(1)] 28(3) w(2) show ?case by (simp add: pgDL_def)
next
  case (32 us s bid b)
  from builds_row [OF 32(2)] obtain row where w: "t_builds (tabs s) bid = Some row" "b_Status (fst row) = b_Status b" .
  from waits_full(3) [OF 32(1) w(1)] 32(3) w(2) show ?case by (simp add: pgDL_def)
next
  case (34 us s bid)
  from ready_txn [OF 34 _ _ clean_notes(1), of "UpdateStatus BuildStatusRunning bid"
      "pgRunChanFromID bid" "''error appending event: ''" "''error notifying channel: ''"] obtain s' now
    where "SetBuildAsRunning pg Active bid s = (s', Ok ())" "ready us s'" "pg_Now pg s \<le> pg_Now pg s'"
      "apply_stmt now (UpdateStatus BuildStatusRunning bid) (tabs s) = Some (tabs s')"
    unfolding SetBuildAsRunning_def by (auto simp: inserting_def simp del: apply_stmt.simps)
  then show ?case using pg_builds_status [of now bid BuildStatusRunning "tabs s"] by (auto simp: pgDL_def)
next
  case (35 us s bid b)
  from builds_row [OF 35(2)] obtain row where w: "t_builds (tabs s) bid = Some row" "b_Status (fst row) = b_Status b" .
  from get_ready [OF 35(1) w(1)] obtain s1 where 1: "GetBuildByID pg Active bid s = (s1, Ok (out_build row))" "ready us s1" "goes s s1"
    "tabs s1 = tabs s" by blast
  from ready_txn [OF 1(2) _ _ clean_notes(2), of "UpdateStatus BuildStatusCancelRequested bid"
      "pgCxlChanFromID bid" "''error cancelling build: ''" "''error notifying cancel channel: ''"] obtain s' now
    where 2: "txn pg Active ''error cancelling build: '' (UpdateStatus BuildStatusCancelRequested bid) ''error notifying cancel channel: ''
        (Notify (pgCxlChanFromID bid) ([CHR 39] @ ''cancel'' @ [CHR 39])) s1 = (s', Ok ())" "ready us s'" "pg_Now pg s1 \<le> pg_Now pg s'"
      "apply_stmt now (UpdateStatus BuildStatusCancelRequested bid) (tabs s) = Some (tabs s')"
    unfolding 1(4) by (auto simp: inserting_def simp del: apply_stmt.simps)
  have "CancelBuild (\<lambda>s. s) pg Active bid s = (s', Ok ())" using 1(1) 2(1) w(2) 35(3) by (simp add: CancelBuild_def Running_def)
  with 2(2-4) keptD(4) [OF 1(3)] pg_builds_status [of now bid BuildStatusCancelRequested "tabs s"] show ?case by (auto simp: pgDL_def)
next
  case (36 us s bid b e)
  from builds_row [OF 36(2)] obtain row where w: "t_builds (tabs s) bid = Some row" "b_Status (fst row) = b_Status b" .
  from get_ready [OF 36(1) w(1)] obtain s1 where 1: "GetBuildByID pg Active bid s = (s1, Ok (out_build row))" "ready us s1" "goes s s1"
    "tabs s1 = tabs s" by blast
  from ready_txn [OF 1(2) _ _ clean_note_event [OF 36(4)], of "AppendEvent e bid"
      "pgChanFromID bid" "''error appending event: ''" "''error notifying channel: ''"] 36(4) obtain s' now
    where 2: "txn pg Active ''error appending event: '' (AppendEvent e bid) ''error notifying channel: ''
        (Notify (pgChanFromID bid) (quoteString e)) s1 = (s', Ok ())" "ready us s'" "pg_Now pg s1 \<le> pg_Now pg s'"
      "apply_stmt now (AppendEvent e bid) (tabs s) = Some (tabs s')"
    unfolding 1(4) by (auto simp: inserting_def simp del: apply_stmt.simps)
  have "AddEvent (\<lambda>s. s) pg Active bid e s = (s', Ok ())"
    using 1(1) 2(1) w(2) 36(3) by (simp add: AddEvent_def CanAddEvent_def EventListenable_def)
  with 2(2-4) keptD(4) [OF 1(3)] pg_builds_event [of now bid e "tabs s"] show ?case by (auto simp: pgDL_def)
qed

context pg_full
begin

lemmas suite_on_server = RunTests_passes

end

section \<open>The reference server\<close>

definition ref_ok_inv :: "refpg \<Rightarrow> bool" where
  "ref_ok_inv s \<longleftrightarrow> ref_inv s \<and> set (rp_idle s) \<subseteq> fst ` set (rp_conns s)"

definition ref_up :: "refpg \<Rightarrow> bool" where
  "ref_up s \<longleftrightarrow> \<not> rp_down s \<and> sane (rp_clock s)"

definition ref_ids :: "refpg \<Rightarrow> nat \<Rightarrow> uuid go" where
  "ref_ids s k = rp_rand s (rp_nrand s + k)"

definition ref_conns :: "refpg \<Rightarrow> conns" where
  "ref_conns s n = map_option (\<lambda>(chs, q). (set chs, q)) (map_of (rp_conns s) n)"

definition ref_newpool :: "refpg \<Rightarrow> refpg" where
  "ref_newpool s = s\<lparr>rp_conns := [], rp_idle := []\<rparr>"

lemma map_of_map_key: "map_of (map (\<lambda>(n, x). (n, f n x)) xs) k = map_option (f k) (map_of xs k)"
  by (induction xs) auto

lemma ref_side_frame [simp]:
  "rp_idle (ref_side st s) = rp_idle s" "rp_clock (ref_side st s) = rp_clock s" "rp_rand (ref_side st s) = rp_rand s"
  "rp_nrand (ref_side st s) = rp_nrand s" "fst ` set (rp_conns (ref_side st s)) = fst ` set (rp_conns s)"
  by (auto simp: ref_side_def ref_deliver_def image_image split: stmt.splits option.splits) (force simp: image_iff)+

lemma fold_ref_side_frame [simp]:
  "rp_idle (fold ref_side sts s) = rp_idle s" "rp_clock (fold ref_side sts s) = rp_clock s" "rp_rand (fold ref_side sts s) = rp_rand s"
  "rp_nrand (fold ref_side sts s) = rp_nrand s" "fst ` set (rp_conns (fold ref_side sts s)) = fst ` set (rp_conns s)"
  by (induction sts arbitrary: s) simp_all

lemma ref_run_frame:
  assumes "ref_run c sts s = (s', r)"
  shows "rp_idle s' = rp_idle s" "rp_clock s' = rp_clock s" "rp_down s' = rp_down s" "rp_rand s' = rp_rand s" "rp_nrand s' = rp_nrand s"
    "fst ` set (rp_conns s') = fst ` set (rp_conns s)"
proof -
  from assms obtain T where "s' = s \<or> s' = (fold ref_side sts s)\<lparr>rp_tabs := T\<rparr>"
    by (auto simp: ref_run_def split: option.splits)
  then show "rp_idle s' = rp_idle s" "rp_clock s' = rp_clock s" "rp_down s' = rp_down s" "rp_rand s' = rp_rand s" "rp_nrand s' = rp_nrand s"
    "fst ` set (rp_conns s') = fst ` set (rp_conns s)" by (elim disjE; simp)+
qed

lemma ref_conns_side: "clean_stmt st \<Longrightarrow> ref_conns (ref_side st s) = ref_conns s"
  by (cases st) (auto simp: ref_side_def ref_conns_def fun_eq_iff)

lemma ref_conns_deliver: "ref_conns (ref_deliver ch p s) = deliver ch p (ref_conns s)"
proof (rule ext)
  fix n
  have "map_of (map (\<lambda>(n, chs, q). (n, chs, if ch \<in> set chs then q @ [(ch, p)] else q)) (rp_conns s)) n
      = map_option (\<lambda>(chs, q). (chs, if ch \<in> set chs then q @ [(ch, p)] else q)) (map_of (rp_conns s) n)"
    using map_of_map_key [of "\<lambda>_ (chs, q). (chs, if ch \<in> set chs then q @ [(ch, p)] else q)" "rp_conns s" n]
    by (simp add: case_prod_unfold)
  then show "ref_conns (ref_deliver ch p s) n = deliver ch p (ref_conns s) n"
    by (cases "map_of (rp_conns s) n") (auto simp: ref_conns_def ref_deliver_def deliver_def)
qed

interpretation ref_up: pg_up refPG rp_tabs ref_ok_inv ref_up
proof (unfold_locales, goal_cases)
  case (1 s c st s' r)
  then have "ref_run c [st] s = (s', r)" by (simp add: refPG_def)
  with ref_run_frame [OF this] refpg.exec_law [of s c st s' r] 1 show ?case by (simp add: ref_ok_inv_def)
next
  case (4 s c cs lim args s' rq)
  then have "ref_query c cs lim args s = (s', rq)" "ref_inv s" by (simp_all add: refPG_def ref_ok_inv_def)
  with ref_query_law [OF this(2,1)] 4(1) show ?case by simp
next
  case (7 s c sts s' r)
  then have "ref_run c sts s = (s', r)" by (simp add: refPG_def)
  with ref_run_frame [OF this] refpg.commit_law [of s c sts s' r] 7 show ?case by (simp add: ref_ok_inv_def)
next
  case (14 s sts)
  from plains_apply [OF 14(3), of "rp_clock s" "rp_tabs s"] 14(2) show ?case
    by (auto simp: refPG_def ref_run_def ref_guard_def ref_up_def)
next
  case (17 s c sts s' r)
  then have "ref_run c sts s = (s', r)" by (simp add: refPG_def)
  from ref_run_frame [OF this] 17(1) show ?case by (simp add: ref_up_def)
qed (auto simp: refPG_def ref_ok_def ref_txexec_def ref_guard_def ref_inv_def ref_ok_inv_def ref_up_def
      split: option.splits if_splits stmt.splits dest: tabs_wfD)

lemma ref_kept:
  "ref_ok_inv s' \<Longrightarrow> ref_up s \<Longrightarrow> rp_down s' = rp_down s \<Longrightarrow> rp_clock s' = rp_clock s \<Longrightarrow> rp_rand s' = rp_rand s \<Longrightarrow>
   rp_nrand s' = rp_nrand s \<Longrightarrow> kept ref_ok_inv ref_up ref_ids rp_clock s s'"
  by (simp add: kept_def ref_up_def ref_ids_def fun_eq_iff)

lemma ref_same: "ref_ok_inv s \<Longrightarrow> ref_up s \<Longrightarrow> kept ref_ok_inv ref_up ref_ids rp_clock s s"
  by (rule ref_kept) simp_all

lemma ref_exec_full:
  assumes "ref_ok_inv s" "ref_up s" "clean_stmt st" "apply_stmt (rp_clock s) st (rp_tabs s) \<noteq> None"
  shows "\<exists>s'. ref_run Active [st] s = (s', Ok ()) \<and> kept ref_ok_inv ref_up ref_ids rp_clock s s' \<and> ref_conns s' = ref_conns s
    \<and> apply_stmt (rp_clock s) st (rp_tabs s) = Some (rp_tabs s')"
proof -
  from assms(4) obtain T where T: "apply_stmt (rp_clock s) st (rp_tabs s) = Some T" by auto
  let ?s = "(ref_side st s)\<lparr>rp_tabs := T\<rparr>"
  have r: "ref_run Active [st] s = (?s, Ok ())"
    using assms(2) T by (simp add: ref_run_def ref_guard_def ref_up_def)
  have "ref_ok_inv ?s" using ref_up.exec_law [of s Active st ?s "Ok ()"] r assms(1) by (simp add: refPG_def)
  then have "kept ref_ok_inv ref_up ref_ids rp_clock s ?s" by (rule ref_kept [OF _ assms(2)]) simp_all
  moreover have "ref_conns ?s = ref_conns s" using ref_conns_side [OF assms(3), of s] by (simp add: ref_conns_def fun_eq_iff)
  ultimately show ?thesis using r T by auto
qed

lemma ref_commit_full:
  assumes "ref_ok_inv s" "ref_up s" "clean_stmt st" "apply_stmt (rp_clock s) st (rp_tabs s) \<noteq> None" "clean_note lit p"
  shows "\<exists>s'. ref_run Active [st, Notify ch lit] s = (s', Ok ()) \<and> kept ref_ok_inv ref_up ref_ids rp_clock s s'
    \<and> ref_conns s' = deliver ch p (ref_conns s) \<and> apply_stmt (rp_clock s) st (rp_tabs s) = Some (rp_tabs s')"
proof -
  from assms(4) obtain T where T: "apply_stmt (rp_clock s) st (rp_tabs s) = Some T" by auto
  let ?s = "(fold ref_side [st, Notify ch lit] s)\<lparr>rp_tabs := T\<rparr>"
  have r: "ref_run Active [st, Notify ch lit] s = (?s, Ok ())"
    using assms(2) T by (simp add: ref_run_def ref_guard_def ref_up_def)
  have "ref_ok_inv ?s" using ref_up.commit_law [of s Active "[st, Notify ch lit]" ?s "Ok ()"] r assms(1) by (simp add: refPG_def)
  then have "kept ref_ok_inv ref_up ref_ids rp_clock s ?s" by (rule ref_kept [OF _ assms(2)]) simp_all
  moreover have "ref_conns ?s = deliver ch p (ref_conns s)"
  proof -
    have "ref_side (Notify ch lit) (ref_side st s) = ref_deliver ch p (ref_side st s)"
      using assms(5) by (simp add: ref_side_def [of "Notify ch lit"] clean_note_def)
    then have "ref_conns ?s = ref_conns (ref_deliver ch p (ref_side st s))" by (simp add: ref_conns_def fun_eq_iff)
    then show ?thesis by (simp add: ref_conns_deliver ref_conns_side [OF assms(3)])
  qed
  ultimately show ?thesis using r T by auto
qed

lemma ref_conns_upd:
  "ref_conns (s\<lparr>rp_conns := map (\<lambda>(n, chs, q). (n, if n = k then f chs else chs, if n = k then g q else q)) (rp_conns s)\<rparr>)
     = (\<lambda>n. map_option (\<lambda>(chs, q). (set (if n = k then f chs else chs), if n = k then g q else q)) (map_of (rp_conns s) n))"
proof (rule ext)
  fix n
  have "map_of (map (\<lambda>(n, chs, q). (n, if n = k then f chs else chs, if n = k then g q else q)) (rp_conns s)) n
      = map_option (\<lambda>(chs, q). (if n = k then f chs else chs, if n = k then g q else q)) (map_of (rp_conns s) n)"
    using map_of_map_key [of "\<lambda>n (chs, q). (if n = k then f chs else chs, if n = k then g q else q)" "rp_conns s" n]
    by (simp add: case_prod_unfold)
  then show "ref_conns (s\<lparr>rp_conns := map (\<lambda>(n, chs, q). (n, if n = k then f chs else chs, if n = k then g q else q)) (rp_conns s)\<rparr>) n
     = map_option (\<lambda>(chs, q). (set (if n = k then f chs else chs), if n = k then g q else q)) (map_of (rp_conns s) n)"
    by (cases "map_of (rp_conns s) n") (auto simp: ref_conns_def)
qed

lemma ref_listen_full:
  assumes "ref_ok_inv s" "ref_up s" "ref_conns s n = Some (chs, q)"
  shows "\<exists>s'. ref_listen Active n ch s = (s', Ok ()) \<and> kept ref_ok_inv ref_up ref_ids rp_clock s s'
    \<and> ref_conns s' = (ref_conns s)(n \<mapsto> (insert ch chs, q)) \<and> rp_tabs s' = rp_tabs s"
proof -
  let ?s = "s\<lparr>rp_conns := map (\<lambda>(k, chs, q). (k, if k = n then List.insert ch chs else chs, q)) (rp_conns s)\<rparr>"
  have "fst ` set (rp_conns ?s) = fst ` set (rp_conns s)" by (force simp: image_iff)
  then have "ref_ok_inv ?s" using assms(1) by (simp add: ref_ok_inv_def ref_inv_def)
  then have "kept ref_ok_inv ref_up ref_ids rp_clock s ?s" by (rule ref_kept [OF _ assms(2)]) simp_all
  moreover have "ref_conns ?s = (ref_conns s)(n \<mapsto> (insert ch chs, q))"
    using ref_conns_upd [where s = s and k = n and f = "List.insert ch" and g = "\<lambda>q. q"] assms(3)
    by (auto simp: fun_eq_iff ref_conns_def)
  moreover have "ref_listen Active n ch s = (?s, Ok ())" using assms(2) by (simp add: ref_listen_def ref_guard_def ref_up_def)
  ultimately show ?thesis by auto
qed

lemma ref_wait_full:
  assumes "ref_ok_inv s" "ref_up s" "ref_conns s n = Some (chs, m # q)"
  shows "\<exists>s'. ref_wait Active n s = (s', Ok m) \<and> kept ref_ok_inv ref_up ref_ids rp_clock s s'
    \<and> ref_conns s' = (ref_conns s)(n \<mapsto> (chs, q)) \<and> rp_tabs s' = rp_tabs s"
proof -
  let ?s = "s\<lparr>rp_conns := map (\<lambda>(k, cs, q). (k, cs, if k = n then tl q else q)) (rp_conns s)\<rparr>"
  from assms(3) obtain cs where cs: "map_of (rp_conns s) n = Some (cs, m # q)" "set cs = chs" by (auto simp: ref_conns_def)
  have "fst ` set (rp_conns ?s) = fst ` set (rp_conns s)" by (force simp: image_iff)
  then have "ref_ok_inv ?s" using assms(1) by (simp add: ref_ok_inv_def ref_inv_def)
  then have "kept ref_ok_inv ref_up ref_ids rp_clock s ?s" by (rule ref_kept [OF _ assms(2)]) simp_all
  moreover have "ref_conns ?s = (ref_conns s)(n \<mapsto> (chs, q))"
    using ref_conns_upd [where s = s and k = n and f = "\<lambda>c. c" and g = tl] cs by (auto simp: fun_eq_iff ref_conns_def)
  moreover have "ref_wait Active n s = (?s, Ok m)" using assms(2) cs by (simp add: ref_wait_def ref_guard_def ref_up_def)
  ultimately show ?thesis by auto
qed

interpretation ref_suite: pg_full refPG rp_tabs ref_ok_inv ref_up ref_ids ref_conns ref_newpool other
  for other
proof (unfold_locales, goal_cases)
  case (1 s)
  then show ?case by (simp add: ref_up_def refPG_def)
next
  case (2 s st)
  have n: "pg_Now refPG = rp_clock" "pg_Exec refPG = (\<lambda>c st. ref_run c [st])" by (simp_all add: refPG_def)
  have a: "at_time (rp_clock s) (rp_clock s) (rp_clock s)" by (simp add: at_time_def rounds_le [OF ts_param_rounds])
  from ref_exec_full [OF 2(1-3)] 2(4) obtain s' where s': "ref_run Active [st] s = (s', Ok ())"
    "kept ref_ok_inv ref_up ref_ids rp_clock s s'" "ref_conns s' = ref_conns s"
    "apply_stmt (rp_clock s) st (rp_tabs s) = Some (rp_tabs s')" by blast
  moreover have "rp_clock s' = rp_clock s" using ref_run_frame(2) [OF s'(1)] .
  ultimately show ?case unfolding n using a by metis
next
  case (3 s bid)
  then show ?case by (simp add: refPG_def ref_guard_def ref_same) (simp add: ref_up_def)
next
  case (4 s kid)
  then show ?case by (simp add: refPG_def ref_guard_def ref_same) (simp add: ref_up_def)
next
  case (5 s opts cs args lim)
  then have "ref_guard Active s = None" by (simp add: ref_guard_def ref_up_def)
  with 5(4) obtain rows where "ref_query Active cs lim args s = (s, Ok (map Ok rows))" by (simp add: ref_query_def Let_def)
  with ref_same [OF 5(1,2)] show ?case by (auto simp: refPG_def)
next
  case (6 s)
  then show ?case using ref_same by (auto simp: refPG_def ref_ok_def ref_guard_def ref_up_def)
next
  case (7 s st sts)
  then have "ref_txexec Active st s = (s, Ok ())"
    by (auto simp: ref_txexec_def ref_guard_def ref_up_def clean_note_def split: stmt.splits)
  then show ?case using ref_same [OF 7(1,2)] by (auto simp: refPG_def)
next
  case (8 s st lit p ch)
  from ref_commit_full [OF 8(1-3) _ 8(5), of ch] 8(4) show ?case by (auto simp: refPG_def)
next
  case (9 s)
  then show ?case by (simp add: refPG_def ref_same)
next
  case (10 s)
  then show ?case by (auto simp: refPG_def ref_ids_def ref_ok_inv_def ref_inv_def ref_up_def ref_conns_def fun_eq_iff)
next
  case (11 s)
  have "map_of (rp_conns s) n = None" for n using fun_cong [OF 11(3), of n] by (simp add: ref_conns_def)
  then have "rp_conns s = []" by (metis list.exhaust map_of_eq_None_iff list.set_intros(1) imageI empty_iff image_is_empty)
  then have e: "rp_conns s = []" "rp_idle s = []" using 11(1) by (simp_all add: ref_ok_inv_def)
  let ?s = "s\<lparr>rp_conns := [(rp_next s, [], [])], rp_next := rp_next s + 1\<rparr>"
  have "kept ref_ok_inv ref_up ref_ids rp_clock s ?s"
    by (rule ref_kept [OF _ 11(2)]) (use 11(1) e in \<open>simp_all add: ref_ok_inv_def ref_inv_def\<close>)
  moreover have "pg_Acquire refPG Active s = (?s, Ok (rp_next s))"
    using 11(2) e by (simp add: refPG_def ref_acquire_def ref_guard_def ref_up_def)
  moreover have "ref_conns ?s = [rp_next s \<mapsto> ({}, [])]" by (auto simp: ref_conns_def fun_eq_iff)
  ultimately show ?case by (auto simp: refPG_def)
next
  case (12 s n chs q ch)
  then show ?case using ref_listen_full by (simp add: refPG_def)
next
  case (13 s n chs m q)
  then show ?case using ref_wait_full by (simp add: refPG_def)
next
  case (14 s n chs)
  then have "map_of (rp_conns s) n \<noteq> None" "ref_guard Active s = None" by (auto simp: ref_conns_def ref_guard_def ref_up_def)
  with 14 show ?case using ref_same [OF 14(1,2)] by (auto simp: refPG_def ref_wait_def ref_conns_def)
next
  case (15 s n)
  then have "n \<in> fst ` set (rp_conns s)" by (auto simp: ref_conns_def map_of_eq_None_iff)
  then have "ref_ok_inv (s\<lparr>rp_idle := n # rp_idle s\<rparr>)" using 15(1) by (auto simp: ref_ok_inv_def ref_inv_def)
  then show ?case using 15(2) by (auto simp: refPG_def intro!: ref_kept)
next
  case (16 s)
  then show ?case by (auto simp: refPG_def ref_newpool_def ref_conns_def fun_eq_iff ref_ok_inv_def ref_inv_def intro!: ref_kept)
qed

section \<open>Properties\<close>


definition demo_server :: refpg where
  "demo_server = ref_init (Time 63713696461 5) (\<lambda>i. Ok (of_nat (Suc i)))"


end
