(* ===== verification/Furan_Alike.thy ===== *)
theory Furan_Alike
  imports Furan_FakeSuite Furan_PgSuite
begin

text \<open>
  An abstract machine for the builds of a data layer, and that every full layer answers each sequence of
  calls as the machine does; so the in-memory layer, which the tests of the other components run on, and
  the PostgreSQL layer cannot be told apart by such calls.

  A program names a build by the number of the call that created it, since the layers draw different
  identifiers; it sees the fields of a build that both layers keep, and completion times in seconds.
\<close>

section \<open>Programs\<close>

datatype call =
  CCreate Build | CGet nat | CStatus nat BuildStatus | CStamp nat gotime | CRunning nat | CCancel nat
| CEvent nat string | CDelete nat | CList ListBuildsOptions

record seen =
  o_repo :: string
  o_ref :: string
  o_images :: "string list"
  o_tags :: "string list"
  o_sha :: bool
  o_status :: BuildStatus
  o_completed :: int
  o_events :: "string list"

datatype answer = ADone | ABuild seen | AListed "nat set" nat | AMissing | AError

definition seen_of :: "Build \<Rightarrow> seen" where
  "seen_of b =
     \<lparr>o_repo = b_GitHubRepo b, o_ref = b_GitHubRef b, o_images = b_ImageRepos b, o_tags = b_Tags b,
      o_sha = b_CommitSHATag b, o_status = b_Status b, o_completed = sint (tm_sec (b_Completed b)), o_events = b_Events b\<rparr>"

text \<open>A call on a data layer: \<open>hs\<close> are the identifiers of the builds that were created.\<close>

definition edits :: "(uuid \<Rightarrow> ('s, unit) act) \<Rightarrow> nat \<Rightarrow> uuid list \<Rightarrow> 's \<Rightarrow> 's \<times> uuid list \<times> answer" where
  "edits f i hs s =
     (if i < length hs then (case f (hs ! i) s of (s', Ok _) \<Rightarrow> (s', hs, ADone) | (s', _) \<Rightarrow> (s', hs, AError))
      else (s, hs, AMissing))"

fun perform :: "'s DataLayer \<Rightarrow> call \<Rightarrow> uuid list \<Rightarrow> 's \<Rightarrow> 's \<times> uuid list \<times> answer" where
  "perform dl (CCreate b) hs s =
     (case dl_CreateBuild dl Active b s of (s', Ok u) \<Rightarrow> (s', hs @ [u], ADone) | (s', _) \<Rightarrow> (s', hs, AError))"
| "perform dl (CGet i) hs s =
     (if i < length hs then
        (case dl_GetBuildByID dl Active (hs ! i) s of
           (s', Ok b) \<Rightarrow> (s', hs, ABuild (seen_of b))
         | (s', Err e) \<Rightarrow> (s', hs, if e = ErrNotFound then AMissing else AError)
         | (s', Panic m) \<Rightarrow> (s', hs, AError))
      else (s, hs, AMissing))"
| "perform dl (CStatus i st) hs s = edits (\<lambda>u. dl_SetBuildStatus dl Active u st) i hs s"
| "perform dl (CStamp i t) hs s = edits (\<lambda>u. dl_SetBuildCompletedTimestamp dl Active u t) i hs s"
| "perform dl (CRunning i) hs s = edits (dl_SetBuildAsRunning dl Active) i hs s"
| "perform dl (CCancel i) hs s = edits (dl_CancelBuild dl Active) i hs s"
| "perform dl (CEvent i e) hs s = edits (\<lambda>u. dl_AddEvent dl Active u e) i hs s"
| "perform dl (CDelete i) hs s = edits (dl_DeleteBuild dl Active) i hs s"
| "perform dl (CList opts) hs s =
     (case dl_ListBuilds dl Active opts s of
        (s', Ok out) \<Rightarrow> (s', hs, AListed {i. i < length hs \<and> hs ! i \<in> b_ID ` set out} (length out))
      | (s', _) \<Rightarrow> (s', hs, AError))"

fun performs :: "'s DataLayer \<Rightarrow> call list \<Rightarrow> uuid list \<Rightarrow> 's \<Rightarrow> 's \<times> answer list" where
  "performs dl [] hs s = (s, [])"
| "performs dl (c # cs) hs s =
     (case perform dl c hs s of (s1, hs1, a) \<Rightarrow> (case performs dl cs hs1 s1 of (s2, as) \<Rightarrow> (s2, a # as)))"

section \<open>The machine\<close>

text \<open>Its state: the builds in the order of their creation, \<open>None\<close> for one that was deleted.\<close>

type_synonym machine = "seen option list"

definition seen_new :: "Build \<Rightarrow> seen" where
  "seen_new b = (seen_of b)\<lparr>o_status := BuildStatusNotStarted, o_completed := 0, o_events := []\<rparr>"

text \<open>What options without times select.\<close>

definition picks :: "ListBuildsOptions \<Rightarrow> seen \<Rightarrow> bool" where
  "picks opts x \<longleftrightarrow>
     (lo_WithGitHubRepo opts \<noteq> [] \<longrightarrow> o_repo x = lo_WithGitHubRepo opts)
     \<and> (lo_WithGitHubRef opts \<noteq> [] \<longrightarrow> o_ref x = lo_WithGitHubRef opts)
     \<and> (lo_WithImageRepo opts \<noteq> [] \<longrightarrow> lo_WithImageRepo opts \<in> set (o_images x))
     \<and> (lo_WithStatus opts \<noteq> BuildStatusUnknown \<longrightarrow> o_status x = lo_WithStatus opts)"

definition edit :: "nat \<Rightarrow> (seen option \<Rightarrow> seen option) \<Rightarrow> machine \<Rightarrow> machine \<times> answer" where
  "edit i f m = (if i < length m then (m[i := f (m ! i)], ADone) else (m, AMissing))"

fun spec :: "call \<Rightarrow> machine \<Rightarrow> machine \<times> answer" where
  "spec (CCreate b) m = (m @ [Some (seen_new b)], ADone)"
| "spec (CGet i) m = (m, if i < length m then (case m ! i of Some x \<Rightarrow> ABuild x | None \<Rightarrow> AMissing) else AMissing)"
| "spec (CStatus i st) m = edit i (map_option (\<lambda>x. x\<lparr>o_status := st\<rparr>)) m"
| "spec (CStamp i t) m = edit i (map_option (\<lambda>x. x\<lparr>o_completed := sint (tm_sec t)\<rparr>)) m"
| "spec (CRunning i) m = edit i (map_option (\<lambda>x. x\<lparr>o_status := BuildStatusRunning\<rparr>)) m"
| "spec (CCancel i) m = edit i (map_option (\<lambda>x. x\<lparr>o_status := BuildStatusCancelRequested\<rparr>)) m"
| "spec (CEvent i e) m = edit i (map_option (\<lambda>x. x\<lparr>o_events := o_events x @ [e]\<rparr>)) m"
| "spec (CDelete i) m = edit i (\<lambda>_. None) m"
| "spec (CList opts) m =
     (m, let l = filter (\<lambda>i. pred_option (picks opts) (m ! i) \<and> m ! i \<noteq> None) [0..<length m] in AListed (set l) (length l))"

fun specs :: "call list \<Rightarrow> machine \<Rightarrow> answer list" where
  "specs [] m = []"
| "specs (c # cs) m = (case spec c m of (m', a) \<Rightarrow> a # specs cs m')"

text \<open>
  Calls that both layers take: a build is cancelled while it runs, and gets events before it ends.  Outside of
  this the in-memory layer does what PostgreSQL's refuses, see \<open>layers_differ\<close> below.
\<close>

fun call_ok :: "call \<Rightarrow> machine \<Rightarrow> bool" where
  "call_ok (CCreate b) m = new_build b"
| "call_ok (CGet i) m = True"
| "call_ok (CStatus i st) m = known_status st"
| "call_ok (CStamp i t) m = storable t"
| "call_ok (CRunning i) m = True"
| "call_ok (CCancel i) m =
     (i < length m \<longrightarrow> (case m ! i of Some x \<Rightarrow> o_status x = BuildStatusRunning | None \<Rightarrow> False))"
| "call_ok (CEvent i e) m =
     (event_text e \<and> (i < length m \<longrightarrow> (case m ! i of Some x \<Rightarrow> \<not> TerminalState (o_status x) | None \<Rightarrow> False)))"
| "call_ok (CDelete i) m = True"
| "call_ok (CList opts) m =
     (list_all ascii_text (option_texts opts) \<and> known_status (lo_WithStatus opts) \<and> option_times opts = {zero_time}
      \<and> lo_Limit opts = 0 \<and> opts \<noteq> zero_ListBuildsOptions)"

fun calls_ok :: "call list \<Rightarrow> machine \<Rightarrow> bool" where
  "calls_ok [] m = True"
| "calls_ok (c # cs) m = (call_ok c m \<and> calls_ok cs (fst (spec c m)))"

primrec creates :: "call list \<Rightarrow> nat" where
  "creates [] = 0"
| "creates (c # cs) = (case c of CCreate b \<Rightarrow> Suc (creates cs) | _ \<Rightarrow> creates cs)"

section \<open>Refinement\<close>

text \<open>The machine's builds are those of the layer, in the order of their creation.\<close>

definition matches :: "(uuid \<rightharpoonup> Build) \<Rightarrow> uuid list \<Rightarrow> machine \<Rightarrow> bool" where
  "matches f hs m \<longleftrightarrow> distinct hs \<and> dom f \<subseteq> set hs \<and> map (map_option seen_of \<circ> f) hs = m"

lemma matchesD:
  assumes "matches f hs m"
  shows "length hs = length m" "\<And>i. i < length hs \<Longrightarrow> m ! i = map_option seen_of (f (hs ! i))" "distinct hs" "dom f \<subseteq> set hs"
  using assms by (auto simp: matches_def)

lemma matches_create:
  assumes "matches f hs m" "u \<notin> set hs" "stored_as b u b'"
  shows "matches (f(u \<mapsto> b')) (hs @ [u]) (m @ [Some (seen_new b)])"
proof -
  have "seen_of b' = seen_new b"
    using assms(3) by (simp add: stored_as_def created_as_def seen_of_def seen_new_def zero_time_def)
  with assms(1,2) show ?thesis unfolding matches_def by (auto simp: map_eq_conv)
qed

lemma matches_update:
  assumes "matches f hs m" "i < length hs" "dom f' \<subseteq> dom f" "\<And>u. u \<noteq> hs ! i \<Longrightarrow> f' u = f u"
    and "map_option seen_of (f' (hs ! i)) = x"
  shows "matches f' hs (m[i := x])"
  unfolding matches_def
proof (intro conjI)
  note d = matchesD [OF assms(1)]
  show "distinct hs" "dom f' \<subseteq> set hs" using d assms(3) by auto
  show "map (map_option seen_of \<circ> f') hs = m[i := x]"
  proof (rule nth_equalityI)
    fix j assume "j < length (map (map_option seen_of \<circ> f') hs)"
    then have j: "j < length hs" by simp
    have "hs ! j = hs ! i \<longleftrightarrow> j = i" using d(3) j assms(2) by (simp add: nth_eq_iff_index_eq)
    then show "map (map_option seen_of \<circ> f') hs ! j = m[i := x] ! j"
      using d(1) d(2) [OF j] j assms(4,5) by (auto simp: nth_list_update)
  qed (use d in simp)
qed

lemma matches_change:
  assumes "matches f hs m" "i < length hs" "\<And>b. seen_of (g b) = h (seen_of b)"
  shows "matches (change f (hs ! i) g) hs (m[i := map_option h (m ! i)])"
proof (rule matches_update [OF assms(1,2)])
  show "dom (change f (hs ! i) g) \<subseteq> dom f" by (auto simp: change_def split: option.splits)
  show "map_option seen_of (change f (hs ! i) g (hs ! i)) = map_option h (m ! i)"
    using matchesD(2) [OF assms(1,2)] assms(3) by (simp add: change_apply option.map_comp comp_def)
qed (simp add: change_apply)

lemma matches_steps:
  assumes "matches f hs m" "i < length hs"
  shows "matches (change f (hs ! i) (\<lambda>b. b\<lparr>b_Status := st\<rparr>)) hs (m[i := map_option (\<lambda>x. x\<lparr>o_status := st\<rparr>) (m ! i)])"
    "tm_sec t' = tm_sec t \<Longrightarrow>
       matches (change f (hs ! i) (\<lambda>b. b\<lparr>b_Completed := t'\<rparr>)) hs (m[i := map_option (\<lambda>x. x\<lparr>o_completed := sint (tm_sec t)\<rparr>) (m ! i)])"
    "matches (change f (hs ! i) (\<lambda>b. b\<lparr>b_Events := b_Events b @ [e]\<rparr>)) hs (m[i := map_option (\<lambda>x. x\<lparr>o_events := o_events x @ [e]\<rparr>) (m ! i)])"
  by (rule matches_change [OF assms]; simp add: seen_of_def)+

lemma seen_settle [simp]: "seen_of (settle b) = seen_of b"
  by (simp add: seen_of_def settle_def)

lemma seen_status [simp]: "o_status (seen_of b) = b_Status b"
  by (simp add: seen_of_def)

lemma selects_picks:
  assumes "option_times opts = {zero_time}" "r zero_time = zero_time"
  shows "selects (at_res r opts) b \<longleftrightarrow> picks opts (seen_of b)"
proof -
  have "lo_CompletedAfter opts = zero_time" "lo_StartedAfter opts = zero_time" "lo_CompletedBefore opts = zero_time" "lo_StartedBefore opts = zero_time"
    using assms(1) by (auto simp: option_times_def)
  then show ?thesis by (simp add: selects_def at_res_def picks_def seen_of_def IsZero_def assms(2))
qed

text \<open>The builds that a listing selects, by their numbers.\<close>

lemma listed_numbers:
  assumes "matches f hs m" "\<And>u b. f u = Some b \<Longrightarrow> b_ID b = u \<and> settle b = b"
    and S: "S = {b \<in> ran f. P (seen_of b)}" and out: "distinct (map settle out)" "settle ` set out \<subseteq> S" "length out = card S"
  defines "l \<equiv> filter (\<lambda>i. pred_option P (m ! i) \<and> m ! i \<noteq> None) [0..<length m]"
  shows "{i. i < length hs \<and> hs ! i \<in> b_ID ` set out} = set l" "length out = length l"
proof -
  note d = matchesD [OF assms(1)]
  let ?I = "{i. i < length hs \<and> pred_option P (m ! i) \<and> m ! i \<noteq> None}"
  have l: "set l = ?I" "distinct l" unfolding l_def using d(1) by auto
  have at: "pred_option P (m ! i) \<and> m ! i \<noteq> None \<longleftrightarrow> (\<exists>b. f (hs ! i) = Some b \<and> P (seen_of b))" if "i < length hs" for i
    using d(2) [OF that] by (cases "f (hs ! i)") auto
  have fin: "finite (ran f)" using d(4) by (intro finite_ran) (rule finite_subset, auto)
  have "card (settle ` set out) = card S" using out by (metis distinct_card length_map list.set_map)
  then have eq: "settle ` set out = S" using out(2) fin S by (intro card_subset_eq) auto
  have ids: "b_ID ` set out = b_ID ` S" unfolding eq [symmetric] by (simp add: image_image)
  have S_I: "b_ID ` S = (!) hs ` ?I"
  proof (intro equalityI subsetI)
    fix u assume "u \<in> b_ID ` S"
    then obtain b v where b: "f v = Some b" "P (seen_of b)" "u = b_ID b" unfolding S by (auto simp: ran_def)
    then have u: "f u = Some b" using assms(2) by blast
    then have "u \<in> set hs" using d(4) by blast
    then obtain i where i: "i < length hs" "hs ! i = u" by (auto simp: in_set_conv_nth)
    then show "u \<in> (!) hs ` ?I" using at [OF i(1)] u b(2) by auto
  next
    fix u assume "u \<in> (!) hs ` ?I"
    then obtain i where i: "i < length hs" "pred_option P (m ! i) \<and> m ! i \<noteq> None" "u = hs ! i" by auto
    from at [OF i(1)] i(2,3) obtain b where "f u = Some b" "P (seen_of b)" by auto
    then show "u \<in> b_ID ` S" using assms(2) unfolding S by (intro image_eqI [of _ _ b]) (auto simp: ran_def)
  qed
  show "{i. i < length hs \<and> hs ! i \<in> b_ID ` set out} = set l"
    unfolding ids S_I l(1) using d(3) by (auto simp: nth_eq_iff_index_eq)
  have "inj_on b_ID S" unfolding S using assms(2) by (fastforce simp: inj_on_def ran_def)
  then have "card S = card (b_ID ` S)" by (simp add: card_image)
  also have "\<dots> = card ?I" unfolding S_I using d(3) by (intro card_image) (auto simp: inj_on_def nth_eq_iff_index_eq)
  finally show "length out = length l" using out(3) distinct_card [OF l(2)] l(1) by simp
qed

context full_layer
begin

lemma list_refines:
  assumes "ready us s" "matches (full s) hs m" "call_ok (CList opts) m"
  shows "\<exists>s'. perform dl (CList opts) hs s = (s', hs, snd (spec (CList opts) m)) \<and> ready us s' \<and> full s' = full s"
proof -
  have c: "list_all ascii_text (option_texts opts)" "known_status (lo_WithStatus opts)" "option_times opts = {zero_time}" "lo_Limit opts = 0"
    "opts \<noteq> zero_ListBuildsOptions" using assms(3) by simp_all
  have "options_ok opts" using c(3,5) by (auto simp: options_ok_def option_times_def IsZero_def)
  moreover have "\<forall>t \<in> option_times opts. IsZero t \<or> storable t" unfolding c(3) by (simp add: IsZero_def)
  moreover have "opts\<lparr>lo_Limit := 0\<rparr> \<noteq> zero_ListBuildsOptions" using c(4,5) by (metis ListBuildsOptions.surjective ListBuildsOptions.update_convs(9))
  ultimately obtain s' out where l: "dl_ListBuilds dl Active opts s = (s', Ok out)" "ready us s'" "full s' = full s" "distinct (map settle out)"
    "settle ` set out \<subseteq> {b \<in> ran (full s). selects (at_res res opts) b}" "length out = card {b \<in> ran (full s). selects (at_res res opts) b}"
    using list_works [OF assms(1) _ _ c(1,2)] c(4) by (auto simp: Let_def)
  note sel = selects_picks [where r = res, OF c(3) res_zero]
  let ?l = "filter (\<lambda>i. pred_option (picks opts) (m ! i) \<and> m ! i \<noteq> None) [0..<length m]"
  from listed_numbers [OF assms(2) _ refl l(4), of "picks opts"] full_wf [OF assms(1)] l(5,6)
  have "{i. i < length hs \<and> hs ! i \<in> b_ID ` set out} = set ?l" "length out = length ?l" unfolding sel by blast+
  with l(1-3) show ?thesis by (simp add: Let_def)
qed

text \<open>A call that changes one build.\<close>

lemma edits_refines:
  assumes "matches (full s) hs m" "ready us s"
    and "i < length hs \<Longrightarrow> \<exists>s'. f (hs ! i) s = (s', Ok ()) \<and> ready us s' \<and> matches (full s') hs (m[i := g (m ! i)])"
  shows "\<exists>s'. edits f i hs s = (s', hs, snd (edit i g m)) \<and> ready us s' \<and> matches (full s') hs (fst (edit i g m))"
  using assms matchesD(1) [OF assms(1)] by (auto simp: edits_def edit_def)

lemma keeps_creates:
  assumes "ready us s" "matches (full s) hs m" "call_ok c m" "\<nexists>b. c = CCreate b"
  shows "\<exists>s'. perform dl c hs s = (s', hs, snd (spec c m)) \<and> ready us s' \<and> matches (full s') hs (fst (spec c m))"
proof (cases c)
case (CGet i)
  note d = matchesD [OF assms(2)]
  from assms CGet have r: "ready us s" by simp
  show ?thesis
  proof (cases "i < length hs")
    case True
    from get_works [OF r, of "hs ! i"] obtain s' x where g: "dl_GetBuildByID dl Active (hs ! i) s = (s', x)" "ready us s'" "full s' = full s"
      "case full s (hs ! i) of None \<Rightarrow> x = Err ErrNotFound | Some b \<Rightarrow> \<exists>b'. x = Ok b' \<and> settle b' = b" by blast
    show ?thesis
    proof (cases "full s (hs ! i)")
      case None
      with g True CGet d(1) d(2) [OF True] assms(2) show ?thesis by simp
    next
      case (Some b)
      with g obtain b' where "x = Ok b'" "settle b' = b" by auto
      moreover from this have "seen_of b' = seen_of b" by auto
      ultimately show ?thesis using g True CGet d(1) d(2) [OF True] assms(2) Some by simp
    qed
  qed (use CGet assms d(1) in simp)
next
  case (CStatus i st)
  then have r: "ready us s" "known_status st" using assms by simp_all
  show ?thesis unfolding CStatus perform.simps spec.simps
  proof (rule edits_refines [OF assms(2) r(1)])
    assume "i < length hs"
    from status_works [OF r, of "hs ! i"] matches_steps(1) [OF assms(2) this, of st]
    show "\<exists>s'. dl_SetBuildStatus dl Active (hs ! i) st s = (s', Ok ()) \<and> ready us s'
      \<and> matches (full s') hs (m[i := map_option (\<lambda>x. x\<lparr>o_status := st\<rparr>) (m ! i)])" by auto
  qed
next
  case (CStamp i t)
  then have r: "ready us s" "storable t" using assms by simp_all
  show ?thesis unfolding CStamp perform.simps spec.simps
  proof (rule edits_refines [OF assms(2) r(1)])
    assume "i < length hs"
    from stamp_works [OF r, of "hs ! i"] matches_steps(2) [OF assms(2) this rounds_sec [OF res_rounds, of t]]
    show "\<exists>s'. dl_SetBuildCompletedTimestamp dl Active (hs ! i) t s = (s', Ok ()) \<and> ready us s'
      \<and> matches (full s') hs (m[i := map_option (\<lambda>x. x\<lparr>o_completed := sint (tm_sec t)\<rparr>) (m ! i)])" by auto
  qed
next
  case (CRunning i)
  then have r: "ready us s" using assms by simp
  show ?thesis unfolding CRunning perform.simps spec.simps
  proof (rule edits_refines [OF assms(2) r])
    assume "i < length hs"
    from set_running [OF r, of "hs ! i"] matches_steps(1) [OF assms(2) this, of BuildStatusRunning]
    show "\<exists>s'. dl_SetBuildAsRunning dl Active (hs ! i) s = (s', Ok ()) \<and> ready us s'
      \<and> matches (full s') hs (m[i := map_option (\<lambda>x. x\<lparr>o_status := BuildStatusRunning\<rparr>) (m ! i)])" by auto
  qed
next
  case (CCancel i)
  then have r: "ready us s" using assms by simp
  show ?thesis unfolding CCancel perform.simps spec.simps
  proof (rule edits_refines [OF assms(2) r])
    assume i: "i < length hs"
    obtain b where "full s (hs ! i) = Some b" "b_Status b = BuildStatusRunning"
      using assms(3) CCancel i matchesD [OF assms(2)] by (auto split: option.splits)
    from set_cancelled [OF r this] matches_steps(1) [OF assms(2) i, of BuildStatusCancelRequested]
    show "\<exists>s'. dl_CancelBuild dl Active (hs ! i) s = (s', Ok ()) \<and> ready us s'
      \<and> matches (full s') hs (m[i := map_option (\<lambda>x. x\<lparr>o_status := BuildStatusCancelRequested\<rparr>) (m ! i)])" by auto
  qed
next
  case (CEvent i e)
  then have r: "ready us s" "event_text e" using assms by simp_all
  show ?thesis unfolding CEvent perform.simps spec.simps
  proof (rule edits_refines [OF assms(2) r(1)])
    assume i: "i < length hs"
    obtain b where "full s (hs ! i) = Some b" "\<not> TerminalState (b_Status b)"
      using assms(3) CEvent i matchesD [OF assms(2)] by (auto split: option.splits)
    from add_event [OF r(1) this r(2)] matches_steps(3) [OF assms(2) i, of e]
    show "\<exists>s'. dl_AddEvent dl Active (hs ! i) e s = (s', Ok ()) \<and> ready us s'
      \<and> matches (full s') hs (m[i := map_option (\<lambda>x. x\<lparr>o_events := o_events x @ [e]\<rparr>) (m ! i)])" by auto
  qed
next
  case (CDelete i)
  then have r: "ready us s" using assms by simp
  have "matches ((full s)(hs ! i := None)) hs (m[i := None])" if "i < length hs"
    by (rule matches_update [OF assms(2) that]) auto
  then show ?thesis unfolding CDelete perform.simps spec.simps
    by (intro edits_refines [OF assms(2) r]) (use delete_works [OF r] in \<open>metis\<close>)
next
  case (CList opts)
  with list_refines [of us s hs m opts] assms show ?thesis by (auto simp: Let_def)
qed (use assms(4) in blast)

lemma perform_refines:
  assumes "ready us s" "matches (full s) hs m" "call_ok c m" "set us \<inter> set hs = {}" "length us = creates [c] + n"
  shows "\<exists>s' hs' us'. perform dl c hs s = (s', hs', snd (spec c m)) \<and> ready us' s' \<and> matches (full s') hs' (fst (spec c m))
    \<and> set us' \<inter> set hs' = {} \<and> length us' = n"
proof (cases "\<exists>b. c = CCreate b")
  case True
  then obtain b where c: "c = CCreate b" by blast
  with assms(5) obtain u us' where us: "us = u # us'" "length us' = n" by (cases us) auto
  from create_works [of u us' s b] assms us c obtain s' b' where 1: "dl_CreateBuild dl Active b s = (s', Ok u)" "ready us' s'"
    "full s' = (full s)(u \<mapsto> b')" "stored_as b u b'" by auto
  have "distinct us" "u \<notin> set hs" using ready_inv [OF assms(1)] assms(4) us by auto
  with matches_create [OF assms(2) _ 1(4)] 1 us assms(4) c show ?thesis by auto
next
  case False
  then have "length us = n" using assms(5) by (cases c) auto
  with keeps_creates [OF assms(1-3) False] assms(4) show ?thesis by blast
qed

theorem performs_refines:
  assumes "ready us s" "matches (full s) hs m" "calls_ok cs m" "set us \<inter> set hs = {}" "length us = creates cs + n"
  shows "snd (performs dl cs hs s) = specs cs m"
  using assms
proof (induction cs arbitrary: us s hs m)
  case (Cons c cs)
  have "creates (c # cs) + n = creates [c] + (creates cs + n)" by (cases c) simp_all
  with Cons.prems(5) have "length us = creates [c] + (creates cs + n)" by metis
  from perform_refines [OF Cons.prems(1,2) _ Cons.prems(4) this] Cons.prems(3) obtain s' hs' us'
    where 1: "perform dl c hs s = (s', hs', snd (spec c m))" and 2: "ready us' s'" "matches (full s') hs' (fst (spec c m))"
      "set us' \<inter> set hs' = {}" "length us' = creates cs + n" by auto
  from Cons.IH [OF 2(1,2) _ 2(3,4)] Cons.prems(3) 1 show ?case by (simp add: case_prod_unfold)
qed simp

end

context pg_full
begin

lemmas performs_on_server = performs_refines

end

section \<open>Properties\<close>


definition demo_calls :: "call list" where
  "demo_calls =
     [CCreate (zero_Build\<lparr>b_GitHubRepo := ''acme/app'', b_Tags := [''v1'']\<rparr>), CRunning 0, CEvent 0 ''it's on'',
      CCreate zero_Build, CStamp 1 (Time 63713696461 7), CDelete 1, CGet 1,
      CList (zero_ListBuildsOptions\<lparr>lo_WithStatus := BuildStatusRunning\<rparr>), CCancel 0, CGet 0]"


text \<open>
  Where the layers differ: on a build that has ended the in-memory layer adds events and accepts a
  cancellation, which PostgreSQL's refuses, and it records no time of completion.
\<close>

definition after_end :: "'s DataLayer \<Rightarrow> 's \<Rightarrow> bool \<times> bool \<times> bool" where
  "after_end dl s =
     (case dl_CreateBuild dl Active zero_Build s of (s1, r) \<Rightarrow>
        let u = (case r of Ok u \<Rightarrow> u | _ \<Rightarrow> 0);
            s2 = fst (dl_SetBuildAsCompleted dl Active u BuildStatusSuccess s1)
        in (snd (dl_AddEvent dl Active u ''late'' s2) = Ok (), snd (dl_CancelBuild dl Active u s2) = Ok (),
            (case snd (dl_GetBuildByID dl Active u s2) of Ok b \<Rightarrow> IsZero (b_Completed b) | _ \<Rightarrow> False)))"

lemma layers_differ:
  "after_end (fakeDL (\<lambda>xs. xs)) demo_fake = (True, True, True)" "after_end (pgDL refPG) demo_server = (False, False, False)"
proof -
  show "after_end (fakeDL (\<lambda>xs. xs)) demo_fake = (True, True, True)" by code_simp
  have p: "parse_lit [CHR 39, CHR ''5'', CHR 39] = Some ''5''" by code_simp
  have g: "rp_down s = False \<Longrightarrow> GetBuildByID refPG Active u s
      = (s, case t_builds (rp_tabs s) u of None \<Rightarrow> Err ErrNotFound | Some row \<Rightarrow> Ok (out_build row))" for u s
    by (simp add: GetBuildByID_def refPG_def ref_guard_def retry_first split: option.splits)
  note ev = CreateBuild_def SetBuildAsCompleted_def demo_server_def ref_eval txn_def txn_body_def inserted_def update_build_def itoa_5 p
    clear_credential_def json_opts_def zero_Build_def zero_Request_def TerminalState_def ts_param_def Let_def
  obtain s1 s2 row where 1: "CreateBuild refPG Active zero_Build demo_server = (s1, Ok 1)"
    "SetBuildAsCompleted refPG Active 1 BuildStatusSuccess s1 = (s2, Ok ())"
    and 2: "rp_down s2 = False" "t_builds (rp_tabs s2) 1 = Some row" "b_Status (fst row) = BuildStatusSuccess"
      "snd (snd row) = Some (Time 63713696461 0)" by (simp add: ev)
  have "b_Status (out_build row) = BuildStatusSuccess" "\<not> IsZero (b_Completed (out_build row))"
    using 2(3,4) by (cases row; simp add: out_build_def IsZero_def zero_time_def split: option.splits)+
  then show "after_end (pgDL refPG) demo_server = (False, False, False)"
    using 1 2(1,2) by (simp add: after_end_def pgDL_def AddEvent_def CancelBuild_def g CanAddEvent_def EventListenable_def Running_def TerminalState_def)
qed

declare no_opts_simps [simp del]

end
