(* ===== verification/Furan_Builder.thy ===== *)
theory Furan_Builder
  imports Furan_Datalayer
begin

text \<open>
  \<^verbatim>\<open>pkg/builder/builder.go\<close>: the \<^verbatim>\<open>Manager\<close> with \<^verbatim>\<open>Start\<close>, which hands a build to a job, and
  \<^verbatim>\<open>Run\<close>, which executes a build inside the job.  The other interfaces the manager holds (builder,
  job runner, tag checker, code fetcher) and the operating system are arguments.

  \<^verbatim>\<open>Run\<close> starts two goroutines, one for signals and one that listens for cancellation.  What they
  and the rest of the world do is a schedule: a list of \<open>envact\<close>s for each point at which the main
  goroutine calls out.  The cancellation goroutine cancels the context and then sets the flag, in
  two steps.
\<close>

section \<open>The manager and its dependencies\<close>

record 's CodeFetcher =
  cf_GetCommitSHA :: "ctx \<Rightarrow> string \<Rightarrow> string \<Rightarrow> ('s, string) act"
  cf_Fetch :: "ctx \<Rightarrow> string \<Rightarrow> string \<Rightarrow> string \<Rightarrow> ('s, unit) act"

record ('s, 'j) Manager =
  m_BRunner :: "(ctx \<Rightarrow> BuildOpts \<Rightarrow> ('s, unit) act) option"
  m_JRunner :: "(Build \<Rightarrow> ('s, 'j) act) option"
  m_TCheck :: "(string list \<Rightarrow> string \<Rightarrow> ('s, bool \<times> string list) act) option"
  m_FetcherFactory :: "(string \<Rightarrow> 's CodeFetcher) option"
  m_GitHubTokenKey :: string
  m_DL :: "'s DataLayer option"

record 's OS =
  os_TempDir :: "('s, string) act"
  os_RemoveAll :: "string \<Rightarrow> ('s, unit) act"
  os_Open :: "string \<Rightarrow> ('s, unit) act"
  os_Readdir :: "string \<Rightarrow> ('s, string list) act"
  os_Processes :: "('s, (int \<times> string) list) act"
  os_Kill :: "int \<Rightarrow> ('s, unit) act"

section \<open>Start\<close>

text \<open>
  What the \<^verbatim>\<open>select\<close> of the loop receives, in order.  The text of a tick is the elapsed time; a
  receive from the closed error channel gives no error.
\<close>

datatype start_event = SelCtxDone | SelTick string | SelJobError "goerr option" | SelRunning

fun start_loop :: "'s DataLayer \<Rightarrow> ctx \<Rightarrow> uuid \<Rightarrow> start_event list \<Rightarrow> 's \<Rightarrow> ('s \<times> unit go) option" where
  "start_loop dl c bid [] s = None"
| "start_loop dl c bid (SelCtxDone # es) s = Some (s, Err (ErrMsg ''context cancelled''))"
| "start_loop dl c bid (SelTick d # es) s =
     (case dl_AddEvent dl c bid (''waiting for build handoff... ('' @ d @ '' elapsed)'') s of
        (s', _) \<Rightarrow> start_loop dl c bid es s')"
| "start_loop dl c bid (SelJobError err # es) s =
     Some (s, Err (case err of Some e \<Rightarrow> Wrapf ''job error: '' e
                   | None \<Rightarrow> ErrMsg ''job error: %!w(<nil>)''))"
| "start_loop dl c bid (SelRunning # es) s = Some (s, Ok ())"

text \<open>\<open>None\<close>: the call is still waiting.  The first two messages print the manager, which is left out.\<close>

definition Start ::
  "('s, 'j) Manager \<Rightarrow> ctx \<Rightarrow> BuildOpts \<Rightarrow> start_event list \<Rightarrow> 's \<Rightarrow> ('s \<times> unit go) option" where
  "Start m c opts evs s =
     (case m_JRunner m of
        None \<Rightarrow> Some (s, Err (ErrMsg ''JRunner is required''))
      | Some jrun \<Rightarrow>
          (case m_DL m of
             None \<Rightarrow> Some (s, Err (ErrMsg ''DL is required''))
           | Some dl \<Rightarrow>
               (case dl_GetBuildByID dl c (bo_BuildID opts) s of
                  (s1, Err e) \<Rightarrow> Some (s1, Err (Wrapf ''error getting build: '' e))
                | (s1, Panic p) \<Rightarrow> Some (s1, Panic p)
                | (s1, Ok b) \<Rightarrow>
                    (case jrun b s1 of
                       (s2, Err e) \<Rightarrow> Some (s2, Err (Wrapf ''error running build job: '' e))
                     | (s2, Panic p) \<Rightarrow> Some (s2, Panic p)
                     | (s2, Ok j) \<Rightarrow> start_loop dl c (b_ID b) evs s2))))"

section \<open>Run\<close>

text \<open>The state of the goroutine that listens for cancellation.\<close>

datatype listener = LNotStarted | LWaiting | LGot | LEnded

record 's rs =
  rs_s :: 's
  rs_ctx2 :: ctx
  rs_cancelled :: bool
  rs_listener :: listener
  rs_sigwait :: bool
  rs_point :: nat

text \<open>
  What can happen beside the main goroutine: other processes act on the world, the listener gets a
  cancellation (and cancels the context), sets the flag, or fails, a signal arrives, the context
  of the caller ends.
\<close>

datatype 's envact =
  Others "'s \<Rightarrow> 's" | CancelReceived | CancelFlagSet | ListenFails | SignalArrives string | ParentDone

primrec env_step :: "'s DataLayer \<Rightarrow> uuid \<Rightarrow> 's envact \<Rightarrow> 's rs \<Rightarrow> 's rs" where
  "env_step dl bid (Others f) r = r\<lparr>rs_s := f (rs_s r)\<rparr>"
| "env_step dl bid CancelReceived r =
     (if rs_listener r = LWaiting then r\<lparr>rs_ctx2 := Done, rs_listener := LGot\<rparr> else r)"
| "env_step dl bid CancelFlagSet r =
     (if rs_listener r = LGot then r\<lparr>rs_cancelled := True, rs_listener := LEnded\<rparr> else r)"
| "env_step dl bid ListenFails r =
     (if rs_listener r = LWaiting then r\<lparr>rs_listener := LEnded\<rparr> else r)"
| "env_step dl bid (SignalArrives sig) r =
     (if rs_sigwait r then
        r\<lparr>rs_s := fst (dl_AddEvent dl Background bid
                         (''signal received: '' @ sig @ ''; aborting build'') (rs_s r)),
          rs_ctx2 := Done, rs_sigwait := False\<rparr>
      else r)"
| "env_step dl bid ParentDone r = r\<lparr>rs_ctx2 := Done\<rparr>"

type_synonym 's schedule = "nat \<Rightarrow> 's envact list"

text \<open>A point of the main goroutine: the schedule's actions for it happen.\<close>

definition tick :: "'s DataLayer \<Rightarrow> uuid \<Rightarrow> 's schedule \<Rightarrow> 's rs \<Rightarrow> 's rs" where
  "tick dl bid sched r =
     (fold (env_step dl bid) (sched (rs_point r)) r)\<lparr>rs_point := Suc (rs_point r)\<rparr>"

text \<open>A call with the context \<^verbatim>\<open>ctx2\<close>, and one that takes no context.\<close>

definition call2 ::
  "'s DataLayer \<Rightarrow> uuid \<Rightarrow> 's schedule \<Rightarrow> (ctx \<Rightarrow> ('s, 'a) act) \<Rightarrow> ('s rs, 'a) act" where
  "call2 dl bid sched f r =
     (let r1 = tick dl bid sched r
      in case f (rs_ctx2 r1) (rs_s r1) of (s', x) \<Rightarrow> (r1\<lparr>rs_s := s'\<rparr>, x))"

definition call0 ::
  "'s DataLayer \<Rightarrow> uuid \<Rightarrow> 's schedule \<Rightarrow> ('s, 'a) act \<Rightarrow> ('s rs, 'a) act" where
  "call0 dl bid sched f = call2 dl bid sched (\<lambda>_. f)"

text \<open>A call whose result is ignored.\<close>

definition ignore :: "('s, 'a) act \<Rightarrow> ('s, unit) act" where
  "ignore f s =
     (case f s of (s', Panic p) \<Rightarrow> (s', Panic p) | (s', Ok _) \<Rightarrow> (s', Ok ()) | (s', Err _) \<Rightarrow> (s', Ok ()))"

definition getContextSubdir :: "'s OS \<Rightarrow> string \<Rightarrow> ('s, string) act" where
  "getContextSubdir os path =
     bind_act (wrap_act ''error opening path: '' (os_Open os path)) (\<lambda>_.
     bind_act (wrap_act ''error reading path directory entries: '' (os_Readdir os path)) (\<lambda>fi.
     if length fi \<noteq> 1 then
       ret_act (Err (ErrMsg (''expected exactly one subdirectory, got '' @ itoa (int (length fi)))))
     else ret_act (Ok (fi ! 0))))"

text \<open>The loop over the image repositories; it stops at the first one that lacks a tag.\<close>

fun check_repos ::
  "'s DataLayer \<Rightarrow> uuid \<Rightarrow> 's schedule \<Rightarrow> (string list \<Rightarrow> string \<Rightarrow> ('s, bool \<times> string list) act)
     \<Rightarrow> string list \<Rightarrow> string list \<Rightarrow> ('s rs, bool) act" where
  "check_repos dl bid sched tc tags [] = ret_act (Ok True)"
| "check_repos dl bid sched tc tags (irepo # rest) =
     bind_act (wrap_act (''error checking for tags: '' @ irepo @ '': '')
                 (call0 dl bid sched (tc tags irepo)))
       (\<lambda>(exists, _). if exists then check_repos dl bid sched tc tags rest else ret_act (Ok False))"

text \<open>\<^verbatim>\<open>%v\<close> of a slice of strings.\<close>

definition print_slice :: "string list \<Rightarrow> string" where
  "print_slice xs = ''['' @ Join xs '' '' @ '']''"

text \<open>Lines 202 to 226; the value says whether the build was skipped.\<close>

definition skip_check ::
  "'s DataLayer \<Rightarrow> uuid \<Rightarrow> 's schedule \<Rightarrow> (string list \<Rightarrow> string \<Rightarrow> ('s, bool \<times> string list) act)
     \<Rightarrow> Build \<Rightarrow> string \<Rightarrow> ('s rs, bool) act" where
  "skip_check dl bid sched tc b csha =
     (if \<not> rq_SkipIfExists (b_Request b) then ret_act (Ok False)
      else case rq_Build (b_Request b) of
        None \<Rightarrow> ret_act (Panic ''invalid memory address or nil pointer dereference'')
      | Some d \<Rightarrow>
          let tags = (if bd_TagWithCommitSha d then b_Tags b @ [csha] else b_Tags b) in
          bind_act (check_repos dl bid sched tc tags (b_ImageRepos b)) (\<lambda>allexist.
          if allexist then
            bind_act (ignore (call2 dl bid sched (\<lambda>c. dl_AddEvent dl c (b_ID b)
                        (''all tags exist in all image repos: '' @ print_slice tags @ ''; skipping''))))
              (\<lambda>_. bind_act (wrap_act ''error setting build as skipped: ''
                      (call2 dl bid sched (\<lambda>c. dl_SetBuildAsCompleted dl c (b_ID b) BuildStatusSkipped)))
              (\<lambda>_. ret_act (Ok True)))
          else ret_act (Ok False)))"

text \<open>Lines 233 to 253: fetch the code and build it in \<open>tdir\<close>.\<close>

definition build_in ::
  "'s OS \<Rightarrow> 's DataLayer \<Rightarrow> uuid \<Rightarrow> 's schedule \<Rightarrow> (ctx \<Rightarrow> BuildOpts \<Rightarrow> ('s, unit) act) \<Rightarrow> 's CodeFetcher
     \<Rightarrow> Build \<Rightarrow> BuildOpts \<Rightarrow> string \<Rightarrow> ('s rs, unit) act" where
  "build_in os dl bid sched brun fetcher b opts tdir =
     bind_act (wrap_act ''error fetching repo: ''
       (call2 dl bid sched (\<lambda>c. cf_Fetch fetcher c (b_GitHubRepo b) (b_GitHubRef b) tdir))) (\<lambda>_.
     bind_act (wrap_act ''error getting context subdirectory: ''
       (call0 dl bid sched (getContextSubdir os tdir))) (\<lambda>subdir.
     let ctxpath = filepath_Join [tdir, subdir];
         opts1 = opts\<lparr>bo_ContextPath := ctxpath,
                      bo_RelativeDockerfilePath :=
                        filepath_Join [ctxpath, bo_RelativeDockerfilePath (b_BuildOptions b)]\<rparr>
     in bind_act (wrap_act ''error executing build: ''
          (call2 dl bid sched (\<lambda>c. brun c opts1))) (\<lambda>_.
        wrap_act ''error setting build as completed: ''
          (call2 dl bid sched (\<lambda>c. dl_SetBuildAsCompleted dl c (b_ID b) BuildStatusSuccess)))))"

text \<open>The temporary directory is removed on every way out.\<close>

definition with_tempdir ::
  "'s OS \<Rightarrow> 's DataLayer \<Rightarrow> uuid \<Rightarrow> 's schedule \<Rightarrow> (string \<Rightarrow> ('s rs, unit) act) \<Rightarrow> ('s rs, unit) act" where
  "with_tempdir os dl bid sched f =
     bind_act (wrap_act ''error creating temp dir for build context: ''
       (call0 dl bid sched (os_TempDir os))) (\<lambda>tdir r.
       case f tdir r of (r1, x) \<Rightarrow> (fst (call0 dl bid sched (os_RemoveAll os tdir) r1), x))"

text \<open>Lines 188 to 253.\<close>

definition run_body ::
  "(string \<Rightarrow> string \<Rightarrow> string \<Rightarrow> string option) \<Rightarrow> 's OS \<Rightarrow> 's DataLayer \<Rightarrow> uuid \<Rightarrow> 's schedule
     \<Rightarrow> (ctx \<Rightarrow> BuildOpts \<Rightarrow> ('s, unit) act) \<Rightarrow> (string list \<Rightarrow> string \<Rightarrow> ('s, bool \<times> string list) act)
     \<Rightarrow> (string \<Rightarrow> 's CodeFetcher) \<Rightarrow> string \<Rightarrow> Build \<Rightarrow> ('s rs, unit) act" where
  "run_body open_box os dl bid sched brun tc ff key b =
     bind_act (wrap_act ''error decrypting github token: ''
       (ret_act (GetGitHubCredential open_box b key))) (\<lambda>tkn.
     bind_act (wrap_act ''error getting commit sha: ''
       (call2 dl bid sched (\<lambda>c. cf_GetCommitSHA (ff tkn) c (b_GitHubRepo b) (b_GitHubRef b)))) (\<lambda>csha.
     bind_act (skip_check dl bid sched tc b csha) (\<lambda>skipped.
     if skipped then ret_act (Ok ())
     else with_tempdir os dl bid sched
            (build_in os dl bid sched brun (ff tkn) b
               ((b_BuildOptions b)\<lparr>bo_BuildID := b_ID b, bo_CommitSHA := csha\<rparr>)))))"

text \<open>
  The deferred function of lines 173 to 186.  While a panic unwinds, \<^verbatim>\<open>err\<close> is nil and nothing is
  recorded.
\<close>

definition mark_completed ::
  "'s DataLayer \<Rightarrow> uuid \<Rightarrow> 's schedule \<Rightarrow> Build \<Rightarrow> unit go \<Rightarrow> 's rs \<Rightarrow> 's rs" where
  "mark_completed dl bid sched b res r =
     (case res of
        Ok _ \<Rightarrow> r
      | Panic p \<Rightarrow> r
      | Err e \<Rightarrow>
          let r1 = tick dl bid sched r;
              status = (if rs_cancelled r1 then BuildStatusCancelled else BuildStatusFailure);
              msg = (if rs_cancelled r1 then ''build was cancelled''
                     else ''error running build: '' @ errstr e);
              r2 = fst (call0 dl bid sched (dl_AddEvent dl Background (b_ID b) msg) r1)
          in fst (call0 dl bid sched (dl_SetBuildAsCompleted dl Background (b_ID b) status) r2))"

fun kill_first :: "'s OS \<Rightarrow> (int \<times> string) list \<Rightarrow> ('s, unit) act" where
  "kill_first os [] = ret_act (Err (ErrMsg ''buildkitd process not found''))"
| "kill_first os ((pid, exe) # ps) =
     (if exe = ''buildkitd'' then wrap_act ''error sending SIGTERM to buildkitd: '' (os_Kill os pid)
      else kill_first os ps)"

definition killbuildkitd :: "'s OS \<Rightarrow> ('s, unit) act" where
  "killbuildkitd os =
     bind_act (wrap_act ''error listing processes: '' (os_Processes os)) (kill_first os)"

text \<open>
  Lines 153 to 253 with the deferred functions of lines 139 and 173; what comes before them is in
  \<open>Run\<close>.
\<close>

definition run_handoff ::
  "(string \<Rightarrow> string \<Rightarrow> string \<Rightarrow> string option) \<Rightarrow> 's OS \<Rightarrow> 's DataLayer \<Rightarrow> uuid \<Rightarrow> 's schedule
     \<Rightarrow> (ctx \<Rightarrow> BuildOpts \<Rightarrow> ('s, unit) act) \<Rightarrow> (string list \<Rightarrow> string \<Rightarrow> ('s, bool \<times> string list) act)
     \<Rightarrow> (string \<Rightarrow> 's CodeFetcher) \<Rightarrow> string \<Rightarrow> Build \<Rightarrow> ('s rs, unit) act" where
  "run_handoff open_box os dl bid sched brun tc ff key b r =
     (case call2 dl bid sched (\<lambda>c. dl_SetBuildAsRunning dl c (b_ID b)) r of
        (r1, Err e) \<Rightarrow> (r1, Err (Wrapf ''error setting build status to running: '' e))
      | (r1, Panic p) \<Rightarrow> (r1, Panic p)
      | (r1, Ok _) \<Rightarrow>
          (case run_body open_box os dl bid sched brun tc ff key b (r1\<lparr>rs_listener := LWaiting\<rparr>) of
             (r2, res) \<Rightarrow> ((mark_completed dl bid sched b res r2)\<lparr>rs_ctx2 := Done\<rparr>, res)))"

text \<open>The deferred function of lines 120 to 124.\<close>

definition kill_deferred :: "'s OS \<Rightarrow> 's DataLayer \<Rightarrow> uuid \<Rightarrow> 's schedule \<Rightarrow> 's rs \<Rightarrow> 's rs" where
  "kill_deferred os dl bid sched r =
     (case call0 dl bid sched (killbuildkitd os) r of
        (r1, Err e) \<Rightarrow> fst (call0 dl bid sched (dl_AddEvent dl Background bid (errstr e)) r1)
      | (r1, _) \<Rightarrow> r1)"

definition Run ::
  "(string \<Rightarrow> string \<Rightarrow> string \<Rightarrow> string option) \<Rightarrow> 's OS \<Rightarrow> ('s, 'j) Manager \<Rightarrow> 's schedule
     \<Rightarrow> ctx \<Rightarrow> uuid \<Rightarrow> ('s, unit) act" where
  "Run open_box os m sched c bid s =
     (case (m_BRunner m, m_TCheck m, m_FetcherFactory m, m_DL m) of
        (Some brun, Some tc, Some ff, Some dl) \<Rightarrow>
          (let rs0 = (\<lambda>s. \<lparr>rs_s = s, rs_ctx2 = c, rs_cancelled = False, rs_listener = LNotStarted,
                           rs_sigwait = False, rs_point = 0\<rparr>);
               (r, res) =
                 (case dl_GetBuildByID dl c bid s of
                    (s1, Err e) \<Rightarrow> (rs0 s1, Err (Wrapf ''error getting build: '' e))
                  | (s1, Panic p) \<Rightarrow> (rs0 s1, Panic p)
                  | (s1, Ok b) \<Rightarrow>
                      if b_Status b \<noteq> BuildStatusNotStarted then
                        (rs0 s1, Err (ErrMsg (''build already attempted or has unexpected status (''
                           @ BuildStatus_String (b_Status b) @ ''), wanted NotStarted, aborting'')))
                      else run_handoff open_box os dl bid sched brun tc ff (m_GitHubTokenKey m) b
                             ((rs0 s1)\<lparr>rs_sigwait := True\<rparr>))
           in (rs_s (kill_deferred os dl bid sched r), res))
      | _ \<Rightarrow> (s, Err (ErrMsg ''missing dependencies'')))"

section \<open>A run ends with a terminal status\<close>

text \<open>What is assumed of the world around a run: no call panics, and every call keeps \<open>Q\<close>.\<close>

definition acts_ok :: "('s \<Rightarrow> bool) \<Rightarrow> ('s, 'a) act \<Rightarrow> bool" where
  "acts_ok Q f \<longleftrightarrow> keeps Q f \<and> calm Q f"

definition parts_ok ::
  "('s \<Rightarrow> bool) \<Rightarrow> 's OS \<Rightarrow> (ctx \<Rightarrow> BuildOpts \<Rightarrow> ('s, unit) act)
     \<Rightarrow> (string list \<Rightarrow> string \<Rightarrow> ('s, bool \<times> string list) act) \<Rightarrow> (string \<Rightarrow> 's CodeFetcher) \<Rightarrow> bool" where
  "parts_ok Q os brun tc ff \<longleftrightarrow>
     (\<forall>c opts. acts_ok Q (brun c opts)) \<and> (\<forall>tags repo. acts_ok Q (tc tags repo))
     \<and> (\<forall>tkn c repo ref. acts_ok Q (cf_GetCommitSHA (ff tkn) c repo ref))
     \<and> (\<forall>tkn c repo ref d. acts_ok Q (cf_Fetch (ff tkn) c repo ref d))
     \<and> acts_ok Q (os_TempDir os) \<and> (\<forall>p. acts_ok Q (os_Open os p)) \<and> (\<forall>p. acts_ok Q (os_Readdir os p))"

text \<open>What runs after the completion was recorded, and other processes, keep \<open>Q\<close>.\<close>

definition after_ok :: "('s \<Rightarrow> bool) \<Rightarrow> 's OS \<Rightarrow> 's schedule \<Rightarrow> bool" where
  "after_ok Q os sched \<longleftrightarrow>
     (\<forall>p. acts_ok Q (os_RemoveAll os p)) \<and> acts_ok Q (os_Processes os) \<and> (\<forall>p. acts_ok Q (os_Kill os p))
     \<and> (\<forall>n f s. Others f \<in> set (sched n) \<longrightarrow> Q s \<longrightarrow> Q (f s))"

lemma env_step_keeps:
  assumes "\<And>f. a = Others f \<Longrightarrow> (\<forall>s. Q s \<longrightarrow> Q (f s))" "\<And>c e. keeps Q (dl_AddEvent dl c bid e)"
    and "Q (rs_s r)"
  shows "Q (rs_s (env_step dl bid a r))"
  using assms by (cases a) (auto simp: keeps_def)

lemma tick_keeps:
  assumes "after_ok Q os sched" "\<And>c e. keeps Q (dl_AddEvent dl c bid e)" "Q (rs_s r)"
  shows "Q (rs_s (tick dl bid sched r))"
proof -
  have "Q (rs_s (fold (env_step dl bid) as r))" if "set as \<subseteq> set (sched n)" for as n
    using that assms(3)
  proof (induction as arbitrary: r)
    case (Cons a as)
    have "\<And>f. a = Others f \<Longrightarrow> (\<forall>s. Q s \<longrightarrow> Q (f s))"
      using assms(1) Cons.prems(1) by (auto simp: after_ok_def)
    from env_step_keeps [OF this assms(2) Cons.prems(2)] Cons show ?case by simp
  qed simp
  from this [OF subset_refl] show ?thesis by (simp add: tick_def)
qed

lemma call2_keeps:
  assumes "after_ok Q os sched" "\<And>c e. keeps Q (dl_AddEvent dl c bid e)" "\<And>c. keeps Q (f c)"
  shows "keeps (\<lambda>r. Q (rs_s r)) (call2 dl bid sched f)"
  unfolding keeps_def
proof (intro allI impI)
  fix r :: "'a rs"
  assume "Q (rs_s r)"
  then have "Q (rs_s (tick dl bid sched r))" by (rule tick_keeps [OF assms(1,2)])
  with assms(3) show "Q (rs_s (fst (call2 dl bid sched f r)))"
    by (auto simp: call2_def Let_def keeps_def split: prod.splits) (metis fst_conv)
qed

lemma call2_calm:
  assumes "after_ok Q os sched" "\<And>c e. keeps Q (dl_AddEvent dl c bid e)" "\<And>c. calm Q (f c)"
  shows "calm (\<lambda>r. Q (rs_s r)) (call2 dl bid sched f)"
  unfolding calm_def
proof (intro allI impI)
  fix r :: "'a rs" and p
  assume "Q (rs_s r)"
  then have "Q (rs_s (tick dl bid sched r))" by (rule tick_keeps [OF assms(1,2)])
  with assms(3) show "snd (call2 dl bid sched f r) \<noteq> Panic p"
    by (auto simp: call2_def Let_def calm_def split: prod.splits) (metis snd_conv)
qed

lemma ignore_keeps [intro]: "keeps Q f \<Longrightarrow> keeps Q (ignore f)"
  by (fastforce simp: keeps_def ignore_def split: prod.splits go.splits)

lemma ignore_calm [intro]: "calm Q f \<Longrightarrow> calm Q (ignore f)"
  by (fastforce simp: calm_def ignore_def split: prod.splits go.splits)

lemma acts_bind [intro]: "acts_ok Q m \<Longrightarrow> (\<And>x. acts_ok Q (f x)) \<Longrightarrow> acts_ok Q (bind_act m f)"
  unfolding acts_ok_def by blast

lemma acts_wrap [intro]: "acts_ok Q m \<Longrightarrow> acts_ok Q (wrap_act p m)"
  unfolding acts_ok_def by blast

lemma acts_ignore [intro]: "acts_ok Q m \<Longrightarrow> acts_ok Q (ignore m)"
  unfolding acts_ok_def by blast

lemma acts_ret [simp]: "acts_ok Q (ret_act (Ok x))" "acts_ok Q (ret_act (Err e))"
  by (simp_all add: acts_ok_def)

lemma acts_keepsD: "acts_ok Q m \<Longrightarrow> Q s \<Longrightarrow> m s = (s', r) \<Longrightarrow> Q s'"
  unfolding acts_ok_def by (blast dest: keepsD)

text \<open>The result of a call: what \<open>f\<close> left behind, started where \<open>Q\<close> holds.\<close>

lemma call2_post:
  assumes "after_ok Q os sched" "\<And>c e. keeps Q (dl_AddEvent dl c bid e)" "Q (rs_s r)"
    and "call2 dl bid sched f r = (r', x)"
  shows "\<exists>c s. Q s \<and> f c s = (rs_s r', x)"
  using tick_keeps [OF assms(1,2,3)] assms(4)
  by (auto simp: call2_def Let_def split: prod.splits) blast

text \<open>
  The world of a run: \<open>store_alive\<close>, the store works and has the build; \<open>store_at st\<close>, moreover the
  build's status is \<open>st\<close>.
\<close>

definition store_alive ::
  "('s \<Rightarrow> store) \<Rightarrow> ('s \<Rightarrow> bool) \<Rightarrow> ('s \<Rightarrow> bool) \<Rightarrow> uuid \<Rightarrow> 's \<Rightarrow> bool" where
  "store_alive view Inv healthy bid s \<longleftrightarrow> Inv s \<and> healthy s \<and> view s bid \<noteq> None"

definition store_at ::
  "('s \<Rightarrow> store) \<Rightarrow> ('s \<Rightarrow> bool) \<Rightarrow> ('s \<Rightarrow> bool) \<Rightarrow> uuid \<Rightarrow> BuildStatus \<Rightarrow> 's \<Rightarrow> bool" where
  "store_at view Inv healthy bid st s \<longleftrightarrow>
     store_alive view Inv healthy bid s \<and> status_of (view s) bid = Some st"

text \<open>
  The parts keep the store alive; the cleanup calls and the other processes moreover leave a
  terminal status alone.
\<close>

definition run_world ::
  "('s \<Rightarrow> store) \<Rightarrow> ('s \<Rightarrow> bool) \<Rightarrow> ('s \<Rightarrow> bool) \<Rightarrow> uuid \<Rightarrow> 's schedule \<Rightarrow> 's OS
     \<Rightarrow> (ctx \<Rightarrow> BuildOpts \<Rightarrow> ('s, unit) act) \<Rightarrow> (string list \<Rightarrow> string \<Rightarrow> ('s, bool \<times> string list) act)
     \<Rightarrow> (string \<Rightarrow> 's CodeFetcher) \<Rightarrow> bool" where
  "run_world view Inv healthy bid sched os brun tc ff \<longleftrightarrow>
     parts_ok (store_alive view Inv healthy bid) os brun tc ff
     \<and> after_ok (store_alive view Inv healthy bid) os sched
     \<and> (\<forall>st. TerminalState st \<longrightarrow> after_ok (store_at view Inv healthy bid st) os sched)"

context reliable_layer
begin

abbreviation (input) alive :: "uuid \<Rightarrow> 's \<Rightarrow> bool" where
  "alive \<equiv> store_alive view inv healthy"

abbreviation (input) at :: "uuid \<Rightarrow> BuildStatus \<Rightarrow> 's \<Rightarrow> bool" where
  "at \<equiv> store_at view inv healthy"

abbreviation (input) world_ok where
  "world_ok \<equiv> run_world view inv healthy"

lemma event_alive: "keeps (alive bid) (dl_AddEvent dl c bid e)"
  unfolding keeps_def store_alive_def
proof (intro allI impI)
  fix s
  assume s: "inv s \<and> healthy s \<and> view s bid \<noteq> None"
  obtain s' r where e: "dl_AddEvent dl c bid e s = (s', r)" by fastforce
  from event_step [OF _ e] s event_healthy [OF _ e] event_keeps_status [OF _ e, of bid]
  show "inv (fst (dl_AddEvent dl c bid e s)) \<and> healthy (fst (dl_AddEvent dl c bid e s))
      \<and> view (fst (dl_AddEvent dl c bid e s)) bid \<noteq> None"
    by (auto simp: e push_event_apply)
qed

lemma event_calm: "calm (alive bid) (dl_AddEvent dl c bid e)"
  unfolding calm_def store_alive_def using event_step by (metis prod.collapse)

lemma event_at: "keeps (at bid st) (dl_AddEvent dl c bid e)"
  using event_alive [of bid c e] event_keeps_status
  unfolding keeps_def store_at_def store_alive_def by (metis prod.collapse)

lemma running_alive:
  "keeps (alive bid) (dl_SetBuildAsRunning dl c bid)" "calm (alive bid) (dl_SetBuildAsRunning dl c bid)"
proof -
  show "keeps (alive bid) (dl_SetBuildAsRunning dl c bid)"
    unfolding keeps_def store_alive_def
  proof (intro allI impI)
    fix s
    assume s: "inv s \<and> healthy s \<and> view s bid \<noteq> None"
    obtain s' r where e: "dl_SetBuildAsRunning dl c bid s = (s', r)" by fastforce
    from running_step [OF _ e] s running_healthy [OF _ e]
    show "inv (fst (dl_SetBuildAsRunning dl c bid s)) \<and> healthy (fst (dl_SetBuildAsRunning dl c bid s))
        \<and> view (fst (dl_SetBuildAsRunning dl c bid s)) bid \<noteq> None"
      by (auto simp: e set_status_apply)
  qed
  show "calm (alive bid) (dl_SetBuildAsRunning dl c bid)"
    unfolding calm_def store_alive_def using running_step by (metis prod.collapse)
qed

text \<open>Recording a completion: it never panics, and when it succeeds the status is the new one.\<close>

lemma completed_calm: "TerminalState st \<Longrightarrow> calm (alive bid) (dl_SetBuildAsCompleted dl c bid st)"
  unfolding calm_def store_alive_def using completed_step by (metis prod.collapse)

lemma completed_alive:
  assumes st: "TerminalState st"
  shows "keeps (alive bid) (dl_SetBuildAsCompleted dl c bid st)"
  unfolding keeps_def store_alive_def
proof (intro allI impI)
  fix s
  assume s: "inv s \<and> healthy s \<and> view s bid \<noteq> None"
  obtain s' r where e: "dl_SetBuildAsCompleted dl c bid st s = (s', r)" by fastforce
  from completed_step [OF _ st e] s completed_healthy [OF _ st e]
  show "inv (fst (dl_SetBuildAsCompleted dl c bid st s))
      \<and> healthy (fst (dl_SetBuildAsCompleted dl c bid st s))
      \<and> view (fst (dl_SetBuildAsCompleted dl c bid st s)) bid \<noteq> None"
    by (auto simp: e set_status_apply)
qed

lemma completed_sets:
  assumes "TerminalState st" "alive bid s" "dl_SetBuildAsCompleted dl c bid st s = (s', Ok ())"
  shows "at bid st s'"
proof -
  from assms have "view s' = set_status (view s) bid st" by (auto simp: store_alive_def dest: completed_ok)
  moreover have "alive bid s'" using keepsD [OF completed_alive [OF assms(1)] assms(2,3)] .
  ultimately show ?thesis using assms(2) by (auto simp: store_at_def store_alive_def)
qed

lemma completed_at:
  assumes "TerminalState st" "alive bid s" "dl_SetBuildAsCompleted dl Active bid st s = (s', r)"
  shows "r = Ok () \<and> at bid st s'"
  using completed_terminal [of s st bid s' r] assms
  by (auto simp: store_at_def store_alive_def status_of_def)

end

text \<open>The parts of the body, for any predicate the calls keep.\<close>

lemma getContextSubdir_ok: "parts_ok Q os brun tc ff \<Longrightarrow> acts_ok Q (getContextSubdir os p)"
  unfolding getContextSubdir_def acts_ok_def
  by (auto simp: parts_ok_def acts_ok_def intro!: keeps_bind calm_bind)

lemma check_repos_ok:
  assumes "parts_ok Q os brun tc ff" "after_ok Q os sched"
    and "\<And>c e. keeps Q (dl_AddEvent dl c bid e)"
  shows "acts_ok (\<lambda>r. Q (rs_s r)) (check_repos dl bid sched tc tags repos)"
proof (induction repos)
  case Nil
  show ?case by (simp add: acts_ok_def)
next
  case (Cons irepo rest)
  have "keeps Q (tc tags irepo)" "calm Q (tc tags irepo)"
    using assms(1) by (auto simp: parts_ok_def acts_ok_def)
  with Cons show ?case
    by (auto simp: acts_ok_def call0_def intro!: keeps_bind calm_bind
        call2_keeps [OF assms(2,3)] call2_calm [OF assms(2,3)])
qed

context reliable_layer
begin

abbreviation (input) aliveR :: "uuid \<Rightarrow> 's rs \<Rightarrow> bool" where
  "aliveR bid r \<equiv> alive bid (rs_s r)"

lemma call2_alive:
  assumes "after_ok (alive bid) os sched" "\<And>c. acts_ok (alive bid) (f c)"
  shows "acts_ok (aliveR bid) (call2 dl bid sched f)"
  using assms(2) unfolding acts_ok_def
  by (intro conjI call2_keeps [OF assms(1) event_alive] call2_calm [OF assms(1) event_alive]) auto

lemma event_acts: "acts_ok (alive bid) (dl_AddEvent dl c bid e)"
  by (simp add: acts_ok_def event_alive event_calm)

lemma completed_acts: "TerminalState st \<Longrightarrow> acts_ok (alive bid) (dl_SetBuildAsCompleted dl c bid st)"
  by (simp add: acts_ok_def completed_alive completed_calm)

lemma call_event:
  "after_ok (alive bid) os sched \<Longrightarrow>
     acts_ok (aliveR bid) (call2 dl bid sched (\<lambda>c. dl_AddEvent dl c bid e))"
  by (intro call2_alive event_acts)

lemma call_completed:
  "after_ok (alive bid) os sched \<Longrightarrow> TerminalState st \<Longrightarrow>
     acts_ok (aliveR bid) (call2 dl bid sched (\<lambda>c. dl_SetBuildAsCompleted dl c bid st))"
  by (intro call2_alive completed_acts)

lemma skip_check_alive:
  assumes w: "world_ok bid sched os brun tc ff" and "b_ID b = bid"
    and "rq_SkipIfExists (b_Request b) \<longrightarrow> rq_Build (b_Request b) \<noteq> None"
  shows "acts_ok (aliveR bid) (skip_check dl bid sched tc b csha)"
proof -
  from w have p: "parts_ok (alive bid) os brun tc ff" and a: "after_ok (alive bid) os sched"
    by (auto simp: run_world_def)
  note calls = check_repos_ok [OF p a event_alive] call_event [OF a] call_completed [OF a]
  show ?thesis
    using assms(3) unfolding skip_check_def assms(2)
    by (auto simp: Let_def split: option.splits intro!: acts_bind acts_wrap acts_ignore calls)
qed

lemma skip_check_skipped:
  assumes w: "world_ok bid sched os brun tc ff" and "b_ID b = bid" "aliveR bid r"
    and "skip_check dl bid sched tc b csha r = (r', Ok True)"
  shows "at bid BuildStatusSkipped (rs_s r')"
proof -
  from w have p: "parts_ok (alive bid) os brun tc ff" and a: "after_ok (alive bid) os sched"
    by (auto simp: run_world_def)
  obtain tags r1 r2 e where 1: "check_repos dl bid sched tc tags (b_ImageRepos b) r = (r1, Ok True)"
    and 2: "ignore (call2 dl bid sched (\<lambda>c. dl_AddEvent dl c bid e)) r1 = (r2, Ok ())"
    and 3: "call2 dl bid sched (\<lambda>c. dl_SetBuildAsCompleted dl c bid BuildStatusSkipped) r2 = (r', Ok ())"
    using assms(4)
    by (auto simp: skip_check_def assms(2) Let_def bind_act_Ok split: option.splits if_splits)
  have "aliveR bid r1" by (rule acts_keepsD [OF check_repos_ok [OF p a event_alive] assms(3) 1])
  then have "aliveR bid r2" by (rule acts_keepsD [OF acts_ignore [OF call_event [OF a]] _ 2])
  from call2_post [OF a event_alive this 3] obtain c s
    where "alive bid s" "dl_SetBuildAsCompleted dl c bid BuildStatusSkipped s = (rs_s r', Ok ())" by blast
  then show ?thesis by (intro completed_sets) auto
qed

lemma build_in_alive:
  assumes w: "world_ok bid sched os brun tc ff" and "b_ID b = bid"
  shows "acts_ok (aliveR bid) (build_in os dl bid sched brun (ff tkn) b opts tdir)"
proof -
  from w have p: "parts_ok (alive bid) os brun tc ff" and a: "after_ok (alive bid) os sched"
    by (auto simp: run_world_def)
  have calls: "acts_ok (aliveR bid) (call2 dl bid sched (\<lambda>c. cf_Fetch (ff tkn) c repo ref tdir))"
    "acts_ok (aliveR bid) (call0 dl bid sched (getContextSubdir os tdir))"
    "acts_ok (aliveR bid) (call2 dl bid sched (\<lambda>c. brun c o'))"
    "acts_ok (aliveR bid) (call2 dl bid sched (\<lambda>c. dl_SetBuildAsCompleted dl c bid BuildStatusSuccess))"
    for repo ref o'
    using p getContextSubdir_ok [OF p] completed_acts [of BuildStatusSuccess bid]
    unfolding call0_def by (auto simp: parts_ok_def intro!: call2_alive [OF a])
  then show ?thesis
    unfolding build_in_def assms(2) Let_def by (intro acts_bind acts_wrap)
qed

lemma build_in_success:
  assumes w: "world_ok bid sched os brun tc ff" and "b_ID b = bid" "aliveR bid r"
    and "build_in os dl bid sched brun (ff tkn) b opts tdir r = (r', Ok ())"
  shows "at bid BuildStatusSuccess (rs_s r')"
proof -
  from w have p: "parts_ok (alive bid) os brun tc ff" and a: "after_ok (alive bid) os sched"
    by (auto simp: run_world_def)
  obtain repo ref o' r1 r2 r3 sub where
    1: "call2 dl bid sched (\<lambda>c. cf_Fetch (ff tkn) c repo ref tdir) r = (r1, Ok ())"
    and 2: "call2 dl bid sched (\<lambda>_. getContextSubdir os tdir) r1 = (r2, Ok sub)"
    and 3: "call2 dl bid sched (\<lambda>c. brun c o') r2 = (r3, Ok ())"
    and 4: "call2 dl bid sched (\<lambda>c. dl_SetBuildAsCompleted dl c bid BuildStatusSuccess) r3 = (r', Ok ())"
    using assms(4) by (auto simp: build_in_def assms(2) Let_def bind_act_Ok call0_def)
  have k: "keeps (alive bid) (cf_Fetch (ff tkn) c repo ref tdir)"
    "keeps (alive bid) (getContextSubdir os tdir)" "keeps (alive bid) (brun c o')" for c
    using p getContextSubdir_ok [OF p] by (auto simp: parts_ok_def acts_ok_def)
  have "aliveR bid r1" using keepsD [OF call2_keeps [OF a event_alive k(1)] assms(3) 1] .
  then have "aliveR bid r2" using keepsD [OF call2_keeps [OF a event_alive k(2)] _ 2] by blast
  then have "aliveR bid r3" using keepsD [OF call2_keeps [OF a event_alive k(3)] _ 3] by blast
  from call2_post [OF a event_alive this 4] obtain c s
    where "alive bid s" "dl_SetBuildAsCompleted dl c bid BuildStatusSuccess s = (rs_s r', Ok ())" by blast
  then show ?thesis by (intro completed_sets) auto
qed

lemma with_tempdir_ok:
  assumes w: "world_ok bid sched os brun tc ff"
    and f: "\<And>tdir. acts_ok (aliveR bid) (f tdir)"
  shows "acts_ok (aliveR bid) (with_tempdir os dl bid sched f)"
proof -
  from w have p: "parts_ok (alive bid) os brun tc ff" and a: "after_ok (alive bid) os sched"
    by (auto simp: run_world_def)
  have t: "acts_ok (aliveR bid) (call0 dl bid sched (os_TempDir os))"
    using p unfolding call0_def by (intro call2_alive [OF a]) (simp add: parts_ok_def)
  have rm: "acts_ok (aliveR bid) (call0 dl bid sched (os_RemoveAll os d))" for d
    using a unfolding call0_def by (intro call2_alive [OF a]) (simp add: after_ok_def)
  have "acts_ok (aliveR bid) (\<lambda>r. case f d r of (r1, x) \<Rightarrow> (fst (call0 dl bid sched (os_RemoveAll os d) r1), x))"
    for d
    using f [of d] rm [of d] by (fastforce simp: acts_ok_def keeps_def calm_def split: prod.splits)
  with t show ?thesis unfolding with_tempdir_def by (intro acts_bind acts_wrap)
qed

lemma with_tempdir_at:
  assumes w: "world_ok bid sched os brun tc ff" and st: "TerminalState st" and "aliveR bid r"
    and f: "\<And>tdir r r'. aliveR bid r \<Longrightarrow> f tdir r = (r', Ok ()) \<Longrightarrow> at bid st (rs_s r')"
    and run: "with_tempdir os dl bid sched f r = (r', Ok ())"
  shows "at bid st (rs_s r')"
proof -
  from w have p: "parts_ok (alive bid) os brun tc ff" and a: "after_ok (alive bid) os sched"
    and t: "after_ok (at bid st) os sched" using st by (auto simp: run_world_def)
  from run obtain tdir r1 where 1: "call0 dl bid sched (os_TempDir os) r = (r1, Ok tdir)"
    and rest: "(case f tdir r1 of (r2, x) \<Rightarrow>
        (fst (call0 dl bid sched (os_RemoveAll os tdir) r2), x)) = (r', Ok ())"
    by (auto simp: with_tempdir_def bind_act_Ok)
  obtain r2 x where fr: "f tdir r1 = (r2, x)" by fastforce
  with rest have 2: "f tdir r1 = (r2, Ok ())"
    and r': "r' = fst (call0 dl bid sched (os_RemoveAll os tdir) r2)" by auto
  have "acts_ok (aliveR bid) (call0 dl bid sched (os_TempDir os))"
    using p unfolding call0_def by (intro call2_alive [OF a]) (simp add: parts_ok_def)
  from acts_keepsD [OF this assms(3) 1] have "at bid st (rs_s r2)" using f 2 by blast
  moreover have "keeps (\<lambda>r. at bid st (rs_s r)) (call0 dl bid sched (os_RemoveAll os tdir))"
    using t unfolding call0_def
    by (intro call2_keeps [OF t event_at]) (simp add: after_ok_def acts_ok_def)
  ultimately show ?thesis by (simp add: r' keeps_def)
qed

text \<open>The body of a run never panics, and when it returns no error the build is completed.\<close>

lemma run_body_ok:
  assumes w: "world_ok bid sched os brun tc ff" and "b_ID b = bid"
    and "24 \<le> length (b_EncryptedGitHubCredential b)"
    and "rq_SkipIfExists (b_Request b) \<longrightarrow> rq_Build (b_Request b) \<noteq> None"
  shows "acts_ok (aliveR bid) (run_body open_box os dl bid sched brun tc ff key b)"
proof -
  from w have p: "parts_ok (alive bid) os brun tc ff" and a: "after_ok (alive bid) os sched"
    by (auto simp: run_world_def)
  have cred: "acts_ok (aliveR bid) (ret_act (GetGitHubCredential open_box b key))"
    using assms(3) by (cases "GetGitHubCredential open_box b key")
      (auto simp: GetGitHubCredential_def Let_def split: option.splits if_splits)
  have sha: "acts_ok (aliveR bid) (call2 dl bid sched (\<lambda>c. cf_GetCommitSHA (ff tkn) c repo ref))"
    for tkn repo ref
    using p by (intro call2_alive [OF a]) (simp add: parts_ok_def)
  note parts = cred sha skip_check_alive [OF w assms(2,4)] with_tempdir_ok [OF w]
    build_in_alive [OF w assms(2)]
  show ?thesis
    unfolding run_body_def
    by (intro acts_bind acts_wrap parts) (auto intro!: parts)
qed

lemma run_body_completed:
  assumes w: "world_ok bid sched os brun tc ff" and "b_ID b = bid" "aliveR bid r"
    and "rq_SkipIfExists (b_Request b) \<longrightarrow> rq_Build (b_Request b) \<noteq> None"
    and run: "run_body open_box os dl bid sched brun tc ff key b r = (r', Ok ())"
  shows "at bid BuildStatusSuccess (rs_s r') \<or> at bid BuildStatusSkipped (rs_s r')"
proof -
  from w have p: "parts_ok (alive bid) os brun tc ff" and a: "after_ok (alive bid) os sched"
    by (auto simp: run_world_def)
  from run obtain tkn csha r1 r2 skipped opts where
    1: "call2 dl bid sched (\<lambda>c. cf_GetCommitSHA (ff tkn) c (b_GitHubRepo b) (b_GitHubRef b)) r = (r1, Ok csha)"
    and 2: "skip_check dl bid sched tc b csha r1 = (r2, Ok skipped)"
    and 3: "if skipped then r' = r2 else with_tempdir os dl bid sched
              (build_in os dl bid sched brun (ff tkn) b opts) r2 = (r', Ok ())"
    by (auto simp: run_body_def bind_act_Ok split: if_splits)
  have "acts_ok (aliveR bid) (call2 dl bid sched (\<lambda>c. cf_GetCommitSHA (ff tkn) c (b_GitHubRepo b) (b_GitHubRef b)))"
    using p by (intro call2_alive [OF a]) (simp add: parts_ok_def)
  from acts_keepsD [OF this assms(3) 1] have a1: "aliveR bid r1" .
  from acts_keepsD [OF skip_check_alive [OF w assms(2,4)] a1 2] have a2: "aliveR bid r2" .
  show ?thesis
  proof (cases skipped)
    case True
    with skip_check_skipped [OF w assms(2) a1] 2 3 show ?thesis by auto
  next
    case False
    with 3 have "with_tempdir os dl bid sched (build_in os dl bid sched brun (ff tkn) b opts) r2
        = (r', Ok ())" by simp
    from with_tempdir_at [OF w _ a2 build_in_success [OF w assms(2)] this] show ?thesis by simp
  qed
qed

lemma mark_completed_at:
  assumes w: "world_ok bid sched os brun tc ff" and "b_ID b = bid" "aliveR bid r"
  shows "at bid BuildStatusFailure (rs_s (mark_completed dl bid sched b (Err e) r))
    \<or> at bid BuildStatusCancelled (rs_s (mark_completed dl bid sched b (Err e) r))"
proof -
  from w have a: "after_ok (alive bid) os sched" by (auto simp: run_world_def)
  define r1 where "r1 = tick dl bid sched r"
  define st where "st = (if rs_cancelled r1 then BuildStatusCancelled else BuildStatusFailure)"
  define msg where "msg = (if rs_cancelled r1 then ''build was cancelled''
    else ''error running build: '' @ errstr e)"
  obtain r2 x2 where 2: "call0 dl bid sched (dl_AddEvent dl Active bid msg) r1 = (r2, x2)" by fastforce
  obtain r3 x3 where 3: "call0 dl bid sched (dl_SetBuildAsCompleted dl Active bid st) r2 = (r3, x3)"
    by fastforce
  have eq: "mark_completed dl bid sched b (Err e) r = r3"
    using 2 3 by (simp add: mark_completed_def Let_def assms(2) r1_def st_def msg_def)
  have "aliveR bid r1" unfolding r1_def by (rule tick_keeps [OF a event_alive assms(3)])
  then have "aliveR bid r2"
    using keepsD [OF call2_keeps [OF a event_alive event_alive] _ 2 [unfolded call0_def]] by blast
  from call2_post [OF a event_alive this 3 [unfolded call0_def]] obtain s
    where "alive bid s" "dl_SetBuildAsCompleted dl Active bid st s = (rs_s r3, x3)" by blast
  then have "at bid st (rs_s r3)" by (intro conjunct2 [OF completed_at]) (auto simp: st_def)
  then show ?thesis by (auto simp: eq st_def split: if_splits)
qed

lemma kill_first_ok: "after_ok Q os sched \<Longrightarrow> acts_ok Q (kill_first os ps)"
  by (induction os ps rule: kill_first.induct) (auto simp: after_ok_def)

lemma kill_deferred_keeps:
  assumes "after_ok Q os sched" "\<And>c e. keeps Q (dl_AddEvent dl c bid e)" "Q (rs_s r)"
  shows "Q (rs_s (kill_deferred os dl bid sched r))"
proof -
  have "acts_ok Q (killbuildkitd os)"
    unfolding killbuildkitd_def using assms(1) kill_first_ok [OF assms(1)]
    by (intro acts_bind acts_wrap) (auto simp: after_ok_def)
  then have k: "keeps Q (killbuildkitd os)" by (simp add: acts_ok_def)
  obtain r1 x where 1: "call0 dl bid sched (killbuildkitd os) r = (r1, x)" by fastforce
  have q1: "Q (rs_s r1)"
    using keepsD [OF call2_keeps [OF assms(1,2) k] assms(3) 1 [unfolded call0_def]] .
  have "Q (rs_s (fst (call0 dl bid sched (dl_AddEvent dl Active bid e) r1)))" for e
    using call2_keeps [OF assms(1,2) assms(2), of "\<lambda>_. Active"] q1 by (simp add: keeps_def call0_def)
  with q1 1 show ?thesis by (cases x) (auto simp: kill_deferred_def)
qed

lemma run_handoff_ends:
  assumes w: "world_ok bid sched os brun tc ff" and "b_ID b = bid" "aliveR bid r"
    and "24 \<le> length (b_EncryptedGitHubCredential b)"
    and "rq_SkipIfExists (b_Request b) \<longrightarrow> rq_Build (b_Request b) \<noteq> None"
    and run: "run_handoff open_box os dl bid sched brun tc ff key b r = (r', res)"
  shows "((\<exists>e. res = Err (Wrapf ''error setting build status to running: '' e)) \<and> aliveR bid r')
    \<or> (res = Ok () \<and> (at bid BuildStatusSuccess (rs_s r') \<or> at bid BuildStatusSkipped (rs_s r')))
    \<or> ((\<exists>e. res = Err e) \<and> (at bid BuildStatusFailure (rs_s r') \<or> at bid BuildStatusCancelled (rs_s r')))"
proof -
  from w have a: "after_ok (alive bid) os sched" by (auto simp: run_world_def)
  obtain r1 x where 1: "call2 dl bid sched (\<lambda>c. dl_SetBuildAsRunning dl c bid) r = (r1, x)" by fastforce
  have a1: "aliveR bid r1" by (rule keepsD [OF call2_keeps [OF a event_alive running_alive(1)] assms(3) 1])
  have np: "x \<noteq> Panic p" for p
    by (rule calmD [OF call2_calm [OF a event_alive running_alive(2)] assms(3) 1])
  let ?r1 = "r1\<lparr>rs_listener := LWaiting\<rparr>"
  obtain r2 res2 where 2: "run_body open_box os dl bid sched brun tc ff key b ?r1 = (r2, res2)" by fastforce
  have a1': "aliveR bid ?r1" using a1 by simp
  note body = run_body_ok [OF w assms(2,4,5)]
  have a2: "aliveR bid r2" by (rule acts_keepsD [OF body a1' 2])
  have np2: "res2 \<noteq> Panic p" for p using body a1' 2 unfolding acts_ok_def by (blast dest: calmD)
  show ?thesis
  proof (cases x)
    case (Ok u)
    with run 1 2 assms(2)
    have r': "r' = (mark_completed dl bid sched b res2 r2)\<lparr>rs_ctx2 := Done\<rparr>" "res = res2"
      by (auto simp: run_handoff_def)
    show ?thesis
    proof (cases res2)
      case Ok2: (Ok u2)
      with run_body_completed [OF w assms(2) a1' assms(5)] 2 r' show ?thesis
        by (simp add: mark_completed_def)
    next
      case (Err e)
      with mark_completed_at [OF w assms(2) a2, of e] r' show ?thesis by auto
    qed (use np2 in blast)
  qed (use run 1 np a1 assms(2) in \<open>auto simp: run_handoff_def\<close>)
qed

theorem Run_ends:
  assumes m: "m_BRunner m = Some brun" "m_TCheck m = Some tc" "m_FetcherFactory m = Some ff"
      "m_DL m = Some dl"
    and w: "world_ok bid sched os brun tc ff"
    and s: "inv s" "healthy s" "view s bid = Some b" "b_Status b = BuildStatusNotStarted"
    and b: "24 \<le> length (b_EncryptedGitHubCredential b)"
      "rq_SkipIfExists (b_Request b) \<longrightarrow> rq_Build (b_Request b) \<noteq> None"
    and run: "Run open_box os m sched Active bid s = (s', res)"
  shows "alive bid s' \<and> ((\<exists>e. res = Err (Wrapf ''error setting build status to running: '' e))
    \<or> (res = Ok () \<and> status_of (view s') bid \<in> {Some BuildStatusSuccess, Some BuildStatusSkipped})
    \<or> ((\<exists>e. res = Err e)
        \<and> status_of (view s') bid \<in> {Some BuildStatusFailure, Some BuildStatusCancelled}))"
proof -
  from get_found [OF s(1-3)] obtain s1 b1 where g: "dl_GetBuildByID dl Active bid s = (s1, Ok b1)" "healthy s1"
    by blast
  from get_step [OF s(1) g(1)] s(3) have s1: "inv s1" "view s1 = view s" and e: "erase b1 = b" and i: "b_ID b1 = bid"
    by auto
  have al: "alive bid s1" using s1 g(2) s(3) by (simp add: store_alive_def)
  have b1: "b_Status b1 = BuildStatusNotStarted" "24 \<le> length (b_EncryptedGitHubCredential b1)"
    "rq_SkipIfExists (b_Request b1) \<longrightarrow> rq_Build (b_Request b1) \<noteq> None"
    using e s(4) b by auto
  let ?r0 = "\<lparr>rs_s = s1, rs_ctx2 = Active, rs_cancelled = False, rs_listener = LNotStarted,
      rs_sigwait = True, rs_point = 0\<rparr>"
  obtain r res2 where h: "run_handoff open_box os dl bid sched brun tc ff (m_GitHubTokenKey m) b1 ?r0 = (r, res2)"
    by fastforce
  from run g(1) h b1(1) have s': "s' = rs_s (kill_deferred os dl bid sched r)" "res = res2"
    by (auto simp: Run_def m Let_def)
  have after: "at bid st (rs_s r) \<Longrightarrow> TerminalState st \<Longrightarrow> status_of (view s') bid = Some st" for st
    using kill_deferred_keeps [of "at bid st" os sched bid r] event_at w
    unfolding s'(1) run_world_def by (simp add: store_at_def)
  have "alive bid s'" if "aliveR bid r"
    using kill_deferred_keeps [of "alive bid" os sched bid r] event_alive w that
    unfolding s'(1) run_world_def by blast
  moreover have "at bid st (rs_s r) \<Longrightarrow> aliveR bid r" for st by (simp add: store_at_def)
  moreover have "aliveR bid ?r0" using al by simp
  ultimately show ?thesis using run_handoff_ends [OF w i _ b1(2,3) h] after unfolding s'(2) by auto
qed

end

text \<open>
  A run asks its code fetcher about the repository of its build only, so that what a fetcher does with
  other repositories does not matter (GitHub's fetcher panics on a name without a slash).
\<close>

definition only_for :: "string \<Rightarrow> (string \<Rightarrow> 's CodeFetcher) \<Rightarrow> string \<Rightarrow> 's CodeFetcher" where
  "only_for repo ff tkn =
     \<lparr>cf_GetCommitSHA = (\<lambda>c r ref. if r = repo then cf_GetCommitSHA (ff tkn) c r ref else ret_act (Err ErrNotFound)),
      cf_Fetch = (\<lambda>c r ref d. if r = repo then cf_Fetch (ff tkn) c r ref d else ret_act (Err ErrNotFound))\<rparr>"

lemma build_in_only_for:
  "build_in os dl bid sched brun (only_for (b_GitHubRepo b) ff tkn) b opts = build_in os dl bid sched brun (ff tkn) b opts"
  by (rule ext) (simp add: build_in_def only_for_def)

lemma run_body_only_for:
  "run_body open_box os dl bid sched brun tc (only_for (b_GitHubRepo b) ff) key b
     = run_body open_box os dl bid sched brun tc ff key b"
  unfolding run_body_def build_in_only_for by (simp add: only_for_def)

lemma Run_only_for:
  assumes "m_BRunner m = Some brun" "m_TCheck m = Some tc" "m_FetcherFactory m = Some ff" "m_DL m = Some dl"
    and "\<And>s1 b1. dl_GetBuildByID dl c bid s = (s1, Ok b1) \<Longrightarrow> b_GitHubRepo b1 = repo"
  shows "Run open_box os (m\<lparr>m_FetcherFactory := Some (only_for repo ff)\<rparr>) sched c bid s = Run open_box os m sched c bid s"
proof -
  have "run_handoff open_box os dl bid sched brun tc (only_for repo ff) key b r
      = run_handoff open_box os dl bid sched brun tc ff key b r" if "b_GitHubRepo b = repo" for key b r
    unfolding run_handoff_def that [symmetric] run_body_only_for ..
  then show ?thesis using assms
    by (cases "dl_GetBuildByID dl c bid s"; cases "snd (dl_GetBuildByID dl c bid s)") (simp_all add: Run_def Let_def)
qed

lemma run_world_only_for:
  "run_world view Inv healthy bid sched os brun tc ff \<Longrightarrow> run_world view Inv healthy bid sched os brun tc (only_for repo ff)"
  by (auto simp: run_world_def parts_ok_def only_for_def acts_ok_def keeps_def calm_def ret_act_def)

context reliable_layer
begin

text \<open>How a run ends, with a fetcher that need only work for the build's repository.\<close>

lemma Run_only_for_build:
  assumes "m_BRunner m = Some brun" "m_TCheck m = Some tc" "m_FetcherFactory m = Some ff" "m_DL m = Some dl"
    and "inv s" "view s bid = Some b"
  shows "Run open_box os (m\<lparr>m_FetcherFactory := Some (only_for (b_GitHubRepo b) ff)\<rparr>) sched c bid s
    = Run open_box os m sched c bid s"
proof (rule Run_only_for [OF assms(1-4)])
  fix s1 b1
  assume "dl_GetBuildByID dl c bid s = (s1, Ok b1)"
  from get_step [OF assms(5) this] assms(6) show "b_GitHubRepo b1 = b_GitHubRepo b" by (auto simp: erase_def)
qed

theorem Run_ends_repo:
  assumes m: "m_BRunner m = Some brun" "m_TCheck m = Some tc" "m_FetcherFactory m = Some ff"
      "m_DL m = Some dl"
    and w: "world_ok bid sched os brun tc (only_for (b_GitHubRepo b) ff)"
    and s: "inv s" "healthy s" "view s bid = Some b" "b_Status b = BuildStatusNotStarted"
    and b: "24 \<le> length (b_EncryptedGitHubCredential b)"
      "rq_SkipIfExists (b_Request b) \<longrightarrow> rq_Build (b_Request b) \<noteq> None"
    and run: "Run open_box os m sched Active bid s = (s', res)"
  shows "alive bid s' \<and> ((\<exists>e. res = Err (Wrapf ''error setting build status to running: '' e))
    \<or> (res = Ok () \<and> status_of (view s') bid \<in> {Some BuildStatusSuccess, Some BuildStatusSkipped})
    \<or> ((\<exists>e. res = Err e)
        \<and> status_of (view s') bid \<in> {Some BuildStatusFailure, Some BuildStatusCancelled}))"
  by (rule Run_ends [where open_box = open_box and m = "m\<lparr>m_FetcherFactory := Some (only_for (b_GitHubRepo b) ff)\<rparr>", OF _ _ _ _ w s b])
    (simp_all add: m run Run_only_for_build [OF m s(1,3)])

text \<open>A build that was attempted before is refused, and its status stays.\<close>

lemma Run_refused:
  assumes m: "m_BRunner m = Some brun" "m_TCheck m = Some tc" "m_FetcherFactory m = Some ff"
      "m_DL m = Some dl"
    and "after_ok (at bid st) os sched" "at bid st s" "st \<noteq> BuildStatusNotStarted"
    and run: "Run open_box os m sched Active bid s = (s', res)"
  shows "(\<exists>msg. res = Err (ErrMsg msg)) \<and> at bid st s'"
proof -
  from assms(6) obtain b where s: "inv s" "healthy s" "view s bid = Some b" "b_Status b = st"
    by (auto simp: store_at_def store_alive_def status_of_def)
  from get_found [OF s(1-3)] obtain s1 b1 where g: "dl_GetBuildByID dl Active bid s = (s1, Ok b1)" "healthy s1"
    by blast
  from get_step [OF s(1) g(1)] s(3,4) have s1: "inv s1" "view s1 = view s" and st: "b_Status b1 = st" by auto
  have "at bid st s1" using assms(6) s1 g(2) by (simp add: store_at_def store_alive_def)
  moreover obtain r where s': "s' = rs_s (kill_deferred os dl bid sched r)" "rs_s r = s1"
    and res: "\<exists>msg. res = Err (ErrMsg msg)"
    using run g(1) st assms(7) by (auto simp: Run_def m Let_def)
  ultimately show ?thesis using kill_deferred_keeps [OF assms(5) event_at, of r] by simp
qed

text \<open>
  A credential that is too short for a nonce makes the run panic after the build was set to
  running, and the completion is not recorded.
\<close>

lemma Run_short_credential:
  assumes m: "m_BRunner m = Some brun" "m_TCheck m = Some tc" "m_FetcherFactory m = Some ff"
      "m_DL m = Some dl"
    and a: "after_ok (at bid BuildStatusRunning) os (\<lambda>_. [])"
    and s: "inv s" "healthy s" "view s bid = Some b" "b_Status b = BuildStatusNotStarted"
    and short: "length (b_EncryptedGitHubCredential b) < 24"
    and run: "Run open_box os m (\<lambda>_. []) Active bid s = (s', res)"
  shows "(\<exists>p. res = Panic p) \<and> at bid BuildStatusRunning s'"
proof -
  from get_found [OF s(1-3)] obtain s1 b1 where g: "dl_GetBuildByID dl Active bid s = (s1, Ok b1)" "healthy s1"
    by blast
  from get_step [OF s(1) g(1)] s(3) have s1: "inv s1" "view s1 = view s" and e: "erase b1 = b" and i: "b_ID b1 = bid"
    by auto
  have b1: "b_Status b1 = BuildStatusNotStarted" "length (b_EncryptedGitHubCredential b1) < 24"
    using e s(4) short by auto
  from running_works [OF s1(1) g(2), of bid] obtain s2 where r: "dl_SetBuildAsRunning dl Active bid s1 = (s2, Ok ())" "healthy s2"
    by blast
  have at2: "at bid BuildStatusRunning s2"
    using running_step [OF s1(1) r(1)] running_ok [OF s1(1) r(1)] r(2) s1(2) s(3)
    by (simp add: store_at_def store_alive_def set_status_apply status_of_def)
  define r0 :: "'s rs" where "r0 = \<lparr>rs_s = s1, rs_ctx2 = Active, rs_cancelled = False, rs_listener = LNotStarted,
      rs_sigwait = True, rs_point = 0\<rparr>"
  obtain r2 where h: "run_handoff open_box os dl bid (\<lambda>_. []) brun tc ff (m_GitHubTokenKey m) b1 r0 =
      (r2, Panic ''slice bounds out of range'')" "rs_s r2 = s2"
    using r(1) b1(2)
    by (simp add: run_handoff_def call2_def tick_def r0_def i run_body_def bind_act_def wrap_act_def ret_act_def
        GetGitHubCredential_def Let_def mark_completed_def)
  from run g(1) h(1) b1(1) have s': "s' = rs_s (kill_deferred os dl bid (\<lambda>_. []) r2)" "\<exists>p. res = Panic p"
    by (auto simp: Run_def m Let_def r0_def)
  with kill_deferred_keeps [OF a event_at, of r2] at2 h(2) show ?thesis by simp
qed

end

section \<open>The check for existing images\<close>

lemma call2_Ok: "call2 dl bid sched f r = (r', x) \<Longrightarrow> \<exists>c s s'. f c s = (s', x)"
  by (auto simp: call2_def Let_def split: prod.splits)

lemma call0_Ok: "call0 dl bid sched f r = (r', x) \<Longrightarrow> \<exists>s s'. f s = (s', x)"
  unfolding call0_def by (blast dest: call2_Ok)

lemma check_repos_exact:
  assumes "\<And>repo s s' ex m. tc tags repo s = (s', Ok (ex, m)) \<Longrightarrow> ex = present repo"
    and "check_repos dl bid sched tc tags repos r = (r', Ok b)"
  shows "b \<longleftrightarrow> list_all present repos"
  using assms(2)
proof (induction repos arbitrary: r)
  case (Cons repo repos)
  from Cons.prems obtain r1 ex m where c: "call0 dl bid sched (tc tags repo) r = (r1, Ok (ex, m))"
    and rest: "(if ex then check_repos dl bid sched tc tags repos else ret_act (Ok False)) r1 = (r', Ok b)"
    by (auto simp: bind_act_Ok wrap_act_Ok)
  have "ex = present repo" using call0_Ok [OF c] assms(1) by blast
  with rest Cons.IH [of r1] show ?case by (cases ex) (auto simp: ret_act_def)
qed (simp add: ret_act_def)

end
