(* ===== verification/Furan_Grpc.thy ===== *)
theory Furan_Grpc
  imports Furan_Builder
begin

text \<open>
  \<^verbatim>\<open>pkg/grpc/grpc.go\<close>: the RPC handlers of the server, the authentication of calls by API key, and
  the asynchronous start of the build job; \<^verbatim>\<open>pkg/grpc/streamadapter.go\<close>; \<^verbatim>\<open>pkg/jsonapi/jsonapi.go\<close>.

  The data layer, the code fetcher and the build manager are the interfaces of \<open>Furan_Datalayer\<close> and
  \<open>Furan_Builder\<close>.  Quantities of resources are parsed by a library of Kubernetes, the record
  \<open>quantity_lib\<close>.  What goes to the log is left out.
\<close>

section \<open>The server\<close>

record 'q quantity_lib =
  ql_Parse :: "string \<Rightarrow> 'q go"
  ql_Value :: "'q \<Rightarrow> int"
  ql_String :: "'q \<Rightarrow> string"

record 'q MaxResourceLimits =
  mx_MaxCPUReq :: 'q
  mx_MaxMemReq :: 'q
  mx_MaxCPULim :: 'q
  mx_MaxMemLim :: 'q

record ('s, 'q) Server =
  gr_DL :: "'s DataLayer"
  gr_Start :: "ctx \<Rightarrow> BuildOpts \<Rightarrow> ('s, unit) act"
  gr_CFFactory :: "string \<Rightarrow> 's CodeFetcher"
  gr_CredentialDecryptionKey :: string
  gr_Cache :: BuildCacheOpts
  gr_JobHandoffTimeout :: int
  gr_MaxResources :: "'q MaxResourceLimits"
  gr_methods :: "(string \<times> bool) list option"

definition DefaultCacheOpts :: BuildCacheOpts where
  "DefaultCacheOpts = \<lparr>co_Type = BuildCacheOpts_DISABLED, co_MaxMode = False\<rparr>"

definition DefaultJobHandoffTimeout :: int where
  "DefaultJobHandoffTimeout = 5 * 60 * 10 ^ 9"

section \<open>Methods and authentication\<close>

definition serviceName :: string where
  "serviceName = ''furanrpc.FuranExecutor''"

text \<open>
  \<^verbatim>\<open>methodsFromFuranService\<close> after the descriptors were loaded: a service is its name and its
  methods, each with its \<^verbatim>\<open>read_only\<close> option as \<^verbatim>\<open>proto.GetExtension\<close> returns it.
\<close>

fun method_table :: "string \<Rightarrow> (string \<times> bool option go) list \<Rightarrow> (string \<times> bool) list go" where
  "method_table sn [] = Ok []"
| "method_table sn ((name, ro) # ms) =
     (case ro of
        Err e \<Rightarrow> Err (Wrapf ''error getting read only method option: '' e)
      | Panic p \<Rightarrow> Panic p
      | Ok None \<Rightarrow> Err (ErrMsg (''read_only option is nil: '' @ name))
      | Ok (Some readonly) \<Rightarrow>
          bind_go (method_table sn ms) (\<lambda>rest. Ok ((''/'' @ sn @ ''/'' @ name, readonly) # rest)))"

definition methodsFromFuranService ::
  "(string \<times> (string \<times> bool option go) list) list go \<Rightarrow> (string \<times> bool) list go" where
  "methodsFromFuranService loaded =
     (case loaded of
        Err e \<Rightarrow> Err (Wrapf ''error loading grpc service descriptors: '' e)
      | Panic p \<Rightarrow> Panic p
      | Ok sds \<Rightarrow>
          if length sds \<noteq> 1 then
            Err (ErrMsg (''unexpected number of grpc services: '' @ itoa (int (length sds)) @ '' (wanted 1)''))
          else (case map_of sds serviceName of
                  None \<Rightarrow> Err (ErrMsg (''missing service '' @ serviceName))
                | Some mthds \<Rightarrow> method_table serviceName mthds))"

definition APIKeyLabel :: string where
  "APIKeyLabel = ''api_key''"

type_synonym metadata = "(string \<times> string list) list"

definition md_Get :: "metadata \<Rightarrow> string \<Rightarrow> string list" where
  "md_Get md k = (case map_of md k of None \<Rightarrow> [] | Some vs \<Rightarrow> vs)"

text \<open>\<open>md\<close> is the metadata of the incoming context, if there is any.\<close>

definition apiKeyAuth ::
  "('s, 'q) Server \<Rightarrow> ctx \<Rightarrow> metadata option \<Rightarrow> string \<Rightarrow> 's \<Rightarrow> 's \<times> bool" where
  "apiKeyAuth gr c md rpcname s =
     (case gr_methods gr of
        None \<Rightarrow> (s, False)
      | Some methods \<Rightarrow>
          (case map_of methods rpcname of
             None \<Rightarrow> (s, False)
           | Some ro \<Rightarrow>
               (case md of
                  None \<Rightarrow> (s, False)
                | Some m \<Rightarrow>
                    (case md_Get m APIKeyLabel of
                       [apik] \<Rightarrow>
                         (case FromString apik of
                            Ok ak \<Rightarrow>
                              (case dl_GetAPIKey (gr_DL gr) c ak s of
                                 (s1, Ok akey) \<Rightarrow>
                                   if ak_ReadOnly akey \<and> \<not> ro then (s1, False) else (s1, True)
                               | (s1, _) \<Rightarrow> (s1, False))
                          | _ \<Rightarrow> (s, False))
                     | _ \<Rightarrow> (s, False)))))"

text \<open>The interceptors of \<^verbatim>\<open>Listen\<close>: a handler runs only after the authentication.\<close>

definition intercept ::
  "('s, 'q) Server \<Rightarrow> ctx \<Rightarrow> metadata option \<Rightarrow> string \<Rightarrow> ('s, 'a) act \<Rightarrow> ('s, 'a) act" where
  "intercept gr c md fullMethod handler s =
     (case apiKeyAuth gr c md fullMethod s of
        (s1, True) \<Rightarrow> handler s1
      | (s1, False) \<Rightarrow> (s1, Err (StatusErr Unauthenticated ''failed API key authentication'')))"

section \<open>StartBuild\<close>

definition status_err :: "grpc_code \<Rightarrow> string \<Rightarrow> 'a go" where
  "status_err code msg = Err (StatusErr code msg)"

definition buildevent :: "('s, 'q) Server \<Rightarrow> uuid \<Rightarrow> string \<Rightarrow> 's \<Rightarrow> 's" where
  "buildevent gr bid msg s = fst (dl_AddEvent (gr_DL gr) Background bid msg s)"

definition nil_deref :: string where
  "nil_deref = ''invalid memory address or nil pointer dereference''"

fun registry_repos :: "PushRegistryDefinition option list \<Rightarrow> string list go" where
  "registry_repos [] = Ok []"
| "registry_repos (None # rs) = Panic nil_deref"
| "registry_repos (Some r # rs) = bind_go (registry_repos rs) (\<lambda>ps. Ok (pr_Repo r # ps))"

text \<open>One of the four checks of lines 290 to 325.\<close>

definition check_quantity ::
  "'q quantity_lib \<Rightarrow> string \<Rightarrow> string \<Rightarrow> string \<Rightarrow> 'q \<Rightarrow> unit go" where
  "check_quantity ql str invalid exceeds maxq =
     (if str = [] then Ok ()
      else case ql_Parse ql str of
             Err e \<Rightarrow> status_err InvalidArgument (invalid @ '': '' @ errstr e)
           | Panic p \<Rightarrow> Panic p
           | Ok q \<Rightarrow>
               if ql_Value ql q > ql_Value ql maxq then
                 status_err InvalidArgument
                   (exceeds @ '' ('' @ ql_String ql maxq @ ''): '' @ ql_String ql q)
               else Ok ())"

definition check_resources ::
  "'q quantity_lib \<Rightarrow> 'q MaxResourceLimits \<Rightarrow> BuildResources \<Rightarrow> unit go" where
  "check_resources ql mx r =
     bind_go (check_quantity ql (br_CpuRequest r) ''invalid cpu request'' ''cpu request exceeds limit''
                (mx_MaxCPUReq mx)) (\<lambda>_.
     bind_go (check_quantity ql (br_CpuLimit r) ''invalid cpu limit'' ''cpu limit exceeds max limit''
                (mx_MaxCPULim mx)) (\<lambda>_.
     bind_go (check_quantity ql (br_MemoryRequest r) ''invalid memory request''
                ''memory request exceeds limit'' (mx_MaxMemReq mx)) (\<lambda>_.
     check_quantity ql (br_MemoryLimit r) ''invalid memory limit'' ''memory limit exceeds max limit''
       (mx_MaxMemLim mx))))"

definition cache_options :: "('s, 'q) Server \<Rightarrow> BuildDefinition \<Rightarrow> BuildCacheOpts" where
  "cache_options gr d =
     (let copts = (if co_Type (gr_Cache gr) = BuildCacheOpts_UNKNOWN then DefaultCacheOpts
                   else gr_Cache gr)
      in case bd_CacheOptions d of
           None \<Rightarrow> copts
         | Some co \<Rightarrow> if co_Type co \<noteq> BuildCacheOpts_UNKNOWN then co else copts)"

text \<open>Lines 250 to 329: the build to create for a request whose build is \<open>d\<close>.\<close>

definition make_build ::
  "(string \<Rightarrow> string \<Rightarrow> string \<Rightarrow> string) \<Rightarrow> string \<times> nat \<times> goerr option \<Rightarrow> 'q quantity_lib
     \<Rightarrow> ('s, 'q) Server \<Rightarrow> BuildRequest \<Rightarrow> BuildDefinition \<Rightarrow> string list \<Rightarrow> (Build \<times> BuildOpts) go" where
  "make_build seal rd ql gr req d irepos =
     (let cred = bd_GithubCredential d;
          d1 = d\<lparr>bd_GithubCredential := []\<rparr>;
          req1 = req\<lparr>rq_Build := Some d1\<rparr>;
          b = zero_Build\<lparr>b_GitHubRepo := bd_GithubRepo d1, b_GitHubRef := bd_Ref d1,
                b_ImageRepos := irepos, b_Tags := bd_Tags d1,
                b_CommitSHATag := bd_TagWithCommitSha d1, b_Request := req1,
                b_Status := BuildStatusNotStarted\<rparr>
      in if cred = [] then status_err InvalidArgument ''github credential is missing''
         else (case EncryptAndSetGitHubCredential seal rd cred (gr_CredentialDecryptionKey gr) b of
                 (b1, Err e) \<Rightarrow> status_err Internal (''error encrypting credential: '' @ errstr e)
               | (b1, Panic p) \<Rightarrow> Panic p
               | (b1, Ok _) \<Rightarrow>
                   let dockerfile = (if bd_DockerfilePath d1 \<noteq> [] then bd_DockerfilePath d1 else ''.'');
                       opts = zero_BuildOpts\<lparr>bo_RelativeDockerfilePath := dockerfile,
                                bo_BuildArgs := bd_Args d1, bo_Cache := cache_options gr d1\<rparr>
                   in case bd_Resources d1 of
                        None \<Rightarrow> Ok (b1\<lparr>b_BuildOptions := opts\<rparr>, opts)
                      | Some r \<Rightarrow>
                          bind_go (check_resources ql (gr_MaxResources gr) r) (\<lambda>_.
                            let opts1 = opts\<lparr>bo_Resources := r\<rparr>
                            in Ok (b1\<lparr>b_BuildOptions := opts1\<rparr>, opts1))))"

text \<open>
  The value is the response's build identifier and the options the goroutine of lines 340 to 371
  starts the job with.
\<close>

definition StartBuild ::
  "(string \<Rightarrow> string \<Rightarrow> string \<Rightarrow> string) \<Rightarrow> string \<times> nat \<times> goerr option \<Rightarrow> 'q quantity_lib
     \<Rightarrow> ('s, 'q) Server \<Rightarrow> ctx \<Rightarrow> BuildRequest \<Rightarrow> ('s, string \<times> BuildOpts) act" where
  "StartBuild seal rd ql gr c req s =
     (case rq_Build req of
        None \<Rightarrow> (s, Panic nil_deref)
      | Some d \<Rightarrow>
          if bd_GithubRepo d = [] then (s, status_err InvalidArgument ''github repo is required'')
          else if bd_Ref d = [] then (s, status_err InvalidArgument ''github ref is required'')
          else
            (case cf_GetCommitSHA (gr_CFFactory gr (bd_GithubCredential d)) c (bd_GithubRepo d) (bd_Ref d) s of
               (s1, Err e) \<Rightarrow>
                 (s1, status_err InvalidArgument (''error validating repo and ref: '' @ errstr e))
             | (s1, Panic p) \<Rightarrow> (s1, Panic p)
             | (s1, Ok _) \<Rightarrow>
                 if GetRegistries (rq_Push req) = [] then
                   (s1, status_err InvalidArgument ''at least one image repo is required'')
                 else
                   (case bind_go (registry_repos (GetRegistries (rq_Push req)))
                           (make_build seal rd ql gr req d) of
                      Err e \<Rightarrow> (s1, Err e)
                    | Panic p \<Rightarrow> (s1, Panic p)
                    | Ok (b, opts) \<Rightarrow>
                        (case dl_CreateBuild (gr_DL gr) c b s1 of
                           (s2, Err e) \<Rightarrow>
                             (s2, status_err Internal (''error creating build in db: '' @ errstr e))
                         | (s2, Panic p) \<Rightarrow> (s2, Panic p)
                         | (s2, Ok bid) \<Rightarrow> (s2, Ok (uuid_String bid, opts\<lparr>bo_BuildID := bid\<rparr>))))))"

text \<open>
  The goroutine: \<open>timedout\<close> is whether its context is done when \<^verbatim>\<open>Start\<close> has returned an error,
  \<open>took\<close> the printed duration of the handoff.  A panic of \<^verbatim>\<open>Start\<close> ends the process.
\<close>

definition start_job ::
  "('s, 'q) Server \<Rightarrow> bool \<Rightarrow> string \<Rightarrow> BuildOpts \<Rightarrow> ('s, unit) act" where
  "start_job gr timedout took opts s =
     (let bid = bo_BuildID opts;
          jht = (if gr_JobHandoffTimeout gr \<noteq> 0 then gr_JobHandoffTimeout gr else DefaultJobHandoffTimeout);
          s1 = buildevent gr bid ''creating build job'' s
      in case gr_Start gr Active opts s1 of
           (s2, Err e) \<Rightarrow>
             (let msg = (if timedout then
                           ''timeout waiting for build handoff ('' @ Duration_String jht
                           @ ''): check to see if the job is schedulable and has cpu/mem requests that the k8s cluster can provide''
                         else ''error starting build job: '' @ errstr e);
                  s3 = buildevent gr bid msg s2
              in (fst (dl_SetBuildAsCompleted (gr_DL gr) Background bid BuildStatusFailure s3), Ok ()))
         | (s2, Panic p) \<Rightarrow> (s2, Panic p)
         | (s2, Ok _) \<Rightarrow> (buildevent gr bid (''build is running (handoff took '' @ took @ '')'') s2, Ok ()))"

section \<open>Queries\<close>

definition buildStatusResponseFromBuild :: "Build \<Rightarrow> BuildStatusResponse" where
  "buildStatusResponseFromBuild b =
     \<lparr>sr_BuildId = uuid_String (b_ID b), sr_BuildRequest = Some (b_Request b),
      sr_State = State (b_Status b), sr_Started = Some (RPCTimestampFromTime (b_Created b)),
      sr_Completed = Some (if \<not> IsZero (b_Completed b) then RPCTimestampFromTime (b_Completed b)
                           else zero_Timestamp)\<rparr>"

text \<open>The beginning that four handlers share: the identifier is parsed and the build looked up.\<close>

definition find_build :: "('s, 'q) Server \<Rightarrow> ctx \<Rightarrow> string \<Rightarrow> ('s, Build) act" where
  "find_build gr c buildId s =
     (case FromString buildId of
        Err e \<Rightarrow> (s, status_err InvalidArgument (''invalid build id: '' @ errstr e))
      | Panic p \<Rightarrow> (s, Panic p)
      | Ok bid \<Rightarrow>
          (case dl_GetBuildByID (gr_DL gr) c bid s of
             (s1, Err e) \<Rightarrow>
               (s1, if e = ErrNotFound then status_err InvalidArgument ''build not found''
                    else status_err Internal (''error getting build: '' @ errstr e))
           | (s1, Panic p) \<Rightarrow> (s1, Panic p)
           | (s1, Ok b) \<Rightarrow> (s1, Ok b)))"

definition GetBuildStatus :: "('s, 'q) Server \<Rightarrow> ctx \<Rightarrow> string \<Rightarrow> ('s, BuildStatusResponse) act" where
  "GetBuildStatus gr c buildId =
     bind_act (find_build gr c buildId) (\<lambda>b. ret_act (Ok (buildStatusResponseFromBuild b)))"

definition GetBuildEvents :: "('s, 'q) Server \<Rightarrow> ctx \<Rightarrow> string \<Rightarrow> ('s, BuildEventsResponse) act" where
  "GetBuildEvents gr c buildId =
     bind_act (find_build gr c buildId) (\<lambda>b.
       ret_act (Ok \<lparr>er_BuildId = buildId, er_CurrentState = State (b_Status b),
                    er_Messages = b_Events b\<rparr>))"

definition grpc_CancelBuild :: "('s, 'q) Server \<Rightarrow> ctx \<Rightarrow> string \<Rightarrow> ('s, string) act" where
  "grpc_CancelBuild gr c buildId =
     bind_act (find_build gr c buildId) (\<lambda>b s.
       if TerminalState (b_Status b) \<or> \<not> Running b then
         (s, status_err FailedPrecondition
               (''build state not compatible with cancellation: '' @ BuildStatus_String (b_Status b)))
       else
         (case dl_CancelBuild (gr_DL gr) c (b_ID b) s of
            (s1, Err e) \<Rightarrow> (s1, status_err Internal (''error cancelling build: '' @ errstr e))
          | (s1, Panic p) \<Rightarrow> (s1, Panic p)
          | (s1, Ok _) \<Rightarrow>
              (s1, bind_go (FromString buildId) (\<lambda>bid. Ok (uuid_String bid)))))"

definition datalayerListBuildsOptions :: "ListBuildsRequest \<Rightarrow> ListBuildsOptions" where
  "datalayerListBuildsOptions req =
     (let time = (\<lambda>t. case t of None \<Rightarrow> zero_time | Some ts \<Rightarrow> TimeFromRPCTimestamp ts)
      in \<lparr>lo_WithGitHubRepo = lr_WithGithubRepo req, lo_WithGitHubRef = lr_WithGithubRef req,
          lo_WithImageRepo = lr_WithImageRepo req,
          lo_WithStatus = BuildStatusFromState (lr_WithBuildState req),
          lo_CompletedAfter = time (lr_CompletedAfter req),
          lo_StartedAfter = time (lr_StartedAfter req),
          lo_CompletedBefore = time (lr_CompletedBefore req),
          lo_StartedBefore = time (lr_StartedBefore req),
          lo_Limit = ucast (lr_Limit req)\<rparr>)"

definition grpc_ListBuilds ::
  "('s, 'q) Server \<Rightarrow> ctx \<Rightarrow> ListBuildsRequest \<Rightarrow> ('s, BuildStatusResponse list) act" where
  "grpc_ListBuilds gr c req s =
     (if lr_WithGithubRepo req = [] \<and> lr_WithGithubRef req = [] \<and> lr_WithImageRepo req = []
         \<and> lr_WithBuildState req = BuildState_UNKNOWN \<and> lr_CompletedAfter req = None
         \<and> lr_StartedAfter req = None \<and> lr_CompletedBefore req = None \<and> lr_StartedBefore req = None then
        (s, status_err InvalidArgument ''at least one list option is required'')
      else
        (case dl_ListBuilds (gr_DL gr) c (datalayerListBuildsOptions req) s of
           (s1, Err e) \<Rightarrow> (s1, status_err Internal (''error getting builds from db: '' @ errstr e))
         | (s1, Panic p) \<Rightarrow> (s1, Panic p)
         | (s1, Ok builds) \<Rightarrow> (s1, Ok (map buildStatusResponseFromBuild builds))))"

section \<open>MonitorBuild\<close>

text \<open>The server side of the stream.\<close>

type_synonym 's send = "BuildEvent \<Rightarrow> ('s, unit) act"

definition event_of :: "Build \<Rightarrow> string \<Rightarrow> BuildEvent" where
  "event_of b msg =
     \<lparr>ev_BuildId = uuid_String (b_ID b), ev_Message = msg, ev_CurrentState = State (b_Status b)\<rparr>"

fun send_history :: "'s send \<Rightarrow> Build \<Rightarrow> string list \<Rightarrow> ('s, unit) act" where
  "send_history send b [] s = (s, Ok ())"
| "send_history send b (ev # evs) s =
     (case send (event_of b ev) s of
        (s1, Err e) \<Rightarrow>
          (s1, status_err Internal (''error sending build event on RPC stream: '' @ errstr e))
      | (s1, Panic p) \<Rightarrow> (s1, Panic p)
      | (s1, Ok _) \<Rightarrow> send_history send b evs s1)"

text \<open>The goroutine of lines 484 to 505 on the events it receives.\<close>

fun forward_events :: "'s DataLayer \<Rightarrow> 's send \<Rightarrow> ctx \<Rightarrow> uuid \<Rightarrow> string list \<Rightarrow> 's \<Rightarrow> 's" where
  "forward_events dl send c bid [] s = s"
| "forward_events dl send c bid (ev # evs) s =
     (case dl_GetBuildByID dl c bid s of
        (s1, Ok b) \<Rightarrow>
          (case send (event_of b ev) s1 of
             (s2, Ok _) \<Rightarrow> forward_events dl send c bid evs s2
           | (s2, _) \<Rightarrow> s2)
      | (s1, _) \<Rightarrow> s1)"

text \<open>
  \<open>live\<close> are the events that the goroutine of lines 470 to 480 passes on while the call waits for
  the completion; \<open>gap1\<close>, \<open>gap2\<close> what others do meanwhile.
\<close>

definition MonitorBuild ::
  "('s, 'q) Server \<Rightarrow> 's send \<Rightarrow> string list \<Rightarrow> 's interference \<Rightarrow> 's interference \<Rightarrow> ctx \<Rightarrow> string
     \<Rightarrow> ('s, unit) act" where
  "MonitorBuild gr send live gap1 gap2 c buildId =
     bind_act (find_build gr c buildId) (\<lambda>b.
     bind_act (send_history send b (b_Events b)) (\<lambda>_ s.
       if TerminalState (b_Status b) then
         (case send (event_of b (''build has ended: '' @ BuildStatus_String (b_Status b))) s of
            (s1, Panic p) \<Rightarrow> (s1, Panic p) | (s1, _) \<Rightarrow> (s1, Ok ()))
       else
         (case dl_ListenForBuildCompleted (gr_DL gr) gap1
                 (\<lambda>t. forward_events (gr_DL gr) send c (b_ID b) live (gap2 t)) c (b_ID b) s of
            (s1, Err e) \<Rightarrow>
              (s1, status_err Internal (''error listening for build completion: '' @ errstr e))
          | (s1, Panic p) \<Rightarrow> (s1, Panic p)
          | (s1, Ok _) \<Rightarrow> (s1, Ok ()))))"

section \<open>MonitorStreamAdapter\<close>

text \<open>
  The channel is the list of the events in it and its capacity; the field \<^verbatim>\<open>bufferedMsgs\<close> is never set.  A message is an interface value:
  nil, a pointer to an event, or a value of another type (its name is kept for the error text).
\<close>

record MonitorStreamAdapter =
  msa_ctx :: ctx
  msa_bufferedMsgs :: nat
  msa_c :: "BuildEvent option list"
  msa_cap :: nat

datatype any_msg = NilMsg | EventMsg "BuildEvent option" | OtherMsg string

definition NewMonitorStreamAdapter :: "ctx option \<Rightarrow> nat \<Rightarrow> MonitorStreamAdapter" where
  "NewMonitorStreamAdapter c bufmsgs =
     \<lparr>msa_ctx = (case c of None \<Rightarrow> Background | Some x \<Rightarrow> x), msa_bufferedMsgs = 0,
      msa_c = [], msa_cap = bufmsgs\<rparr>"

definition checkCtx :: "MonitorStreamAdapter \<Rightarrow> bool" where
  "checkCtx msa \<longleftrightarrow> msa_ctx msa = Active"

text \<open>
  A full channel makes the sender wait: \<open>taken\<close> says whether a receiver makes room before the
  context ends.
\<close>

definition SendMsg :: "bool \<Rightarrow> any_msg \<Rightarrow> (MonitorStreamAdapter, unit) act" where
  "SendMsg taken m msa =
     (if \<not> checkCtx msa then (msa, Err (ErrMsg ''stream is closed''))
      else case m of
             NilMsg \<Rightarrow> (msa, Err (ErrMsg ''msg is nil''))
           | OtherMsg t \<Rightarrow>
               (msa, Err (ErrMsg (''unexpected msg type '' @ t @ '' (expected BuildEvent)'')))
           | EventMsg be \<Rightarrow>
               if length (msa_c msa) < msa_cap msa \<or> taken then
                 (msa\<lparr>msa_c := msa_c msa @ [be]\<rparr>, Ok ())
               else (msa\<lparr>msa_ctx := Done\<rparr>, Err ErrEOF))"

definition Send :: "bool \<Rightarrow> BuildEvent option \<Rightarrow> (MonitorStreamAdapter, unit) act" where
  "Send taken e = SendMsg taken (EventMsg e)"

text \<open>An empty channel makes the receiver wait until the context ends.\<close>

definition RecvMsg :: "any_msg \<Rightarrow> (MonitorStreamAdapter, BuildEvent) act" where
  "RecvMsg m msa =
     (if \<not> checkCtx msa then (msa, Err (ErrMsg ''stream is closed''))
      else case m of
             NilMsg \<Rightarrow> (msa, Err (ErrMsg ''msg is nil''))
           | OtherMsg t \<Rightarrow>
               (msa, Err (ErrMsg (''unexpected msg type '' @ t @ '' (expected BuildEvent)'')))
           | EventMsg dst \<Rightarrow>
               (case msa_c msa of
                  [] \<Rightarrow> (msa\<lparr>msa_ctx := Done\<rparr>, Err ErrEOF)
                | None # rest \<Rightarrow> (msa\<lparr>msa_c := rest\<rparr>, Err ErrEOF)
                | Some e # rest \<Rightarrow>
                    (msa\<lparr>msa_c := rest\<rparr>,
                     if dst = None then Err (ErrMsg ''m or received value is not valid'') else Ok e)))"

section \<open>The REST handlers\<close>

record response =
  w_StatusCode :: nat
  w_ContentType :: string
  w_Body :: string

text \<open>\<^verbatim>\<open>status.Code\<close> of an error that is no status error is \<^verbatim>\<open>Unknown\<close>.\<close>

definition status_Code :: "goerr \<Rightarrow> grpc_code" where
  "status_Code e = (case e of StatusErr c m \<Rightarrow> c | _ \<Rightarrow> CodeUnknown)"

text \<open>The text of a status error, \<^verbatim>\<open>rpc error: code = \<dots> desc = \<dots>\<close>.\<close>

primrec code_name :: "grpc_code \<Rightarrow> string" where
  "code_name CodeUnknown = ''Unknown''"
| "code_name InvalidArgument = ''InvalidArgument''"
| "code_name FailedPrecondition = ''FailedPrecondition''"
| "code_name Internal = ''Internal''"
| "code_name Unauthenticated = ''Unauthenticated''"

definition status_text :: "goerr \<Rightarrow> string" where
  "status_text e =
     (case e of
        StatusErr c m \<Rightarrow> ''rpc error: code = '' @ code_name c @ '' desc = '' @ m
      | _ \<Rightarrow> errstr e)"

definition handleRPCError :: "goerr \<Rightarrow> response" where
  "handleRPCError err =
     \<lparr>w_StatusCode = (case status_Code err of InvalidArgument \<Rightarrow> 400 | Unauthenticated \<Rightarrow> 401 | _ \<Rightarrow> 500),
      w_ContentType = ''text/plain'', w_Body = status_text err\<rparr>"

definition APIKeyHeader :: string where
  "APIKeyHeader = ''API-Key''"

definition addkey :: "(string \<times> string list) list \<Rightarrow> metadata" where
  "addkey header =
     [(APIKeyLabel, case map_of header APIKeyHeader of None \<Rightarrow> [] | Some vs \<Rightarrow> vs)]"

text \<open>
  The three handlers: \<open>decoded\<close> is what the JSON decoder made of the body and \<open>encode\<close> the encoder;
  the handler of the RPC is called directly.
\<close>

definition rest_handler ::
  "'r go \<Rightarrow> ('a \<Rightarrow> string) \<Rightarrow> ('r \<Rightarrow> ('s, 'a) act) \<Rightarrow> ('s, response) act" where
  "rest_handler decoded encode rpc s =
     (case decoded of
        Err e \<Rightarrow> (s, Ok \<lparr>w_StatusCode = 400, w_ContentType = [], w_Body = []\<rparr>)
      | Panic p \<Rightarrow> (s, Panic p)
      | Ok req \<Rightarrow>
          (case rpc req s of
             (s1, Err e) \<Rightarrow> (s1, Ok (handleRPCError e))
           | (s1, Panic p) \<Rightarrow> (s1, Panic p)
           | (s1, Ok resp) \<Rightarrow>
               (s1, Ok \<lparr>w_StatusCode = 200, w_ContentType = [], w_Body = encode resp\<rparr>)))"

definition BuildRequestHandler where
  "BuildRequestHandler seal rd ql gr c decoded encode =
     rest_handler decoded encode (\<lambda>req. StartBuild seal rd ql gr c req)"

definition BuildStatusHandler where
  "BuildStatusHandler gr c decoded encode = rest_handler decoded encode (GetBuildStatus gr c)"

definition BuildCancelHandler where
  "BuildCancelHandler gr c decoded encode = rest_handler decoded encode (grpc_CancelBuild gr c)"

section \<open>Lemmas: authentication\<close>

lemma apiKeyAuth_sound:
  assumes "apiKeyAuth gr c md rpcname s = (s', True)"
  shows "\<exists>ro m apik kid akey. map_of (the (gr_methods gr)) rpcname = Some ro \<and> md = Some m
    \<and> md_Get m APIKeyLabel = [apik] \<and> FromString apik = Ok kid
    \<and> dl_GetAPIKey (gr_DL gr) c kid s = (s', Ok akey) \<and> (ak_ReadOnly akey \<longrightarrow> ro)"
  using assms
  by (auto simp: apiKeyAuth_def split: option.splits list.splits go.splits prod.splits if_splits)

text \<open>Over a data layer: only a stored key passes, and a read-only key only for read-only methods.\<close>

context data_layer
begin

lemma auth_key_stored:
  assumes "inv s" "gr_DL gr = dl" "apiKeyAuth gr c md rpcname s = (s', True)"
  shows "view s' = view s \<and> (\<exists>ro m apik kid akey. map_of (the (gr_methods gr)) rpcname = Some ro
    \<and> md = Some m \<and> md_Get m APIKeyLabel = [apik] \<and> FromString apik = Ok kid
    \<and> keys s kid = Some akey \<and> (ak_ReadOnly akey \<longrightarrow> ro))"
proof -
  from apiKeyAuth_sound [OF assms(3)] assms(2) obtain ro m apik kid akey
    where k: "map_of (the (gr_methods gr)) rpcname = Some ro" "md = Some m"
      "md_Get m APIKeyLabel = [apik]" "FromString apik = Ok kid"
      "dl_GetAPIKey dl c kid s = (s', Ok akey)" "ak_ReadOnly akey \<longrightarrow> ro" by metis
  from getkey_step [OF assms(1) k(5)] have "view s' = view s" "keys s kid = Some akey" by auto
  with k show ?thesis by blast
qed

text \<open>A call that is refused changes no build, whatever the handler does.\<close>

lemma auth_view: "inv s \<Longrightarrow> gr_DL gr = dl \<Longrightarrow> apiKeyAuth gr c md rpcname s = (s', ok) \<Longrightarrow> view s' = view s"
proof -
  assume i: "inv s" and d: "gr_DL gr = dl" and a: "apiKeyAuth gr c md rpcname s = (s', ok)"
  have k: "dl_GetAPIKey (gr_DL gr) c kid s = (t, r) \<Longrightarrow> view t = view s" for kid t r
    using getkey_step [OF i] d by blast
  from a show "view s' = view s"
    by (auto simp: apiKeyAuth_def split: option.splits list.splits go.splits prod.splits if_splits dest: k)
qed

lemma refused_no_effect:
  assumes "inv s" "gr_DL gr = dl" "intercept gr c md rpcname handler s = (s', r)"
    and "snd (apiKeyAuth gr c md rpcname s) = False"
  shows "r = Err (StatusErr Unauthenticated ''failed API key authentication'') \<and> view s' = view s"
  using assms auth_view [OF assms(1,2)]
  by (auto simp: intercept_def split: prod.splits bool.splits)

end

section \<open>Lemmas: StartBuild\<close>

lemma check_quantity_Ok:
  "check_quantity ql str ivl exc maxq = Ok () \<longleftrightarrow>
     str = [] \<or> (\<exists>q. ql_Parse ql str = Ok q \<and> ql_Value ql q \<le> ql_Value ql maxq)"
  by (auto simp: check_quantity_def status_err_def split: go.splits if_splits)

text \<open>The resources are within the limits: every quantity that is given parses and is small enough.\<close>

definition within :: "'q quantity_lib \<Rightarrow> string \<Rightarrow> 'q \<Rightarrow> bool" where
  "within ql str maxq \<longleftrightarrow>
     str = [] \<or> (\<exists>q. ql_Parse ql str = Ok q \<and> ql_Value ql q \<le> ql_Value ql maxq)"

lemma check_resources_Ok:
  "check_resources ql mx r = Ok () \<longleftrightarrow>
     within ql (br_CpuRequest r) (mx_MaxCPUReq mx) \<and> within ql (br_CpuLimit r) (mx_MaxCPULim mx)
     \<and> within ql (br_MemoryRequest r) (mx_MaxMemReq mx)
     \<and> within ql (br_MemoryLimit r) (mx_MaxMemLim mx)"
  by (simp add: check_resources_def bind_go_eq_Ok check_quantity_Ok within_def)

lemma registry_repos_Ok:
  "registry_repos rs = Ok ps \<Longrightarrow> length ps = length rs \<and> (\<forall>i < length rs. \<exists>r. rs ! i = Some r \<and> pr_Repo r = ps ! i)"
proof (induction rs arbitrary: ps rule: registry_repos.induct)
  case (3 r rs)
  then obtain qs where q: "registry_repos rs = Ok qs" "ps = pr_Repo r # qs"
    by (auto simp: bind_go_eq_Ok)
  from "3.IH" [OF q(1)] show ?case by (auto simp: q(2) nth_Cons split: nat.splits)
qed auto

text \<open>What the build that is created has of the request.\<close>

definition build_for :: "BuildRequest \<Rightarrow> BuildDefinition \<Rightarrow> string list \<Rightarrow> Build \<Rightarrow> bool" where
  "build_for req d irepos b \<longleftrightarrow>
     b_GitHubRepo b = bd_GithubRepo d \<and> b_GitHubRef b = bd_Ref d \<and> b_ImageRepos b = irepos
     \<and> b_Tags b = bd_Tags d \<and> b_CommitSHATag b = bd_TagWithCommitSha d
     \<and> b_Request b = req\<lparr>rq_Build := Some (d\<lparr>bd_GithubCredential := []\<rparr>)\<rparr>
     \<and> b_Status b = BuildStatusNotStarted
     \<and> bo_RelativeDockerfilePath (b_BuildOptions b) =
         (if bd_DockerfilePath d = [] then ''.'' else bd_DockerfilePath d)
     \<and> bo_BuildArgs (b_BuildOptions b) = bd_Args d
     \<and> bo_Resources (b_BuildOptions b) = (case bd_Resources d of None \<Rightarrow> zero_Resources | Some r \<Rightarrow> r)"

lemma make_build_Ok:
  assumes "make_build seal rd ql gr req d irepos = Ok (b, opts)"
  shows "bd_GithubCredential d \<noteq> [] \<and> opts = b_BuildOptions b \<and> build_for req d irepos b
    \<and> bo_Cache opts = cache_options gr d
    \<and> (case bd_Resources d of None \<Rightarrow> True | Some r \<Rightarrow> check_resources ql (gr_MaxResources gr) r = Ok ())"
proof -
  obtain nonce n err where rd: "rd = (nonce, n, err)" by (cases rd)
  have cache: "cache_options gr (d\<lparr>bd_GithubCredential := x\<rparr>) = cache_options gr d" for x
    by (simp add: cache_options_def)
  show ?thesis
  proof (cases "bd_Resources d")
    case None
    with assms show ?thesis
      by (auto simp: make_build_def Let_def EncryptAndSetGitHubCredential_def status_err_def rd build_for_def
          zero_BuildOpts_def cache split: if_splits option.splits)
  next
    case (Some r)
    with assms show ?thesis
      by (auto simp: make_build_def Let_def EncryptAndSetGitHubCredential_def status_err_def rd build_for_def
          bind_go_eq_Ok zero_BuildOpts_def cache split: if_splits option.splits)
  qed
qed

lemma StartBuild_Ok:
  assumes "StartBuild seal rd ql gr c req s = (s', Ok (sid, opts))"
  shows "\<exists>d irepos b bid s1 sha. rq_Build req = Some d \<and> bd_GithubRepo d \<noteq> [] \<and> bd_Ref d \<noteq> []
    \<and> cf_GetCommitSHA (gr_CFFactory gr (bd_GithubCredential d)) c (bd_GithubRepo d) (bd_Ref d) s = (s1, Ok sha)
    \<and> GetRegistries (rq_Push req) \<noteq> [] \<and> registry_repos (GetRegistries (rq_Push req)) = Ok irepos
    \<and> make_build seal rd ql gr req d irepos = Ok (b, b_BuildOptions b)
    \<and> dl_CreateBuild (gr_DL gr) c b s1 = (s', Ok bid)
    \<and> sid = uuid_String bid \<and> opts = (b_BuildOptions b)\<lparr>bo_BuildID := bid\<rparr>"
proof (cases "rq_Build req")
  case None
  with assms show ?thesis by (simp add: StartBuild_def)
next
  case (Some d)
  obtain s1 r1 where g: "cf_GetCommitSHA (gr_CFFactory gr (bd_GithubCredential d)) c (bd_GithubRepo d) (bd_Ref d) s = (s1, r1)"
    by fastforce
  let ?mk = "bind_go (registry_repos (GetRegistries (rq_Push req))) (make_build seal rd ql gr req d)"
  from assms Some g obtain sha where ne: "bd_GithubRepo d \<noteq> []" "bd_Ref d \<noteq> []"
      "GetRegistries (rq_Push req) \<noteq> []" and r1: "r1 = Ok sha"
    by (auto simp: StartBuild_def status_err_def split: if_splits go.splits)
  obtain b o1 where mk: "?mk = Ok (b, o1)"
    using assms Some g ne r1 by (cases ?mk) (auto simp: StartBuild_def split: if_splits)
  then obtain irepos where ir: "registry_repos (GetRegistries (rq_Push req)) = Ok irepos"
      "make_build seal rd ql gr req d irepos = Ok (b, o1)"
    by (auto simp: bind_go_eq_Ok)
  have "o1 = b_BuildOptions b" using make_build_Ok [OF ir(2)] by blast
  moreover obtain s2 r2 where cr: "dl_CreateBuild (gr_DL gr) c b s1 = (s2, r2)" by fastforce
  moreover obtain bid where "r2 = Ok bid" "s2 = s'" "sid = uuid_String bid" "opts = o1\<lparr>bo_BuildID := bid\<rparr>"
    using assms Some g ne r1 mk cr by (cases r2) (auto simp: StartBuild_def status_err_def split: if_splits)
  ultimately show ?thesis using Some g ne r1 ir by blast
qed

section \<open>Lemmas: handlers over a data layer\<close>

text \<open>Looking up a commit does not touch the store.\<close>

definition fetch_quiet :: "('s \<Rightarrow> store) \<Rightarrow> ('s \<Rightarrow> bool) \<Rightarrow> (string \<Rightarrow> 's CodeFetcher) \<Rightarrow> bool" where
  "fetch_quiet view Inv ff \<longleftrightarrow>
     (\<forall>tkn c repo ref s. Inv s \<longrightarrow>
        Inv (fst (cf_GetCommitSHA (ff tkn) c repo ref s))
        \<and> view (fst (cf_GetCommitSHA (ff tkn) c repo ref s)) = view s)"

lemma fetch_quietD:
  "fetch_quiet view Inv ff \<Longrightarrow> cf_GetCommitSHA (ff tkn) c repo ref s = (s1, r) \<Longrightarrow> Inv s \<Longrightarrow>
     Inv s1 \<and> view s1 = view s"
  by (metis fetch_quiet_def fst_conv)

context data_layer
begin

lemma find_build_Ok:
  assumes "inv s" "gr_DL gr = dl" "find_build gr c sid s = (s', Ok b)"
  shows "inv s' \<and> view s' = view s \<and> FromString sid = Ok (b_ID b) \<and> view s (b_ID b) = Some (erase b)"
proof -
  from assms(2,3) obtain bid where f: "FromString sid = Ok bid" "dl_GetBuildByID dl c bid s = (s', Ok b)"
    by (auto simp: find_build_def status_err_def split: go.splits prod.splits if_splits)
  from get_step [OF assms(1) f(2)] f(1) show ?thesis by auto
qed

text \<open>The status that is reported is the status of the build in the store.\<close>

lemma GetBuildStatus_Ok:
  assumes "inv s" "gr_DL gr = dl" "GetBuildStatus gr c sid s = (s', Ok r)"
  shows "view s' = view s \<and> (\<exists>bid st. FromString sid = Ok bid \<and> sr_BuildId r = uuid_String bid
    \<and> status_of (view s) bid = Some st \<and> sr_State r = State st)"
proof -
  from assms(3) obtain b where b: "find_build gr c sid s = (s', Ok b)" "r = buildStatusResponseFromBuild b"
    by (auto simp: GetBuildStatus_def bind_act_Ok)
  from find_build_Ok [OF assms(1,2) b(1)] show ?thesis
    by (auto simp: b(2) buildStatusResponseFromBuild_def status_of_def)
qed

text \<open>A cancellation that is accepted finds the build running and leaves it in CancelRequested.\<close>

lemma grpc_CancelBuild_Ok:
  assumes "inv s" "gr_DL gr = dl" "grpc_CancelBuild gr c sid s = (s', Ok r)"
  shows "\<exists>bid. FromString sid = Ok bid \<and> r = uuid_String bid
    \<and> status_of (view s) bid = Some BuildStatusRunning
    \<and> view s' = set_status (view s) bid BuildStatusCancelRequested"
proof -
  from assms(3) obtain b s1 where b: "find_build gr c sid s = (s1, Ok b)"
    and run: "Running b" and cx: "dl_CancelBuild (gr_DL gr) c (b_ID b) s1 = (s', Ok ())"
    and r: "bind_go (FromString sid) (\<lambda>bid. Ok (uuid_String bid)) = Ok r"
    by (auto simp: grpc_CancelBuild_def bind_act_Ok status_err_def split: if_splits go.splits prod.splits)
  note f = find_build_Ok [OF assms(1,2) b]
  from cancel_ok [OF conjunct1 [OF f] cx [unfolded assms(2)]] f r run show ?thesis
    by (auto simp: status_of_def Running_def)
qed

text \<open>
  A build that was started is in the store under the returned identifier, as requested and not
  started; the code fetcher does not touch the store.
\<close>

lemma StartBuild_creates:
  assumes "inv s" "gr_DL gr = dl" "StartBuild seal rd ql gr c req s = (s', Ok (sid, opts))"
    and cf: "fetch_quiet view inv (gr_CFFactory gr)"
  shows "\<exists>d irepos b b' bid. rq_Build req = Some d \<and> bd_GithubRepo d \<noteq> [] \<and> bd_Ref d \<noteq> []
    \<and> registry_repos (GetRegistries (rq_Push req)) = Ok irepos \<and> irepos \<noteq> []
    \<and> make_build seal rd ql gr req d irepos = Ok (b, b_BuildOptions b)
    \<and> build_for req d irepos b \<and> created_as b bid b' \<and> inv s'
    \<and> view s' = (view s)(bid \<mapsto> b') \<and> FromString sid = Ok bid \<and> sid = uuid_String bid
    \<and> opts = (b_BuildOptions b)\<lparr>bo_BuildID := bid\<rparr>"
proof -
  from StartBuild_Ok [OF assms(3)] obtain d irepos b bid s1 sha where x: "rq_Build req = Some d"
    "cf_GetCommitSHA (gr_CFFactory gr (bd_GithubCredential d)) c (bd_GithubRepo d) (bd_Ref d) s = (s1, Ok sha)"
    "make_build seal rd ql gr req d irepos = Ok (b, b_BuildOptions b)"
    "dl_CreateBuild (gr_DL gr) c b s1 = (s', Ok bid)" "sid = uuid_String bid"
    "opts = (b_BuildOptions b)\<lparr>bo_BuildID := bid\<rparr>" "bd_GithubRepo d \<noteq> []" "bd_Ref d \<noteq> []"
    "registry_repos (GetRegistries (rq_Push req)) = Ok irepos" "GetRegistries (rq_Push req) \<noteq> []" by blast
  have ne: "irepos \<noteq> []" using registry_repos_Ok [OF x(9)] x(10) by auto
  from fetch_quietD [OF cf x(2) assms(1)] have s1: "inv s1" "view s1 = view s" by auto
  from create_step [OF s1(1) x(4) [unfolded assms(2)]] obtain b'
    where "created_as b bid b'" "view s' = (view s1)(bid \<mapsto> b')" "inv s'" by blast
  with make_build_Ok [OF x(3)] x s1(2) ne show ?thesis by auto
qed

end

context reliable_layer
begin

text \<open>The status of a stored build can be asked for.\<close>

lemma GetBuildStatus_found:
  assumes "alive bid s" "gr_DL gr = dl" "FromString sid = Ok bid" "status_of (view s) bid = Some st"
  shows "\<exists>s' r. GetBuildStatus gr Active sid s = (s', Ok r) \<and> sr_BuildId r = uuid_String bid
    \<and> sr_State r = State st"
proof -
  from assms(1) get_found [of s bid] obtain s' b where g: "dl_GetBuildByID dl Active bid s = (s', Ok b)"
    and i: "inv s" by (auto simp: store_alive_def)
  from get_step [OF i g] assms(4) have "b_Status b = st" "b_ID b = bid" by (auto simp: status_of_def)
  with g assms(2,3) show ?thesis
    by (simp add: GetBuildStatus_def find_build_def bind_act_def ret_act_def buildStatusResponseFromBuild_def)
qed

text \<open>If the job cannot be started, the build is recorded as failed.\<close>

lemma start_job_failure:
  assumes "alive bid s" "gr_DL gr = dl" "bo_BuildID opts = bid"
    and start: "\<And>s. alive bid s \<Longrightarrow> \<exists>s1 e. gr_Start gr Active opts s = (s1, Err e) \<and> alive bid s1"
  shows "\<exists>s'. start_job gr timedout took opts s = (s', Ok ())
    \<and> status_of (view s') bid = Some BuildStatusFailure"
proof -
  have ev: "alive bid t \<Longrightarrow> alive bid (buildevent gr bid msg t)" for t msg
    using event_alive [of bid Active msg] by (simp add: buildevent_def assms(2) keeps_def)
  from start [OF ev [OF assms(1)]] obtain s1 e where
    1: "gr_Start gr Active opts (buildevent gr bid ''creating build job'' s) = (s1, Err e)" "alive bid s1"
    by blast
  define msg where "msg = (if timedout then
      ''timeout waiting for build handoff ('' @ Duration_String
        (if gr_JobHandoffTimeout gr \<noteq> 0 then gr_JobHandoffTimeout gr else DefaultJobHandoffTimeout)
      @ ''): check to see if the job is schedulable and has cpu/mem requests that the k8s cluster can provide''
    else ''error starting build job: '' @ errstr e)"
  obtain s2 r2 where 2: "dl_SetBuildAsCompleted dl Active bid BuildStatusFailure (buildevent gr bid msg s1) = (s2, r2)"
    by fastforce
  have "start_job gr timedout took opts s = (s2, Ok ())"
    using 1(1) 2 by (simp add: start_job_def Let_def assms(2,3) msg_def)
  moreover have "at bid BuildStatusFailure s2"
    using completed_at [OF _ ev [OF 1(2)] 2] by simp
  ultimately show ?thesis by (auto simp: store_at_def)
qed

end

section \<open>Lemmas: streams\<close>

text \<open>A stream that records \<open>f\<close> of what is sent on it.\<close>

definition records :: "(BuildEvent \<Rightarrow> 'm) \<Rightarrow> ('s \<Rightarrow> 'm list) \<Rightarrow> 's send \<Rightarrow> bool" where
  "records f sent send \<longleftrightarrow> (\<forall>e s. \<exists>s'. send e s = (s', Ok ()) \<and> sent s' = sent s @ [f e])"

lemma send_history_all:
  assumes "records f sent send"
  shows "\<exists>s'. send_history send b evs s = (s', Ok ()) \<and> sent s' = sent s @ map (\<lambda>m. f (event_of b m)) evs"
proof (induction evs arbitrary: s)
  case (Cons ev evs)
  from assms obtain s1 where "send (event_of b ev) s = (s1, Ok ())" "sent s1 = sent s @ [f (event_of b ev)]"
    unfolding records_def by blast
  with Cons [of s1] show ?case by auto
qed simp

text \<open>The stream of a completed build: every event of the build in order, then the end message.\<close>

lemma MonitorBuild_completed:
  assumes "records f sent send" "find_build gr c sid s = (s1, Ok b)" "TerminalState (b_Status b)"
  shows "\<exists>s'. MonitorBuild gr send live gap1 gap2 c sid s = (s', Ok ())
    \<and> sent s' = sent s1 @ map (\<lambda>m. f (event_of b m))
        (b_Events b @ [''build has ended: '' @ BuildStatus_String (b_Status b)])"
proof -
  from send_history_all [OF assms(1)] obtain s2 where 2: "send_history send b (b_Events b) s1 = (s2, Ok ())"
    "sent s2 = sent s1 @ map (\<lambda>m. f (event_of b m)) (b_Events b)" by blast
  from assms(1) obtain s3 where 3:
    "send (event_of b (''build has ended: '' @ BuildStatus_String (b_Status b))) s2 = (s3, Ok ())"
    "sent s3 = sent s2 @ [f (event_of b (''build has ended: '' @ BuildStatus_String (b_Status b)))]"
    unfolding records_def by blast
  have "MonitorBuild gr send live gap1 gap2 c sid s = (s3, Ok ())"
    using assms(2,3) 2(1) 3(1) by (simp add: MonitorBuild_def bind_act_def)
  with 2 3 show ?thesis by simp
qed

fun send_all :: "bool list \<Rightarrow> BuildEvent list \<Rightarrow> MonitorStreamAdapter \<Rightarrow> MonitorStreamAdapter \<times> unit go" where
  "send_all ts [] msa = (msa, Ok ())"
| "send_all ts (e # es) msa =
     (case Send (hd ts) (Some e) msa of (msa', Ok _) \<Rightarrow> send_all (tl ts) es msa' | x \<Rightarrow> x)"

fun recv_all :: "nat \<Rightarrow> MonitorStreamAdapter \<Rightarrow> MonitorStreamAdapter \<times> BuildEvent list go" where
  "recv_all 0 msa = (msa, Ok [])"
| "recv_all (Suc n) msa =
     (case RecvMsg (EventMsg (Some (event_of zero_Build []))) msa of
        (msa', Ok e) \<Rightarrow> (case recv_all n msa' of (m2, Ok es) \<Rightarrow> (m2, Ok (e # es)) | (m2, x) \<Rightarrow> (m2, x))
      | (msa', Err e) \<Rightarrow> (msa', Err e) | (msa', Panic p) \<Rightarrow> (msa', Panic p))"

lemma send_all_queue:
  "send_all ts es msa = (msa', Ok ()) \<Longrightarrow> es \<noteq> [] \<Longrightarrow>
     msa_ctx msa = Active \<and> msa' = msa\<lparr>msa_c := msa_c msa @ map Some es\<rparr>"
proof (induction es arbitrary: ts msa)
  case (Cons e es)
  from Cons.prems(1) have "msa_ctx msa = Active"
    and r: "send_all (tl ts) es (msa\<lparr>msa_c := msa_c msa @ [Some e]\<rparr>) = (msa', Ok ())"
    by (auto simp: Send_def SendMsg_def checkCtx_def split: if_splits)
  with Cons.IH [OF r] show ?case by (cases es) auto
qed simp

lemma recv_all_queue:
  "msa_ctx msa = Active \<Longrightarrow> msa_c msa = map Some es @ rest \<Longrightarrow>
     recv_all (length es) msa = (msa\<lparr>msa_c := rest\<rparr>, Ok es)"
  by (induction es arbitrary: msa) (simp_all add: RecvMsg_def checkCtx_def)

text \<open>What was sent is received, in order.\<close>

lemma adapter_fifo:
  assumes "send_all ts es msa = (msa1, Ok ())" "es \<noteq> []" "msa_c msa = []"
  shows "\<exists>msa2. recv_all (length es) msa1 = (msa2, Ok es) \<and> msa_c msa2 = []"
proof -
  from send_all_queue [OF assms(1,2)] assms(3)
  have "msa_ctx msa1 = Active" "msa_c msa1 = map Some es @ []" by auto
  from recv_all_queue [OF this] show ?thesis by auto
qed

end
