(* ===== verification/Furan_Client.thy ===== *)
theory Furan_Client
  imports Furan_Grpc
begin

text \<open>
  \<^verbatim>\<open>pkg/client/client.go\<close> and the commands that use it: \<^verbatim>\<open>cmd/trigger.go\<close>, \<^verbatim>\<open>cmd/list.go\<close>,
  \<^verbatim>\<open>cmd/events.go\<close>, \<^verbatim>\<open>cmd/cancel.go\<close>.

  The generated stub (\<^verbatim>\<open>FuranExecutorClient\<close>) is a record of its methods.  What the RPC library does
  between the stub and the interceptor of the server is not furan's code: it is the hypothesis
  \<open>delivers\<close>.  A command returns the lines it printed and its error; the flags are the fields of a
  record.
\<close>

section \<open>Times\<close>

text \<open>
  \<^verbatim>\<open>Format(time.RFC3339)\<close> of a time in UTC.  \<open>civil\<close> is the date of the day that is \<open>days\<close> after
  January 1, year 1, by counting from March 1, year 0, in periods of 400 years.
\<close>

definition civil :: "int \<Rightarrow> int \<times> int \<times> int" where
  "civil days =
     (let z = days + 306;
          era = z div 146097;
          doe = z mod 146097;
          yoe = (doe - doe div 1460 + doe div 36524 - doe div 146096) div 365;
          doy = doe - (365 * yoe + yoe div 4 - yoe div 100);
          mp = (5 * doy + 2) div 153;
          d = doy - (153 * mp + 2) div 5 + 1;
          m = (if mp < 10 then mp + 3 else mp - 9)
      in (yoe + era * 400 + (if m \<le> 2 then 1 else 0), m, d))"

definition pad :: "nat \<Rightarrow> int \<Rightarrow> string" where
  "pad n i =
     (let ds = string_of_nat (nat \<bar>i\<bar>)
      in (if i < 0 then ''-'' else []) @ replicate (n - length ds) CHR ''0'' @ ds)"

definition Format_RFC3339 :: "gotime \<Rightarrow> string" where
  "Format_RFC3339 t =
     (let s = sint (tm_sec t);
          sod = s mod 86400
      in case civil (s div 86400) of (y, m, d) \<Rightarrow>
           pad 4 y @ ''-'' @ pad 2 m @ ''-'' @ pad 2 d @ ''T''
           @ pad 2 (sod div 3600) @ '':'' @ pad 2 (sod div 60 mod 60) @ '':'' @ pad 2 (sod mod 60) @ ''Z'')"

section \<open>The client\<close>

record rpcCreds =
  rc_apilabel :: string
  rc_apikey :: string

definition GetRequestMetadata :: "rpcCreds \<Rightarrow> (string \<times> string) list" where
  "GetRequestMetadata c = [(rc_apilabel c, rc_apikey c)]"

definition RequireTransportSecurity :: "rpcCreds \<Rightarrow> bool" where
  "RequireTransportSecurity c \<longleftrightarrow> True"

record client_Options =
  cl_Address :: string
  cl_APIKey :: string
  cl_TLSInsecureSkipVerify :: bool

text \<open>The stub.  A stream is the events it delivers and the error it ends with.\<close>

record 's FuranExecutorClient =
  fc_StartBuild :: "ctx \<Rightarrow> BuildRequest \<Rightarrow> ('s, string) act"
  fc_GetBuildStatus :: "ctx \<Rightarrow> string \<Rightarrow> ('s, BuildStatusResponse) act"
  fc_GetBuildEvents :: "ctx \<Rightarrow> string \<Rightarrow> ('s, BuildEventsResponse) act"
  fc_MonitorBuild :: "ctx \<Rightarrow> string \<Rightarrow> ('s, BuildEvent list \<times> goerr) act"
  fc_CancelBuild :: "ctx \<Rightarrow> string \<Rightarrow> ('s, string) act"
  fc_ListBuilds :: "ctx \<Rightarrow> ListBuildsRequest \<Rightarrow> ('s, BuildStatusResponse option list) act"

record tls_Config =
  tls_InsecureSkipVerify :: bool
  tls_RootCAs :: "string option"

definition DefaultCAPath :: string where
  "DefaultCAPath = ''/var/run/secrets/kubernetes.io/serviceaccount/ca.crt''"

text \<open>\<^verbatim>\<open>%q\<close> of a text whose characters outside ASCII are printable.\<close>

definition quote_char :: "char \<Rightarrow> string" where
  "quote_char c =
     (let n = (of_char c :: nat) in
      if n = 34 \<or> n = 92 then [byte 92, c]
      else if 7 \<le> n \<and> n \<le> 13 then [byte 92, ''abtnvfr'' ! (n - 7)]
      else if n < 32 \<or> n = 127 then [byte 92, CHR ''x'', hex_digit (n div 16), hex_digit (n mod 16)]
      else [c])"

definition Quote :: "string \<Rightarrow> string" where
  "Quote s = [byte 34] @ concat (map quote_char s) @ [byte 34]"

text \<open>
  \<open>readfile\<close> is \<^verbatim>\<open>ioutil.ReadFile\<close>, \<open>pem\<close> whether \<^verbatim>\<open>AppendCertsFromPEM\<close> finds a certificate, \<open>dial\<close>
  the connection with the credentials and the TLS configuration.
\<close>

definition client_New ::
  "(string \<Rightarrow> string go) \<Rightarrow> (string \<Rightarrow> bool)
     \<Rightarrow> (string \<Rightarrow> rpcCreds \<Rightarrow> tls_Config \<Rightarrow> 's FuranExecutorClient go) \<Rightarrow> client_Options
     \<Rightarrow> 's FuranExecutorClient go" where
  "client_New readfile pem dial opts =
     (let rc = \<lparr>rc_apilabel = APIKeyLabel, rc_apikey = cl_APIKey opts\<rparr>;
          t = \<lparr>tls_InsecureSkipVerify = cl_TLSInsecureSkipVerify opts, tls_RootCAs = None\<rparr>
      in bind_go
           (if cl_TLSInsecureSkipVerify opts then Ok t
            else case readfile DefaultCAPath of
                   Err e \<Rightarrow> Err (ErrMsg (''failed to read ca-path '' @ DefaultCAPath @ '' : '' @ Quote (errstr e)))
                 | Panic p \<Rightarrow> Panic p
                 | Ok caCert \<Rightarrow>
                     if \<not> pem caCert then
                       Err (ErrMsg ''failed to parse ca certificate as PEM encoded content'')
                     else Ok (t\<lparr>tls_RootCAs := Some caCert\<rparr>))
           (\<lambda>t. wrap_err ''error connecting to grpc server: '' (dial (cl_Address opts) rc t)))"

definition rb_StartBuild :: "'s FuranExecutorClient \<Rightarrow> ctx \<Rightarrow> BuildRequest \<Rightarrow> ('s, uuid) act" where
  "rb_StartBuild rb c req =
     bind_act (wrap_act ''error starting build: '' (fc_StartBuild rb c req)) (\<lambda>buildId.
       wrap_act ''malformed build id: '' (ret_act (FromString buildId)))"

definition rb_GetBuildStatus :: "'s FuranExecutorClient \<Rightarrow> ctx \<Rightarrow> uuid \<Rightarrow> ('s, BuildStatusResponse) act" where
  "rb_GetBuildStatus rb c bid =
     wrap_act ''error getting build status: '' (fc_GetBuildStatus rb c (uuid_String bid))"

definition rb_GetBuildEvents :: "'s FuranExecutorClient \<Rightarrow> ctx \<Rightarrow> uuid \<Rightarrow> ('s, BuildEventsResponse) act" where
  "rb_GetBuildEvents rb c bid =
     wrap_act ''error getting build events: '' (fc_GetBuildEvents rb c (uuid_String bid))"

definition rb_CancelBuild :: "'s FuranExecutorClient \<Rightarrow> ctx \<Rightarrow> uuid \<Rightarrow> ('s, unit) act" where
  "rb_CancelBuild rb c bid = bind_act (fc_CancelBuild rb c (uuid_String bid)) (\<lambda>_. ret_act (Ok ()))"

definition rb_MonitorBuild :: "'s FuranExecutorClient \<Rightarrow> ctx \<Rightarrow> uuid \<Rightarrow> ('s, BuildEvent list \<times> goerr) act" where
  "rb_MonitorBuild rb c bid = fc_MonitorBuild rb c (uuid_String bid)"

definition zero_StatusResponse :: BuildStatusResponse where
  "zero_StatusResponse =
     \<lparr>sr_BuildId = [], sr_BuildRequest = None, sr_State = 0, sr_Started = None, sr_Completed = None\<rparr>"

definition rb_ListBuilds ::
  "'s FuranExecutorClient \<Rightarrow> ctx \<Rightarrow> ListBuildsRequest \<Rightarrow> ('s, BuildStatusResponse list) act" where
  "rb_ListBuilds rb c req =
     bind_act (wrap_act ''error listing builds: '' (fc_ListBuilds rb c req)) (\<lambda>builds.
       ret_act (Ok (map (\<lambda>b. case b of None \<Rightarrow> zero_StatusResponse | Some bs \<Rightarrow> bs) builds)))"

section \<open>furan trigger\<close>

record trigger_vars =
  tv_Build :: BuildDefinition
  tv_SkipIfExists :: bool
  tv_imagerepos :: "string list"
  tv_tags :: "string list"
  tv_buildArgs :: "string list"
  tv_cachetype :: string
  tv_cachemaxmode :: bool
  tv_monitorBuild :: bool

text \<open>The flags when none is given; \<open>getenv\<close> is \<^verbatim>\<open>os.Getenv\<close>.\<close>

definition trigger_defaults :: "(string \<Rightarrow> string) \<Rightarrow> trigger_vars" where
  "trigger_defaults getenv =
     \<lparr>tv_Build =
        \<lparr>bd_GithubRepo = [], bd_GithubCredential = getenv ''GITHUB_TOKEN'', bd_DockerfilePath = ''.'',
         bd_Ref = ''master'', bd_Tags = [], bd_TagWithCommitSha = True, bd_Args = [], bd_CacheOptions = None,
         bd_Resources = Some zero_Resources\<rparr>,
      tv_SkipIfExists = False, tv_imagerepos = [], tv_tags = [], tv_buildArgs = [], tv_cachetype = ''disabled'',
      tv_cachemaxmode = False, tv_monitorBuild = True\<rparr>"

text \<open>Lines 76 to 99: the request.\<close>

definition trigger_request :: "trigger_vars \<Rightarrow> BuildRequest go" where
  "trigger_request v =
     (let push = \<lparr>pd_Registries = map (\<lambda>r. Some \<lparr>pr_Repo = r\<rparr>) (tv_imagerepos v)\<rparr>;
          d = (tv_Build v)\<lparr>bd_Tags := tv_tags v\<rparr>;
          req = (\<lambda>ty. Ok \<lparr>rq_Build = Some (d\<lparr>bd_CacheOptions := Some \<lparr>co_Type = ty, co_MaxMode = tv_cachemaxmode v\<rparr>\<rparr>),
                          rq_Push = Some push, rq_SkipIfExists = tv_SkipIfExists v\<rparr>)
      in if \<not> bd_TagWithCommitSha d \<and> tv_tags v = [] then
           Err (ErrMsg ''at least one tag is required if not tagging with commit SHA'')
         else if tv_cachetype v = ''disabled'' then req BuildCacheOpts_DISABLED
         else if tv_cachetype v = ''s3'' then req BuildCacheOpts_S3
         else if tv_cachetype v = ''inline'' then req BuildCacheOpts_INLINE
         else Err (ErrMsg (''unknown or invalid build cache type: '' @ tv_cachetype v)))"

definition event_line :: "BuildEvent \<Rightarrow> string" where
  "event_line be =
     ev_Message be
     @ (if ev_CurrentState be \<noteq> BuildState_RUNNING
        then '' (status: '' @ BuildState_String (ev_CurrentState be) @ '')'' else [])"

definition duration_text :: "BuildStatusResponse \<Rightarrow> string" where
  "duration_text bs =
     (case (sr_Started bs, sr_Completed bs) of
        (Some st, Some co) \<Rightarrow>
          '' (duration: ''
          @ Duration_String (sint (time_Sub (TimeFromRPCTimestamp co) (TimeFromRPCTimestamp st))) @ '') ''
      | _ \<Rightarrow> '' '')"

text \<open>Lines 111 to 145.\<close>

definition trigger_monitor :: "'s FuranExecutorClient \<Rightarrow> uuid \<Rightarrow> 's \<Rightarrow> 's \<times> string list \<times> unit go" where
  "trigger_monitor rb bid s =
     (case rb_MonitorBuild rb Active bid s of
        (s1, Err e) \<Rightarrow> (s1, [], Err (Wrapf ''error monitoring build: '' e))
      | (s1, Panic p) \<Rightarrow> (s1, [], Panic p)
      | (s1, Ok (evs, end)) \<Rightarrow>
          (let ls = map event_line evs in
           if end \<noteq> ErrEOF then (s1, ls, Err (Wrapf ''error getting build message: '' end))
           else
             (case rb_GetBuildStatus rb Background bid s1 of
                (s2, Err e) \<Rightarrow> (s2, ls, Err (Wrapf ''error getting final build status: '' e))
              | (s2, Panic p) \<Rightarrow> (s2, ls, Panic p)
              | (s2, Ok bs) \<Rightarrow>
                  (s2, ls @ [''build completed: state: '' @ BuildState_String (sr_State bs) @ duration_text bs
                             @ ''('' @ itoa (int (length evs)) @ '' msgs received)''], Ok ()))))"

definition trigger :: "'s FuranExecutorClient go \<Rightarrow> trigger_vars \<Rightarrow> 's \<Rightarrow> 's \<times> string list \<times> unit go" where
  "trigger newclient v s =
     (case newclient of
        Err e \<Rightarrow> (s, [], Err (Wrapf ''error creating rpc client: '' e))
      | Panic p \<Rightarrow> (s, [], Panic p)
      | Ok rb \<Rightarrow>
          (case trigger_request v of
             Err e \<Rightarrow> (s, [], Err e)
           | Panic p \<Rightarrow> (s, [], Panic p)
           | Ok req \<Rightarrow>
               (case rb_StartBuild rb Active req s of
                  (s1, Err e) \<Rightarrow> (s1, [], Err (Wrapf ''error triggering build: '' e))
                | (s1, Panic p) \<Rightarrow> (s1, [], Panic p)
                | (s1, Ok bid) \<Rightarrow>
                    (let l = ''build started: '' @ uuid_String bid in
                     if tv_monitorBuild v then
                       (case trigger_monitor rb bid s1 of (s2, ls, r) \<Rightarrow> (s2, l # ls, r))
                     else (s1, [l], Ok ())))))"

section \<open>furan list\<close>

definition cliStatuses :: "(string \<times> BuildStatus) list" where
  "cliStatuses =
     [(''notstarted'', BuildStatusNotStarted), (''running'', BuildStatusRunning),
      (''skipped'', BuildStatusSkipped), (''failure'', BuildStatusFailure),
      (''success'', BuildStatusSuccess), (''cancelrequested'', BuildStatusCancelRequested),
      (''cancelled'', BuildStatusCancelled)]"

record list_vars =
  lv_listOps :: ListBuildsRequest
  lv_statusstr :: string
  lv_completedafter :: "64 word"
  lv_startedafter :: "64 word"
  lv_completedbefore :: "64 word"
  lv_startedbefore :: "64 word"

definition list_defaults :: list_vars where
  "list_defaults =
     \<lparr>lv_listOps =
        \<lparr>lr_WithGithubRepo = [], lr_WithGithubRef = [], lr_WithImageRepo = [], lr_WithBuildState = BuildState_UNKNOWN,
         lr_CompletedAfter = None, lr_StartedAfter = None, lr_CompletedBefore = None, lr_StartedBefore = None,
         lr_Limit = 0\<rparr>,
      lv_statusstr = [], lv_completedafter = 0, lv_startedafter = 0, lv_completedbefore = 0, lv_startedbefore = 0\<rparr>"

definition timeListOps :: "gotime \<Rightarrow> list_vars \<Rightarrow> ListBuildsRequest \<Rightarrow> ListBuildsRequest" where
  "timeListOps now v ops =
     (let ts = (\<lambda>d. Some (RPCTimestampFromTime (time_Add now (- d))));
          ops = (if lv_completedafter v \<noteq> 0 then ops\<lparr>lr_CompletedAfter := ts (lv_completedafter v)\<rparr> else ops);
          ops = (if lv_startedafter v \<noteq> 0 then ops\<lparr>lr_StartedAfter := ts (lv_startedafter v)\<rparr> else ops);
          ops = (if lv_completedbefore v \<noteq> 0 then ops\<lparr>lr_CompletedBefore := ts (lv_completedbefore v)\<rparr> else ops)
      in if lv_startedbefore v \<noteq> 0 then ops\<lparr>lr_StartedBefore := ts (lv_startedbefore v)\<rparr> else ops)"

text \<open>
  Lines 89 to 97; \<open>keys\<close> is \<^verbatim>\<open>smkeys\<close>, the names of the statuses in the order in which Go visited the
  map.
\<close>

definition list_request :: "string \<Rightarrow> gotime \<Rightarrow> list_vars \<Rightarrow> ListBuildsRequest go" where
  "list_request keys now v =
     (if lv_statusstr v \<noteq> [] then
        (case map_of cliStatuses (lv_statusstr v) of
           None \<Rightarrow>
             Err (ErrMsg (''invalid or unknown status: '' @ lv_statusstr v @ '' (wanted one of: '' @ keys @ '')''))
         | Some s \<Rightarrow> Ok (timeListOps now v ((lv_listOps v)\<lparr>lr_WithBuildState := State s\<rparr>)))
      else Ok (timeListOps now v (lv_listOps v)))"

text \<open>A row, its columns separated by tabs; the pointers of the response are followed unchecked.\<close>

definition tab :: string where
  "tab = [byte 9]"

definition list_row :: "BuildStatusResponse \<Rightarrow> string go" where
  "list_row b =
     (case sr_BuildRequest b of
        None \<Rightarrow> Panic nil_deref
      | Some req \<Rightarrow>
          (case rq_Build req of
             None \<Rightarrow> Panic nil_deref
           | Some d \<Rightarrow>
               (case sr_Started b of
                  None \<Rightarrow> Panic nil_deref
                | Some st \<Rightarrow>
                    Ok (Join [sr_BuildId b, bd_GithubRepo d, BuildState_String (sr_State b),
                              Format_RFC3339 (TimeFromRPCTimestamp st),
                              case sr_Completed b of
                                None \<Rightarrow> []
                              | Some co \<Rightarrow> Format_RFC3339 (TimeFromRPCTimestamp co)] tab))))"

fun list_rows :: "BuildStatusResponse list \<Rightarrow> string list go" where
  "list_rows [] = Ok []"
| "list_rows (b # bs) = bind_go (list_row b) (\<lambda>r. bind_go (list_rows bs) (\<lambda>rs. Ok (r # rs)))"

text \<open>
  The lines that are written to the table writer, which aligns the columns and is flushed at the
  end; after a panic nothing was printed.
\<close>

definition list_header :: string where
  "list_header = Join [''BUILD ID'', ''GITHUB REPO'', ''STATUS'', ''STARTED'', ''COMPLETED''] tab"

definition list_cmd ::
  "'s FuranExecutorClient go \<Rightarrow> string \<Rightarrow> gotime \<Rightarrow> list_vars \<Rightarrow> 's \<Rightarrow> 's \<times> string list \<times> unit go" where
  "list_cmd newclient keys now v s =
     (case list_request keys now v of
        Err e \<Rightarrow> (s, [], Err e)
      | Panic p \<Rightarrow> (s, [], Panic p)
      | Ok req \<Rightarrow>
          (case newclient of
             Err e \<Rightarrow> (s, [], Err (Wrapf ''error creating rpc client: '' e))
           | Panic p \<Rightarrow> (s, [], Panic p)
           | Ok rb \<Rightarrow>
               (case rb_ListBuilds rb Background req s of
                  (s1, Err e) \<Rightarrow> (s1, [], Err e)
                | (s1, Panic p) \<Rightarrow> (s1, [], Panic p)
                | (s1, Ok builds) \<Rightarrow>
                    (case list_rows builds of
                       Ok rows \<Rightarrow> (s1, list_header # rows, Ok ())
                     | Err e \<Rightarrow> (s1, [], Err e)
                     | Panic p \<Rightarrow> (s1, [], Panic p)))))"

section \<open>furan events and furan cancel\<close>

definition events :: "'s FuranExecutorClient go \<Rightarrow> string \<Rightarrow> 's \<Rightarrow> 's \<times> string list \<times> unit go" where
  "events newclient ids s =
     (if ids = [] then (s, [], Err (ErrMsg ''build id is required''))
      else case FromString ids of
             Err e \<Rightarrow> (s, [], Err (Wrapf ''invalid build id: '' e))
           | Panic p \<Rightarrow> (s, [], Panic p)
           | Ok bid \<Rightarrow>
               (case newclient of
                  Err e \<Rightarrow> (s, [], Err (Wrapf ''error creating rpc client: '' e))
                | Panic p \<Rightarrow> (s, [], Panic p)
                | Ok rb \<Rightarrow>
                    (case rb_GetBuildEvents rb Background bid s of
                       (s1, Err e) \<Rightarrow> (s1, [], Err (Wrapf ''error getting build events: '' e))
                     | (s1, Panic p) \<Rightarrow> (s1, [], Panic p)
                     | (s1, Ok resp) \<Rightarrow>
                         (s1, er_Messages resp @ [''STATUS: '' @ BuildState_String (er_CurrentState resp)], Ok ()))))"

definition cancel :: "'s FuranExecutorClient go \<Rightarrow> string \<Rightarrow> 's \<Rightarrow> 's \<times> string list \<times> unit go" where
  "cancel newclient cancelBuildID s =
     (case newclient of
        Err e \<Rightarrow> (s, [], Err (Wrapf ''error creating rpc client: '' e))
      | Panic p \<Rightarrow> (s, [], Panic p)
      | Ok rb \<Rightarrow>
          (case FromString cancelBuildID of
             Err e \<Rightarrow> (s, [], Err (Wrapf ''malformed or invalid build id: '' e))
           | Panic p \<Rightarrow> (s, [], Panic p)
           | Ok bid \<Rightarrow>
               (case rb_CancelBuild rb Background bid s of
                  (s1, Err e) \<Rightarrow> (s1, [], Err (Wrapf ''error sending cancel request: '' e))
                | (s1, Panic p) \<Rightarrow> (s1, [], Panic p)
                | (s1, Ok _) \<Rightarrow> (s1, [''build cancellation requested: '' @ uuid_String bid], Ok ()))))"

section \<open>Client and server\<close>

text \<open>
  A remote call and the handler that answers it: the value and the error of the handler arrive, and
  the crash of the server is an error.
\<close>

definition answered :: "('s, 'b) act \<Rightarrow> ('s, 'a) act \<Rightarrow> ('a \<Rightarrow> 'b) \<Rightarrow> bool" where
  "answered call handler f \<longleftrightarrow>
     (\<forall>s. case handler s of
            (s', Ok x) \<Rightarrow> call s = (s', Ok (f x))
          | (s', Err e) \<Rightarrow> call s = (s', Err e)
          | (s', Panic p) \<Rightarrow> (\<exists>e. call s = (s', Err e)))"

lemma answered_Ok:
  "answered call handler f \<Longrightarrow> call s = (s', Ok y) \<Longrightarrow> \<exists>x. handler s = (s', Ok x) \<and> y = f x"
  unfolding answered_def by (drule spec [of _ s]) (auto split: prod.splits go.splits)

text \<open>
  What the RPC library promises: the calls of a stub whose connection has the credentials \<open>rc\<close> reach
  the interceptor of the server under the names of the generated code, with the request metadata of
  \<open>rc\<close>.
\<close>

definition method_name :: "string \<Rightarrow> string" where
  "method_name m = ''/'' @ serviceName @ ''/'' @ m"

definition call_metadata :: "rpcCreds \<Rightarrow> metadata" where
  "call_metadata rc = map (\<lambda>(k, v). (k, [v])) (GetRequestMetadata rc)"

definition delivers ::
  "(string \<Rightarrow> string \<Rightarrow> string \<Rightarrow> string) \<Rightarrow> string \<times> nat \<times> goerr option \<Rightarrow> 'q quantity_lib \<Rightarrow> ('s, 'q) Server
     \<Rightarrow> rpcCreds \<Rightarrow> 's FuranExecutorClient \<Rightarrow> bool" where
  "delivers seal rd ql gr rc rb \<longleftrightarrow>
     (let md = Some (call_metadata rc)
      in (\<forall>c req. answered (fc_StartBuild rb c req) (intercept gr c md (method_name ''StartBuild'') (StartBuild seal rd ql gr c req)) fst)
         \<and> (\<forall>c i. answered (fc_GetBuildStatus rb c i) (intercept gr c md (method_name ''GetBuildStatus'') (GetBuildStatus gr c i)) (\<lambda>x. x))
         \<and> (\<forall>c i. answered (fc_GetBuildEvents rb c i) (intercept gr c md (method_name ''GetBuildEvents'') (GetBuildEvents gr c i)) (\<lambda>x. x))
         \<and> (\<forall>c i. answered (fc_CancelBuild rb c i) (intercept gr c md (method_name ''CancelBuild'') (grpc_CancelBuild gr c i)) (\<lambda>x. x))
         \<and> (\<forall>c req. answered (fc_ListBuilds rb c req) (intercept gr c md (method_name ''ListBuilds'') (grpc_ListBuilds gr c req)) (map Some)))"

text \<open>Dialling: every connection has the credentials it was dialled with.\<close>

definition dials where
  "dials seal rd ql gr dial \<longleftrightarrow> (\<forall>addr rc t rb. dial addr rc t = Ok rb \<longrightarrow> delivers seal rd ql gr rc rb)"

text \<open>
  A client is only connected when the certificates are checked against the CA of the cluster, or
  when the caller asked not to check them; it presents the API key of the options.
\<close>

lemma client_New_Ok:
  assumes "client_New readfile pem dial opts = Ok rb"
  shows "\<exists>t. dial (cl_Address opts) \<lparr>rc_apilabel = APIKeyLabel, rc_apikey = cl_APIKey opts\<rparr> t = Ok rb
    \<and> tls_InsecureSkipVerify t = cl_TLSInsecureSkipVerify opts
    \<and> (cl_TLSInsecureSkipVerify opts \<or> (\<exists>ca. readfile DefaultCAPath = Ok ca \<and> pem ca \<and> tls_RootCAs t = Some ca))"
proof (cases "cl_TLSInsecureSkipVerify opts")
  case False
  with assms obtain ca where "readfile DefaultCAPath = Ok ca" "pem ca"
    "dial (cl_Address opts) \<lparr>rc_apilabel = APIKeyLabel, rc_apikey = cl_APIKey opts\<rparr>
       \<lparr>tls_InsecureSkipVerify = False, tls_RootCAs = Some ca\<rparr> = Ok rb"
    by (auto simp: client_New_def Let_def bind_go_eq_Ok split: go.splits if_splits)
  with False show ?thesis by auto
qed (use assms in \<open>auto simp: client_New_def Let_def bind_go_eq_Ok\<close>)

lemma call_metadata_key:
  "md_Get (call_metadata \<lparr>rc_apilabel = APIKeyLabel, rc_apikey = k\<rparr>) APIKeyLabel = [k]"
  by (simp add: call_metadata_def GetRequestMetadata_def md_Get_def)

text \<open>A successful call: the key was that of a stored key that may call the method.\<close>

context data_layer
begin

lemma intercept_Ok:
  assumes "inv s" "gr_DL gr = dl" "gr_methods gr = Some methods" "map_of methods m = Some ro"
    and "intercept gr c (Some (call_metadata \<lparr>rc_apilabel = APIKeyLabel, rc_apikey = k\<rparr>)) m handler s = (s', Ok x)"
  shows "\<exists>s1 kid akey. FromString k = Ok kid \<and> keys s kid = Some akey \<and> (ak_ReadOnly akey \<longrightarrow> ro)
    \<and> inv s1 \<and> view s1 = view s \<and> handler s1 = (s', Ok x)"
proof -
  from assms(5) obtain s1 where a: "apiKeyAuth gr c (Some (call_metadata \<lparr>rc_apilabel = APIKeyLabel, rc_apikey = k\<rparr>)) m s = (s1, True)"
    and h: "handler s1 = (s', Ok x)"
    by (auto simp: intercept_def split: prod.splits bool.splits)
  from apiKeyAuth_sound [OF a] assms(2-4) call_metadata_key obtain kid akey
    where k: "FromString k = Ok kid" "dl_GetAPIKey dl c kid s = (s1, Ok akey)" "ak_ReadOnly akey \<longrightarrow> ro"
    by auto
  from getkey_step [OF assms(1) k(2)] k h show ?thesis by blast
qed

end

section \<open>Lemmas: listing\<close>

lemma RPC_time_Add [simp]: "TimeFromRPCTimestamp (RPCTimestampFromTime (time_Add t d)) = time_Add t d"
  by (rule TimeFromRPC_RPCTimestamp [OF time_Add_valid])

text \<open>The options that the flags stand for.\<close>

definition list_options :: "gotime \<Rightarrow> list_vars \<Rightarrow> ListBuildsOptions" where
  "list_options now v =
     (let ago = (\<lambda>d. if d = 0 then zero_time else time_Add now (- d)) in
      \<lparr>lo_WithGitHubRepo = lr_WithGithubRepo (lv_listOps v), lo_WithGitHubRef = lr_WithGithubRef (lv_listOps v),
       lo_WithImageRepo = lr_WithImageRepo (lv_listOps v),
       lo_WithStatus = (case map_of cliStatuses (lv_statusstr v) of None \<Rightarrow> BuildStatusUnknown | Some st \<Rightarrow> st),
       lo_CompletedAfter = ago (lv_completedafter v), lo_StartedAfter = ago (lv_startedafter v),
       lo_CompletedBefore = ago (lv_completedbefore v), lo_StartedBefore = ago (lv_startedbefore v),
       lo_Limit = 0\<rparr>)"

text \<open>The fields of the request that no flag sets.\<close>

definition flags_only :: "ListBuildsRequest \<Rightarrow> bool" where
  "flags_only r \<longleftrightarrow> lr_WithBuildState r = BuildState_UNKNOWN \<and> lr_CompletedAfter r = None \<and> lr_StartedAfter r = None
     \<and> lr_CompletedBefore r = None \<and> lr_StartedBefore r = None \<and> lr_Limit r = 0"

text \<open>The flag \<^verbatim>\<open>--build-arg\<close> has no effect: no field of the request is set from it.\<close>

lemma build_args_ignored: "trigger newclient (v\<lparr>tv_buildArgs := args\<rparr>) s = trigger newclient v s"
proof -
  have "trigger_request (v\<lparr>tv_buildArgs := args\<rparr>) = trigger_request v" by (simp add: trigger_request_def Let_def)
  then show ?thesis by (simp add: trigger_def split: go.split prod.split)
qed

text \<open>Without a flag the request is empty, and the server refuses it.\<close>

lemma list_defaults_refused:
  "list_request keys now list_defaults = Ok (lv_listOps list_defaults)
   \<and> grpc_ListBuilds gr c (lv_listOps list_defaults) s = (s, status_err InvalidArgument ''at least one list option is required'')"
  by (simp add: list_request_def timeListOps_def list_defaults_def grpc_ListBuilds_def)

text \<open>Without flags the request is valid but for the repository and the image repositories.\<close>

lemma trigger_defaults_request:
  "\<exists>req d. trigger_request (trigger_defaults getenv) = Ok req \<and> rq_Build req = Some d \<and> bd_GithubRepo d = []
     \<and> bd_Ref d = ''master'' \<and> bd_TagWithCommitSha d \<and> GetRegistries (rq_Push req) = []"
  by (simp add: trigger_request_def trigger_defaults_def GetRegistries_def Let_def)

lemma cliStatuses_states: "map_of cliStatuses x = Some st \<Longrightarrow> BuildStatusFromState (State st) = st \<and> x \<noteq> []"
  by (auto simp: cliStatuses_def State_def BuildStatusFromState_def split: if_splits)

lemma list_request_options:
  assumes "flags_only (lv_listOps v)" "list_request keys now v = Ok req"
  shows "datalayerListBuildsOptions req = list_options now v"
proof -
  define st where "st = (case map_of cliStatuses (lv_statusstr v) of None \<Rightarrow> BuildStatusUnknown | Some st \<Rightarrow> st)"
  have req: "req = timeListOps now v ((lv_listOps v)\<lparr>lr_WithBuildState := State st\<rparr>)"
  proof (cases "lv_statusstr v = []")
    case True
    then have "st = BuildStatusUnknown" using cliStatuses_states by (auto simp: st_def split: option.splits)
    moreover have "(lv_listOps v)\<lparr>lr_WithBuildState := 0\<rparr> = lv_listOps v"
      using assms(1) by (cases "lv_listOps v") (simp add: flags_only_def)
    ultimately show ?thesis using assms(2) True by (simp add: list_request_def State_def)
  next
    case False
    with assms(2) show ?thesis by (auto simp: list_request_def st_def split: option.splits)
  qed
  have "BuildStatusFromState (State st) = st"
  proof (cases "map_of cliStatuses (lv_statusstr v)")
    case None
    then show ?thesis by (simp add: st_def State_def BuildStatusFromState_def)
  qed (simp add: st_def cliStatuses_states)
  with assms(1) show ?thesis
    by (simp add: req list_options_def st_def [symmetric] timeListOps_def datalayerListBuildsOptions_def flags_only_def Let_def)
qed

text \<open>Every row of a listing that the server answered can be printed.\<close>

lemma list_row_build:
  assumes "rq_Build (b_Request b) = Some d"
  shows "list_row (buildStatusResponseFromBuild b) =
    Ok (Join [uuid_String (b_ID b), bd_GithubRepo d, BuildState_String (State (b_Status b)),
      Format_RFC3339 (TimeFromRPCTimestamp (RPCTimestampFromTime (b_Created b))),
      if IsZero (b_Completed b) then ''1970-01-01T00:00:00Z''
      else Format_RFC3339 (TimeFromRPCTimestamp (RPCTimestampFromTime (b_Completed b)))] tab)"
proof -
  have "Format_RFC3339 (TimeFromRPCTimestamp zero_Timestamp) = ''1970-01-01T00:00:00Z''" by code_simp
  with assms show ?thesis by (simp add: list_row_def buildStatusResponseFromBuild_def)
qed

lemma list_rows_Ok:
  "list_rows (map f builds) = Ok rows \<Longrightarrow> map Ok rows = map (\<lambda>b. list_row (f b)) builds"
  by (induction builds arbitrary: rows) (auto simp: bind_go_eq_Ok)

lemma list_rows_builds:
  assumes "\<And>b. b \<in> set builds \<Longrightarrow> rq_Build (b_Request b) \<noteq> None"
  shows "\<exists>rows. list_rows (map buildStatusResponseFromBuild builds) = Ok rows
    \<and> map Ok rows = map (\<lambda>b. list_row (buildStatusResponseFromBuild b)) builds"
  using assms
proof (induction builds)
  case (Cons b builds)
  from Cons.prems [of b] obtain d where "rq_Build (b_Request b) = Some d" by auto
  from list_row_build [OF this] obtain r where "list_row (buildStatusResponseFromBuild b) = Ok r" by blast
  with Cons show ?case by auto
qed simp

end
