(* ===== verification/Furan_Secrets.thy ===== *)
theory Furan_Secrets
  imports Furan_Models
begin

text \<open>
  \<^verbatim>\<open>pkg/config/config.go\<close>, \<^verbatim>\<open>pkg/secrets/secrets.go\<close> and the functions of \<^verbatim>\<open>cmd/root.go\<close> that
  fetch secrets.

  The client library (\<^verbatim>\<open>pvc\<close>) is an argument: \<open>newclient\<close> is \<^verbatim>\<open>pvc.NewSecretsClient\<close> on the list
  of its options, and a client is the record of its \<^verbatim>\<open>Fill\<close>, one function for each type of
  configuration that is passed to it.  A call of \<^verbatim>\<open>Fill\<close> returns the configuration as it leaves it.
\<close>

section \<open>Configurations\<close>

record VaultConfig =
  vc_Addr :: string
  vc_Token :: string
  vc_TokenAuth :: bool
  vc_K8sAuth :: bool
  vc_K8sJWTPath :: string
  vc_K8sAuthPath :: string
  vc_K8sRole :: string

record GitHubConfig =
  ghc_Token :: string

record QuayConfig =
  qyc_Token :: string

record AWSConfig =
  aws_Region :: string
  aws_CacheBucket :: string
  aws_CacheHost :: string
  aws_CacheKeyPrefix :: string
  aws_AccessKeyID :: string
  aws_SecretAccessKey :: string
  aws_EnableECR :: bool
  aws_ECRRegistryHosts :: "string list"

record GCRConfig =
  gcrc_ServiceAccount :: string

text \<open>The key is a slice, the array always has 32 bytes.\<close>

record DBConfig =
  db_PostgresURI :: string
  db_CredentialEncryptionKey :: string
  db_CredEncKeyArray :: string

definition zero_DBConfig :: DBConfig where
  "zero_DBConfig =
     \<lparr>db_PostgresURI = [], db_CredentialEncryptionKey = [], db_CredEncKeyArray = replicate 32 (byte 0)\<rparr>"

section \<open>The fetcher\<close>

type_synonym BackendType = int

abbreviation (input) "UnknownBackend \<equiv> 0 :: int"
abbreviation (input) "VaultBackend \<equiv> 1 :: int"
abbreviation (input) "JSONBackend \<equiv> 2 :: int"
abbreviation (input) "EnvVarBackend \<equiv> 3 :: int"
abbreviation (input) "FileTreeBackend \<equiv> 4 :: int"

text \<open>The options of the library that furan passes.\<close>

datatype vault_auth = NoVaultAuth | TokenVaultAuth | K8sVaultAuth

datatype pvc_option =
  WithVaultToken string
| WithVaultK8sAuth string string
| WithVaultK8sAuthPath string
| WithVaultBackend vault_auth string
| WithJSONFileBackend string
| WithEnvVarBackend
| WithFileTreeBackend string
| WithMapping string

record SecretsClient =
  sc_FillGitHub :: "GitHubConfig \<Rightarrow> GitHubConfig \<times> unit go"
  sc_FillQuay :: "QuayConfig \<Rightarrow> QuayConfig \<times> unit go"
  sc_FillGCR :: "GCRConfig \<Rightarrow> GCRConfig \<times> unit go"
  sc_FillAWS :: "AWSConfig \<Rightarrow> AWSConfig \<times> unit go"
  sc_FillDB :: "DBConfig \<Rightarrow> DBConfig \<times> unit go"

record Fetcher =
  f_Backend :: BackendType
  f_Mapping :: string
  f_JSONFile :: string
  f_FileTreeRoot :: string
  f_VaultOptions :: VaultConfig
  f_sc :: "SecretsClient option"

definition maxJWTSizeBytes :: int where
  "maxJWTSizeBytes = 4096"

text \<open>The file of the JSON web token: what \<^verbatim>\<open>Open\<close>, \<^verbatim>\<open>Stat\<close> (its size) and \<^verbatim>\<open>ReadAll\<close> return.\<close>

record jwt_file =
  jf_Open :: "string \<Rightarrow> unit go"
  jf_Size :: "string \<Rightarrow> int go"
  jf_ReadAll :: "string \<Rightarrow> string go"

text \<open>Lines 58 to 80: the token is read, unless the file is too large.\<close>

definition k8s_options :: "jwt_file \<Rightarrow> VaultConfig \<Rightarrow> pvc_option list go" where
  "k8s_options jf vo =
     bind_go (wrap_err ''error opening k8s jwt: '' (jf_Open jf (vc_K8sJWTPath vo))) (\<lambda>_.
     bind_go (wrap_err ''error stating k8s jwt: '' (jf_Size jf (vc_K8sJWTPath vo))) (\<lambda>size.
     if maxJWTSizeBytes < size then
       Err (ErrMsg (''k8s jwt exceeds max size ('' @ itoa maxJWTSizeBytes @ ''): '' @ itoa size))
     else
       bind_go (wrap_err ''error reading k8s jwt: '' (jf_ReadAll jf (vc_K8sJWTPath vo))) (\<lambda>jwt.
       Ok [WithVaultK8sAuth jwt (vc_K8sRole vo), WithVaultK8sAuthPath (vc_K8sAuthPath vo)])))"

text \<open>Lines 44 to 91: the options for the client.\<close>

definition backend_options :: "jwt_file \<Rightarrow> Fetcher \<Rightarrow> pvc_option list go" where
  "backend_options jf f =
     (let vo = f_VaultOptions f in
      if f_Backend f = VaultBackend then
        (if \<not> vc_TokenAuth vo \<and> \<not> vc_K8sAuth vo then
           Err (ErrMsg ''at least one vault auth option is required'')
         else if vc_TokenAuth vo \<and> vc_K8sAuth vo then
           Err (ErrMsg ''only one vault auth option is allowed'')
         else if vc_K8sAuth vo then
           bind_go (k8s_options jf vo) (\<lambda>ops. Ok (ops @ [WithVaultBackend K8sVaultAuth (vc_Addr vo)]))
         else Ok [WithVaultToken (vc_Token vo), WithVaultBackend TokenVaultAuth (vc_Addr vo)])
      else if f_Backend f = JSONBackend then Ok [WithJSONFileBackend (f_JSONFile f)]
      else if f_Backend f = EnvVarBackend then Ok [WithEnvVarBackend]
      else if f_Backend f = FileTreeBackend then Ok [WithFileTreeBackend (f_FileTreeRoot f)]
      else Err (ErrMsg (''unknown backend type: '' @ itoa (f_Backend f))))"

definition fetcher_init ::
  "jwt_file \<Rightarrow> (pvc_option list \<Rightarrow> SecretsClient go) \<Rightarrow> Fetcher \<Rightarrow> Fetcher \<times> unit go" where
  "fetcher_init jf newclient f =
     (case bind_go (backend_options jf f) (\<lambda>ops.
             wrap_err ''error creating secrets client: '' (newclient (ops @ [WithMapping (f_Mapping f)]))) of
        Ok sc \<Rightarrow> (f\<lparr>f_sc := Some sc\<rparr>, Ok ())
      | Err e \<Rightarrow> (f, Err e)
      | Panic p \<Rightarrow> (f, Panic p))"

text \<open>The beginning that the five calls share: the client is created at the first one.\<close>

definition with_client ::
  "jwt_file \<Rightarrow> (pvc_option list \<Rightarrow> SecretsClient go) \<Rightarrow> (SecretsClient \<Rightarrow> 'c \<times> unit go) \<Rightarrow> 'c \<Rightarrow> Fetcher
     \<Rightarrow> Fetcher \<times> 'c \<times> unit go" where
  "with_client jf newclient use cfg f =
     (case (case f_sc f of None \<Rightarrow> fetcher_init jf newclient f | Some _ \<Rightarrow> (f, Ok ())) of
        (f1, Err e) \<Rightarrow> (f1, cfg, Err e)
      | (f1, Panic p) \<Rightarrow> (f1, cfg, Panic p)
      | (f1, Ok _) \<Rightarrow>
          (case f_sc f1 of
             None \<Rightarrow> (f1, cfg, Panic ''invalid memory address or nil pointer dereference'')
           | Some sc \<Rightarrow> (f1, use sc)))"

definition f_GitHub where
  "f_GitHub jf newclient gc = with_client jf newclient (\<lambda>sc. sc_FillGitHub sc gc) gc"

definition f_Quay where
  "f_Quay jf newclient qc = with_client jf newclient (\<lambda>sc. sc_FillQuay sc qc) qc"

definition f_GCR where
  "f_GCR jf newclient gc = with_client jf newclient (\<lambda>sc. sc_FillGCR sc gc) gc"

definition f_AWS where
  "f_AWS jf newclient ac = with_client jf newclient (\<lambda>sc. sc_FillAWS sc ac) ac"

text \<open>Lines 142 to 150.\<close>

definition take_key :: "DBConfig \<times> unit go \<Rightarrow> DBConfig \<times> unit go" where
  "take_key filled =
     (case filled of
        (dc, Ok _) \<Rightarrow>
          (let i = length (db_CredentialEncryptionKey dc)
           in if i \<noteq> 32 then
                (dc, Err (ErrMsg (''bad size for credential encryption key: '' @ itoa (int i) @ '' (wanted 32)'')))
              else (dc\<lparr>db_CredEncKeyArray := db_CredentialEncryptionKey dc, db_CredentialEncryptionKey := []\<rparr>, Ok ()))
      | (dc, Err e) \<Rightarrow> (dc, Err e)
      | (dc, Panic p) \<Rightarrow> (dc, Panic p))"

definition Database ::
  "jwt_file \<Rightarrow> (pvc_option list \<Rightarrow> SecretsClient go) \<Rightarrow> DBConfig \<Rightarrow> Fetcher \<Rightarrow> Fetcher \<times> DBConfig \<times> unit go" where
  "Database jf newclient dc = with_client jf newclient (\<lambda>sc. take_key (sc_FillDB sc dc)) dc"

section \<open>The secrets of a command\<close>

text \<open>
  The package variables of \<^verbatim>\<open>cmd/root.go\<close>, and how a command ends: \<^verbatim>\<open>clierr\<close> prints the message and
  exits.
\<close>

datatype 'a cli = CliErr string | CliPanic string | CliOk 'a

definition cli_bind :: "'a cli \<Rightarrow> ('a \<Rightarrow> 'b cli) \<Rightarrow> 'b cli" where
  "cli_bind m f = (case m of CliOk x \<Rightarrow> f x | CliErr e \<Rightarrow> CliErr e | CliPanic p \<Rightarrow> CliPanic p)"

lemma cli_bind_simps [simp]:
  "cli_bind (CliOk x) f = f x" "cli_bind (CliErr e) f = CliErr e" "cli_bind (CliPanic p) f = CliPanic p"
  by (simp_all add: cli_bind_def)

lemma cli_bind_CliOk: "cli_bind m f = CliOk y \<longleftrightarrow> (\<exists>x. m = CliOk x \<and> f x = CliOk y)"
  by (cases m) simp_all

definition or_clierr :: "string \<Rightarrow> 'a go \<Rightarrow> 'a cli" where
  "or_clierr p r = (case r of Ok x \<Rightarrow> CliOk x | Err e \<Rightarrow> CliErr (p @ errstr e) | Panic m \<Rightarrow> CliPanic m)"

lemma or_clierr_CliOk [simp]: "or_clierr p r = CliOk x \<longleftrightarrow> r = Ok x"
  by (cases r) (simp_all add: or_clierr_def)

record root_vars =
  rv_sf :: Fetcher
  rv_secretsbackend :: string
  rv_vaultConfig :: VaultConfig
  rv_ghConfig :: GitHubConfig
  rv_quayConfig :: QuayConfig
  rv_gcrConfig :: GCRConfig
  rv_awsConfig :: AWSConfig
  rv_dbConfig :: DBConfig

text \<open>A name that is none of the four leaves the backend as it was.\<close>

definition secretsSetup :: "root_vars \<Rightarrow> root_vars" where
  "secretsSetup v =
     (let f = (rv_sf v)\<lparr>f_VaultOptions := rv_vaultConfig v\<rparr>;
          b = rv_secretsbackend v
      in v\<lparr>rv_sf :=
            (if b = ''vault'' then f\<lparr>f_Backend := VaultBackend\<rparr>
             else if b = ''env'' then f\<lparr>f_Backend := EnvVarBackend\<rparr>
             else if b = ''json'' then f\<lparr>f_Backend := JSONBackend\<rparr>
             else if b = ''filetree'' then f\<lparr>f_Backend := FileTreeBackend\<rparr>
             else f)\<rparr>)"

definition gitHubSecrets :: "jwt_file \<Rightarrow> (pvc_option list \<Rightarrow> SecretsClient go) \<Rightarrow> root_vars \<Rightarrow> root_vars cli" where
  "gitHubSecrets jf newclient v =
     (let v1 = secretsSetup v in
      case f_GitHub jf newclient (rv_ghConfig v1) (rv_sf v1) of
        (f, c, r) \<Rightarrow> cli_bind (or_clierr ''error getting github secrets: '' r) (\<lambda>_. CliOk (v1\<lparr>rv_sf := f, rv_ghConfig := c\<rparr>)))"

definition quaySecrets :: "jwt_file \<Rightarrow> (pvc_option list \<Rightarrow> SecretsClient go) \<Rightarrow> root_vars \<Rightarrow> root_vars cli" where
  "quaySecrets jf newclient v =
     (let v1 = secretsSetup v in
      case f_Quay jf newclient (rv_quayConfig v1) (rv_sf v1) of
        (f, c, r) \<Rightarrow> cli_bind (or_clierr ''error getting quay secrets: '' r) (\<lambda>_. CliOk (v1\<lparr>rv_sf := f, rv_quayConfig := c\<rparr>)))"

definition gcrSecrets :: "jwt_file \<Rightarrow> (pvc_option list \<Rightarrow> SecretsClient go) \<Rightarrow> root_vars \<Rightarrow> root_vars cli" where
  "gcrSecrets jf newclient v =
     (let v1 = secretsSetup v in
      case f_GCR jf newclient (rv_gcrConfig v1) (rv_sf v1) of
        (f, c, r) \<Rightarrow> cli_bind (or_clierr ''error getting gcr secrets: '' r) (\<lambda>_. CliOk (v1\<lparr>rv_sf := f, rv_gcrConfig := c\<rparr>)))"

definition awsSecrets :: "jwt_file \<Rightarrow> (pvc_option list \<Rightarrow> SecretsClient go) \<Rightarrow> root_vars \<Rightarrow> root_vars cli" where
  "awsSecrets jf newclient v =
     (let v1 = secretsSetup v in
      case f_AWS jf newclient (rv_awsConfig v1) (rv_sf v1) of
        (f, c, r) \<Rightarrow> cli_bind (or_clierr ''error getting aws secrets: '' r) (\<lambda>_. CliOk (v1\<lparr>rv_sf := f, rv_awsConfig := c\<rparr>)))"

definition dbSecrets :: "jwt_file \<Rightarrow> (pvc_option list \<Rightarrow> SecretsClient go) \<Rightarrow> root_vars \<Rightarrow> root_vars cli" where
  "dbSecrets jf newclient v =
     (let v1 = secretsSetup v in
      case Database jf newclient (rv_dbConfig v1) (rv_sf v1) of
        (f, c, r) \<Rightarrow> cli_bind (or_clierr ''error getting db secrets: '' r) (\<lambda>_. CliOk (v1\<lparr>rv_sf := f, rv_dbConfig := c\<rparr>)))"

text \<open>The \<^verbatim>\<open>PreRun\<close> of the commands \<^verbatim>\<open>server\<close> and \<^verbatim>\<open>runbuild\<close>.\<close>

definition all_secrets :: "jwt_file \<Rightarrow> (pvc_option list \<Rightarrow> SecretsClient go) \<Rightarrow> root_vars \<Rightarrow> root_vars cli" where
  "all_secrets jf newclient v =
     cli_bind (gitHubSecrets jf newclient v) (\<lambda>v1.
     cli_bind (awsSecrets jf newclient v1) (\<lambda>v2.
     cli_bind (gcrSecrets jf newclient v2) (\<lambda>v3.
     cli_bind (quaySecrets jf newclient v3) (\<lambda>v4.
     dbSecrets jf newclient v4))))"

section \<open>Lemmas\<close>

text \<open>An option that names a backend.\<close>

fun names_backend :: "pvc_option \<Rightarrow> bool" where
  "names_backend (WithVaultBackend a addr) = True"
| "names_backend (WithJSONFileBackend p) = True"
| "names_backend WithEnvVarBackend = True"
| "names_backend (WithFileTreeBackend p) = True"
| "names_backend _ = False"

lemma k8s_options_Ok:
  "k8s_options jf vo = Ok ops \<Longrightarrow>
     (\<exists>jwt size. jf_Size jf (vc_K8sJWTPath vo) = Ok size \<and> size \<le> 4096 \<and> jf_ReadAll jf (vc_K8sJWTPath vo) = Ok jwt
        \<and> ops = [WithVaultK8sAuth jwt (vc_K8sRole vo), WithVaultK8sAuthPath (vc_K8sAuthPath vo)])"
  by (auto simp: k8s_options_def bind_go_eq_Ok maxJWTSizeBytes_def split: if_splits)

lemma backend_options_one:
  "backend_options jf f = Ok ops \<Longrightarrow> length (filter names_backend ops) = 1 \<and> f_Backend f \<in> {1..4}"
  by (auto simp: backend_options_def Let_def bind_go_eq_Ok dest!: k8s_options_Ok split: if_splits)

lemma with_client_Ok:
  assumes "with_client jf newclient use cfg f = (f', cfg', Ok ())"
  shows "\<exists>sc. f_sc f' = Some sc \<and> use sc = (cfg', Ok ())
    \<and> (f_sc f = Some sc \<and> f' = f
       \<or> (\<exists>ops. backend_options jf f = Ok ops \<and> newclient (ops @ [WithMapping (f_Mapping f)]) = Ok sc))"
proof (cases "f_sc f")
  case None
  then obtain sc where "fetcher_init jf newclient f = (f', Ok ())" "f_sc f' = Some sc" "use sc = (cfg', Ok ())"
    using assms by (auto simp: with_client_def split: prod.splits go.splits option.splits)
  then show ?thesis by (auto simp: fetcher_init_def bind_go_eq_Ok split: go.splits)
next
  case (Some sc)
  with assms show ?thesis by (auto simp: with_client_def)
qed

lemma take_key_Ok:
  "take_key filled = (dc, Ok ()) \<Longrightarrow>
     \<exists>dc0. filled = (dc0, Ok ()) \<and> length (db_CredentialEncryptionKey dc0) = 32
       \<and> dc = dc0\<lparr>db_CredEncKeyArray := db_CredentialEncryptionKey dc0, db_CredentialEncryptionKey := []\<rparr>"
  by (auto simp: take_key_def Let_def split: go.splits if_splits prod.splits)

lemma secretsSetup_frame [simp]:
  "rv_dbConfig (secretsSetup v) = rv_dbConfig v" "f_sc (rv_sf (secretsSetup v)) = f_sc (rv_sf v)"
  by (simp_all add: secretsSetup_def Let_def)

lemma dbSecrets_Ok:
  assumes "dbSecrets jf newclient v = CliOk v'"
  shows "\<exists>sc dc. f_sc (rv_sf v') = Some sc \<and> (f_sc (rv_sf v) = Some sc \<or> (\<exists>ops. newclient ops = Ok sc))
    \<and> sc_FillDB sc (rv_dbConfig v) = (dc, Ok ()) \<and> length (db_CredentialEncryptionKey dc) = 32
    \<and> rv_dbConfig v' = dc\<lparr>db_CredEncKeyArray := db_CredentialEncryptionKey dc, db_CredentialEncryptionKey := []\<rparr>"
proof -
  let ?v = "secretsSetup v"
  from assms obtain f c where d: "Database jf newclient (rv_dbConfig v) (rv_sf ?v) = (f, c, Ok ())"
    and v': "v' = ?v\<lparr>rv_sf := f, rv_dbConfig := c\<rparr>"
    by (auto simp: dbSecrets_def Let_def cli_bind_CliOk split: prod.splits)
  from with_client_Ok [OF d [unfolded Database_def]] obtain sc
    where sc: "f_sc f = Some sc" "take_key (sc_FillDB sc (rv_dbConfig v)) = (c, Ok ())"
      "f_sc (rv_sf v) = Some sc \<or> (\<exists>ops. newclient ops = Ok sc)" by auto
  from take_key_Ok [OF sc(2)] sc(1,3) v' show ?thesis by auto
qed

text \<open>The secrets hold the key \<open>k\<close>: every client of the library fills it in.\<close>

definition holds_key :: "(pvc_option list \<Rightarrow> SecretsClient go) \<Rightarrow> string \<Rightarrow> bool" where
  "holds_key newclient k \<longleftrightarrow>
     (\<forall>ops sc dc. newclient ops = Ok sc \<longrightarrow> db_CredentialEncryptionKey (fst (sc_FillDB sc dc)) = k)"

lemma dbSecrets_holds:
  assumes "dbSecrets jf newclient v = CliOk v'" "holds_key newclient k" "f_sc (rv_sf v) = None"
  shows "db_CredEncKeyArray (rv_dbConfig v') = k"
proof -
  from dbSecrets_Ok [OF assms(1)] assms(3) obtain sc dc ops where sc: "newclient ops = Ok sc"
    "sc_FillDB sc (rv_dbConfig v) = (dc, Ok ())" "db_CredEncKeyArray (rv_dbConfig v') = db_CredentialEncryptionKey dc"
    by auto
  from assms(2) sc(1) have "db_CredentialEncryptionKey (fst (sc_FillDB sc (rv_dbConfig v))) = k"
    unfolding holds_key_def by blast
  with sc(2,3) show ?thesis by simp
qed

section \<open>Properties\<close>

definition demo_sc :: SecretsClient where
  "demo_sc =
     \<lparr>sc_FillGitHub = (\<lambda>c. (c, Ok ())), sc_FillQuay = (\<lambda>c. (c, Ok ())), sc_FillGCR = (\<lambda>c. (c, Ok ())),
      sc_FillAWS = (\<lambda>c. (c, Ok ())),
      sc_FillDB = (\<lambda>c. (c\<lparr>db_PostgresURI := ''postgres://db'', db_CredentialEncryptionKey := replicate 32 CHR ''k''\<rparr>, Ok ()))\<rparr>"

definition demo_vars :: "string \<Rightarrow> root_vars" where
  "demo_vars backend =
     (let vo = \<lparr>vc_Addr = ''https://vault'', vc_Token = [], vc_TokenAuth = False, vc_K8sAuth = True,
                vc_K8sJWTPath = ''/jwt'', vc_K8sAuthPath = ''kubernetes'', vc_K8sRole = ''furan''\<rparr>
      in \<lparr>rv_sf = \<lparr>f_Backend = UnknownBackend, f_Mapping = ''{{.ID}}'', f_JSONFile = ''secrets.json'',
                   f_FileTreeRoot = ''/vault/secrets/'', f_VaultOptions = vo, f_sc = None\<rparr>,
          rv_secretsbackend = backend, rv_vaultConfig = vo, rv_ghConfig = \<lparr>ghc_Token = []\<rparr>,
          rv_quayConfig = \<lparr>qyc_Token = []\<rparr>, rv_gcrConfig = \<lparr>gcrc_ServiceAccount = []\<rparr>,
          rv_awsConfig = \<lparr>aws_Region = ''us-east-1'', aws_CacheBucket = [], aws_CacheHost = [], aws_CacheKeyPrefix = [],
                          aws_AccessKeyID = [], aws_SecretAccessKey = [], aws_EnableECR = False, aws_ECRRegistryHosts = []\<rparr>,
          rv_dbConfig = zero_DBConfig\<rparr>)"

definition demo_jwt :: jwt_file where
  "demo_jwt = \<lparr>jf_Open = (\<lambda>p. Ok ()), jf_Size = (\<lambda>p. Ok 4096), jf_ReadAll = (\<lambda>p. Ok ''jwt'')\<rparr>"

text \<open>
  C36: a key of the wrong size never becomes the encryption key: the fetching of the database secrets
  succeeds only with a key of exactly 32 bytes, which then is the array the server and the jobs
  encrypt and decrypt with, and the slice is dropped; with any other size the command ends with an
  error.
\<close>

theorem encryption_key_has_32_bytes:
  assumes "dbSecrets jf newclient v = CliOk v'"
  shows "\<exists>sc dc. f_sc (rv_sf v') = Some sc \<and> sc_FillDB sc (rv_dbConfig v) = (dc, Ok ())
    \<and> length (db_CredentialEncryptionKey dc) = 32
    \<and> db_CredEncKeyArray (rv_dbConfig v') = db_CredentialEncryptionKey dc
    \<and> db_CredentialEncryptionKey (rv_dbConfig v') = []
    \<and> db_PostgresURI (rv_dbConfig v') = db_PostgresURI dc"
  using dbSecrets_Ok [OF assms] by auto

theorem encryption_key_has_32_bytes_witness:
  "\<exists>v'. dbSecrets demo_jwt (\<lambda>_. Ok demo_sc) (demo_vars ''vault'') = CliOk v'
    \<and> length (db_CredEncKeyArray (rv_dbConfig v')) = 32"
proof -
  obtain v' where v: "dbSecrets demo_jwt (\<lambda>_. Ok demo_sc) (demo_vars ''vault'') = CliOk v'"
    by (simp add: dbSecrets_def Database_def with_client_def fetcher_init_def backend_options_def k8s_options_def
        secretsSetup_def demo_vars_def demo_jwt_def demo_sc_def take_key_def or_clierr_def maxJWTSizeBytes_def Let_def)
  from encryption_key_has_32_bytes [OF v] v show ?thesis by auto
qed

text \<open>
  The client of the secrets is created from exactly one backend, the one the configuration names,
  with the mapping as the last option; for Vault exactly one of the two ways to authenticate is
  configured, and a token file that is larger than 4096 bytes is not used.
\<close>

theorem one_secrets_backend:
  assumes "fetcher_init jf newclient f = (f', Ok ())"
  shows "\<exists>ops sc. newclient (ops @ [WithMapping (f_Mapping f)]) = Ok sc \<and> f' = f\<lparr>f_sc := Some sc\<rparr>
    \<and> length (filter names_backend ops) = 1
    \<and> f_Backend f \<in> {VaultBackend, JSONBackend, EnvVarBackend, FileTreeBackend}
    \<and> (f_Backend f = VaultBackend \<longrightarrow>
         vc_TokenAuth (f_VaultOptions f) \<noteq> vc_K8sAuth (f_VaultOptions f)
         \<and> (\<forall>jwt role. WithVaultK8sAuth jwt role \<in> set ops \<longrightarrow>
              jf_ReadAll jf (vc_K8sJWTPath (f_VaultOptions f)) = Ok jwt
              \<and> (\<exists>n. jf_Size jf (vc_K8sJWTPath (f_VaultOptions f)) = Ok n \<and> n \<le> 4096)))"
proof -
  from assms obtain ops sc where o: "backend_options jf f = Ok ops" "newclient (ops @ [WithMapping (f_Mapping f)]) = Ok sc"
    "f' = f\<lparr>f_sc := Some sc\<rparr>"
    by (auto simp: fetcher_init_def bind_go_eq_Ok split: go.splits)
  have "f_Backend f = VaultBackend \<longrightarrow>
         vc_TokenAuth (f_VaultOptions f) \<noteq> vc_K8sAuth (f_VaultOptions f)
         \<and> (\<forall>jwt role. WithVaultK8sAuth jwt role \<in> set ops \<longrightarrow>
              jf_ReadAll jf (vc_K8sJWTPath (f_VaultOptions f)) = Ok jwt
              \<and> (\<exists>n. jf_Size jf (vc_K8sJWTPath (f_VaultOptions f)) = Ok n \<and> n \<le> 4096))"
    using o(1) by (auto simp: backend_options_def Let_def bind_go_eq_Ok dest!: k8s_options_Ok split: if_splits)
  moreover have "f_Backend f \<in> {VaultBackend, JSONBackend, EnvVarBackend, FileTreeBackend}"
    using o(1) by (auto simp: backend_options_def Let_def split: if_splits)
  ultimately show ?thesis using o backend_options_one [OF o(1)] by blast
qed

theorem one_secrets_backend_witness:
  "\<exists>f'. fetcher_init demo_jwt (\<lambda>ops. if length (filter names_backend ops) = 1 then Ok demo_sc else Err ErrNotFound)
     (rv_sf (secretsSetup (demo_vars ''vault''))) = (f', Ok ()) \<and> f_sc f' = Some demo_sc"
proof -
  let ?nc = "\<lambda>ops. if length (filter names_backend ops) = 1 then Ok demo_sc else Err ErrNotFound"
  obtain f' where f: "fetcher_init demo_jwt ?nc (rv_sf (secretsSetup (demo_vars ''vault''))) = (f', Ok ())"
    by (simp add: fetcher_init_def backend_options_def k8s_options_def secretsSetup_def demo_vars_def demo_jwt_def
        maxJWTSizeBytes_def Let_def)
  from one_secrets_backend [OF f] f show ?thesis by (auto split: if_splits)
qed

text \<open>An unknown name of a backend is noticed only when the first secret is fetched.\<close>

lemma unknown_backend_refused:
  assumes "b \<notin> {''vault'', ''env'', ''json'', ''filetree''}" "rv_secretsbackend v = b"
    and "f_Backend (rv_sf v) = UnknownBackend" "f_sc (rv_sf v) = None"
  shows "gitHubSecrets jf newclient v = CliErr ''error getting github secrets: unknown backend type: 0''"
proof -
  have "itoa 0 = ''0''" by code_simp
  with assms show ?thesis
    by (simp add: gitHubSecrets_def secretsSetup_def f_GitHub_def with_client_def fetcher_init_def backend_options_def
        or_clierr_def Let_def)
qed

end
