(* ===== verification/Furan_Jobrunner.thy ===== *)
theory Furan_Jobrunner
  imports Furan_Grpc
begin

text \<open>
  \<^verbatim>\<open>pkg/jobrunner\<close>: the Kubernetes job that executes a build (\<^verbatim>\<open>furanjob.go\<close>), its creation, the
  watcher that reports when the job has taken over, the periodic cleanup of old jobs and the logs
  (\<^verbatim>\<open>jobrunner.go\<close>).  The cluster is the argument \<open>k8s\<close>, quantities are those of \<open>quantity_lib\<close>.

  The watcher is a transition system: its two goroutines and the reader of its channels take
  steps one at a time.
\<close>

section \<open>Runes\<close>

text \<open>
  \<^verbatim>\<open>[]rune(s)\<close>: the string is split into its runes, given by their UTF-8 encodings; a byte that
  starts no valid encoding is the replacement character.
\<close>

definition in_range :: "nat \<Rightarrow> nat \<Rightarrow> char \<Rightarrow> bool" where
  "in_range lo hi c \<longleftrightarrow> lo \<le> (of_char c :: nat) \<and> (of_char c :: nat) \<le> hi"

definition rune_len :: "string \<Rightarrow> nat option" where
  "rune_len s =
     (case s of
        [] \<Rightarrow> None
      | c # cs \<Rightarrow>
          if in_range 0 127 c then Some 1
          else if in_range 194 223 c then
            (case cs of c1 # _ \<Rightarrow> if in_range 128 191 c1 then Some 2 else None | _ \<Rightarrow> None)
          else if in_range 224 239 c then
            (case cs of
               c1 # c2 # _ \<Rightarrow>
                 if in_range (if in_range 224 224 c then 160 else 128)
                      (if in_range 237 237 c then 159 else 191) c1 \<and> in_range 128 191 c2
                 then Some 3 else None
             | _ \<Rightarrow> None)
          else if in_range 240 244 c then
            (case cs of
               c1 # c2 # c3 # _ \<Rightarrow>
                 if in_range (if in_range 240 240 c then 144 else 128)
                      (if in_range 244 244 c then 143 else 191) c1
                    \<and> in_range 128 191 c2 \<and> in_range 128 191 c3
                 then Some 4 else None
             | _ \<Rightarrow> None)
          else None)"

definition RuneError :: string where
  "RuneError = [byte 239, byte 191, byte 189]"

function runes :: "string \<Rightarrow> string list" where
  "runes s =
     (if s = [] then []
      else case rune_len s of
             None \<Rightarrow> RuneError # runes (tl s)
           | Some n \<Rightarrow> take n s # runes (drop (max 1 n) s))"
  by pat_completeness auto
termination
  by (relation "measure length") (auto simp: neq_Nil_conv)

declare runes.simps [simp del]

definition truncateName :: "string \<Rightarrow> nat \<Rightarrow> string go" where
  "truncateName s n =
     (let r = runes s
      in if length r > n then
           (if n = 0 then Panic ''slice bounds out of range'' else Ok (concat (take (n - 1) r)))
         else Ok s)"

section \<open>The job\<close>

type_synonym 'q ResourceList = "(string \<times> 'q) list"

record EnvVar =
  env_Name :: string
  env_SecretKeyRef :: "(string \<times> string) option"
  env_Value :: string

record 'q Container =
  c_Name :: string
  c_Image :: string
  c_ImagePullPolicy :: string
  c_Command :: "string list"
  c_EnvFromSecret :: "(string \<times> bool) list"
  c_Env :: "EnvVar list"
  c_Args :: "string list"
  c_VolumeMounts :: "(string \<times> string) list"
  c_Privileged :: bool
  c_Requests :: "'q ResourceList"
  c_Limits :: "'q ResourceList"

datatype volume = EmptyDirMemory string | SecretVolume string string bool

record 'q Job =
  j_Namespace :: string
  j_Name :: string
  j_Labels :: "(string \<times> string) list"
  j_Annotations :: "(string \<times> string) list"
  j_Parallelism :: int
  j_Completions :: int
  j_ActiveDeadlineSeconds :: int
  j_BackoffLimit :: "int option"
  j_TTLSecondsAfterFinished :: int
  j_PodAnnotations :: "(string \<times> string) list"
  j_ShareProcessNamespace :: bool
  j_RestartPolicy :: string
  j_NodeSelector :: "(string \<times> string) list"
  j_Tolerations :: "(string \<times> string \<times> string \<times> string) list"
  j_ServiceAccountName :: string
  j_Containers :: "'q Container list"
  j_Volumes :: "volume list"
  j_ImagePullSecrets :: "string list"

record 'q ImageInfo =
  ii_Namespace :: string
  ii_PodName :: string
  ii_Image :: string
  ii_ServiceAccount :: string
  ii_ImagePullSecrets :: "string list"
  ii_RootArgs :: "string list"
  ii_Requests :: "'q ResourceList"
  ii_Limits :: "'q ResourceList"
  ii_EnvVars :: "EnvVar list"

definition bkSocket :: string where
  "bkSocket = ''unix:///run/buildkit/buildkitd.sock''"

definition BuildKitImage :: string where
  "BuildKitImage = ''932427637498.dkr.ecr.us-west-2.amazonaws.com/furan2-builder:v0.7.2-rootless''"

definition JobLabel :: string where
  "JobLabel = ''created-by:furan2''"

definition MustParse :: "'q quantity_lib \<Rightarrow> string \<Rightarrow> 'q go" where
  "MustParse ql str =
     (case ql_Parse ql str of
        Ok q \<Rightarrow> Ok q
      | Err e \<Rightarrow> Panic (''cannot parse '' @ str @ '': '' @ errstr e)
      | Panic p \<Rightarrow> Panic p)"

definition furan_container :: "'q Container" where
  "furan_container =
     \<lparr>c_Name = ''furan'', c_Image = [], c_ImagePullPolicy = ''IfNotPresent'',
      c_Command = [''/usr/local/bin/furan''], c_EnvFromSecret = [(''default-build-args'', True)],
      c_Env = [], c_Args = [''runbuild'', ''--buildkit-addr'', bkSocket],
      c_VolumeMounts = [(''bksocket'', ''/run/buildkit'')], c_Privileged = False,
      c_Requests = [], c_Limits = []\<rparr>"

definition buildkitd_container :: "string \<Rightarrow> 'q \<Rightarrow> 'q \<Rightarrow> 'q \<Rightarrow> 'q \<Rightarrow> 'q Container" where
  "buildkitd_container bkimg rcpu rmem lcpu lmem =
     \<lparr>c_Name = ''buildkitd'', c_Image = bkimg, c_ImagePullPolicy = ''IfNotPresent'',
      c_Command = [], c_EnvFromSecret = [], c_Env = [], c_Args = [''--addr'', bkSocket],
      c_VolumeMounts = [(''bksocket'', ''/run/buildkit'')], c_Privileged = True,
      c_Requests = [(''cpu'', rcpu), (''memory'', rmem)],
      c_Limits = [(''cpu'', lcpu), (''memory'', lmem)]\<rparr>"

definition furanjob :: "'q quantity_lib \<Rightarrow> string \<Rightarrow> 'q Job go" where
  "furanjob ql bkimg =
     bind_go (MustParse ql ''2'') (\<lambda>rcpu. bind_go (MustParse ql ''24G'') (\<lambda>rmem.
     bind_go (MustParse ql ''3'') (\<lambda>lcpu. bind_go (MustParse ql ''24G'') (\<lambda>lmem.
     Ok \<lparr>j_Namespace = [], j_Name = [], j_Labels = [], j_Annotations = [], j_Parallelism = 1,
         j_Completions = 1, j_ActiveDeadlineSeconds = 30 * 60, j_BackoffLimit = Some 3,
         j_TTLSecondsAfterFinished = 30,
         j_PodAnnotations =
           [(''container.apparmor.security.beta.kubernetes.io/buildkitd'', ''unconfined''),
            (''container.seccomp.security.alpha.kubernetes.io/buildkitd'', ''unconfined''),
            (''cluster-autoscaler.kubernetes.io/safe-to-evict'', ''true'')],
         j_ShareProcessNamespace = True, j_RestartPolicy = ''Never'',
         j_NodeSelector = [(''role'', ''furan-node'')],
         j_Tolerations = [(''role'', ''Equal'', ''furan-node'', ''NoSchedule'')],
         j_ServiceAccountName = [],
         j_Containers = [furan_container, buildkitd_container bkimg rcpu rmem lcpu lmem],
         j_Volumes = [EmptyDirMemory ''bksocket'',
                      SecretVolume ''default-build-args'' ''default-build-args'' True],
         j_ImagePullSecrets = []\<rparr>))))"

text \<open>
  \<^verbatim>\<open>FuranJobFunc\<close>: \<open>jlab\<close> and \<open>bkimg\<close> are the variables \<^verbatim>\<open>JobLabel\<close> and \<^verbatim>\<open>BuildKitImage\<close> (the server
  command sets the second one from a flag), \<open>reqj\<close> the JSON of the request; \<open>None\<close> in
  \<open>bkresources\<close> is a nil map.
\<close>

definition FuranJobFunc ::
  "'q quantity_lib \<Rightarrow> string \<Rightarrow> string \<Rightarrow> (BuildRequest \<Rightarrow> string) \<Rightarrow> 'q ImageInfo \<Rightarrow> Build
     \<Rightarrow> 'q ResourceList option \<times> 'q ResourceList option \<Rightarrow> 'q Job go" where
  "FuranJobFunc ql bkimg jlab reqj info build bkresources =
     bind_go (furanjob ql bkimg) (\<lambda>j.
     bind_go (truncateName (''furan-build-'' @ ReplaceAll (b_GitHubRepo build) CHR ''/'' ''-'' @ ''-''
                            @ uuid_String (b_ID build)) 63) (\<lambda>name.
     let jlabel = Split jlab CHR '':'' in
     if length jlabel \<noteq> 2 then
       Panic (''invalid job label (<name>:<value> is required): '' @ jlab)
     else
       let bid = uuid_String (b_ID build);
           c0 = j_Containers j ! 0;
           c1 = j_Containers j ! 1;
           c0' = c0\<lparr>c_Image := ii_Image info,
                    c_Args := ii_RootArgs info @ (c_Args c0 @ [''--build-id'', bid]),
                    c_Env := c_Env c0 @ ii_EnvVars info,
                    c_Requests := ii_Requests info, c_Limits := ii_Limits info\<rparr>;
           c1' = c1\<lparr>c_Requests := (case fst bkresources of None \<Rightarrow> c_Requests c1 | Some r \<Rightarrow> r),
                    c_Limits := (case snd bkresources of None \<Rightarrow> c_Limits c1 | Some r \<Rightarrow> r)\<rparr>
       in Ok (j\<lparr>j_Namespace := ii_Namespace info, j_Name := name,
                j_Labels := AList.update (jlabel ! 0) (jlabel ! 1) [(''build-id'', bid)],
                j_Annotations :=
                  [(''build-request'', reqj (b_Request build)), (''source-repo'', b_GitHubRepo build),
                   (''source-ref'', b_GitHubRef build), (''dest-repo'', print_slice (b_ImageRepos build)),
                   (''image-tags'', Join (b_Tags build) '','')],
                j_ServiceAccountName := ii_ServiceAccount info,
                j_Containers := [c0', c1'],
                j_ImagePullSecrets := j_ImagePullSecrets j @ ii_ImagePullSecrets info\<rparr>)))"

text \<open>\<^verbatim>\<open>resources\<close>: the requests and the limits, nil when no quantity is given.\<close>

definition put_quantity ::
  "'q quantity_lib \<Rightarrow> string \<Rightarrow> string \<Rightarrow> 'q ResourceList option \<Rightarrow> 'q ResourceList option go" where
  "put_quantity ql key str out =
     (if str = [] then Ok out
      else bind_go (MustParse ql str) (\<lambda>q.
             Ok (Some (AList.update key q (case out of None \<Rightarrow> [] | Some l \<Rightarrow> l)))))"

definition resources ::
  "'q quantity_lib \<Rightarrow> Build \<Rightarrow> ('q ResourceList option \<times> 'q ResourceList option) go" where
  "resources ql b =
     (let r = bo_Resources (b_BuildOptions b)
      in bind_go (put_quantity ql ''cpu'' (br_CpuRequest r) None) (\<lambda>o0.
         bind_go (put_quantity ql ''memory'' (br_MemoryRequest r) o0) (\<lambda>o0'.
         bind_go (put_quantity ql ''cpu'' (br_CpuLimit r) None) (\<lambda>o1.
         bind_go (put_quantity ql ''memory'' (br_MemoryLimit r) o1) (\<lambda>o1'. Ok (o0', o1'))))))"

section \<open>The cluster\<close>

record 'q Pod =
  pod_Name :: string
  pod_Namespace :: string
  pod_ImagePullSecrets :: "string list"
  pod_ServiceAccountName :: string
  pod_Containers :: "'q Container list"
  pod_ContainerStatuses :: "string list"

record JobObject =
  jo_Name :: string
  jo_Namespace :: string
  jo_CreationTimestamp :: gotime
  jo_Selector :: "(string \<times> string) list option"

record ('s, 'q) k8s =
  k_GetPod :: "string \<Rightarrow> string \<Rightarrow> ('s, 'q Pod) act"
  k_CreateJob :: "string \<Rightarrow> 'q Job \<Rightarrow> ('s, JobObject) act"
  k_WatchJobs :: "string \<Rightarrow> string \<Rightarrow> ('s, unit) act"
  k_ListJobs :: "ctx \<Rightarrow> string \<Rightarrow> string \<Rightarrow> ('s, JobObject list) act"
  k_DeleteJob :: "ctx \<Rightarrow> string \<Rightarrow> string \<Rightarrow> ('s, unit) act"
  k_ListPods :: "string \<Rightarrow> string \<Rightarrow> ('s, 'q Pod list option) act"
  k_GetLogs :: "string \<Rightarrow> string \<Rightarrow> string \<Rightarrow> int \<Rightarrow> ('s, string) act option"

text \<open>What a pod sees of its surroundings: its environment and the file of the service account.\<close>

record podenv =
  pe_LookupEnv :: "string \<Rightarrow> string option"
  pe_NamespaceFile :: "string go"

definition defaultNS :: string where
  "defaultNS = ''default''"

definition namespace :: "podenv \<Rightarrow> string" where
  "namespace pe =
     (case pe_LookupEnv pe ''POD_NAMESPACE'' of
        Some ns \<Rightarrow> ns
      | None \<Rightarrow>
          (case pe_NamespaceFile pe of
             Ok data \<Rightarrow> if TrimSpace data \<noteq> [] then TrimSpace data else defaultNS
           | _ \<Rightarrow> defaultNS))"

text \<open>The last container named \<^verbatim>\<open>furan\<close>: its image and its index.\<close>

fun furan_index :: "'q Container list \<Rightarrow> nat \<Rightarrow> string \<times> nat \<Rightarrow> string \<times> nat" where
  "furan_index [] i acc = acc"
| "furan_index (c # cs) i acc =
     furan_index cs (Suc i) (if c_Name c = ''furan'' then (c_Image c, i) else acc)"

definition image :: "('s, 'q) k8s \<Rightarrow> podenv \<Rightarrow> ('s, 'q ImageInfo) act" where
  "image k8s pe s =
     (let ns = namespace pe in
      case pe_LookupEnv pe ''POD_NAME'' of
        None \<Rightarrow> (s, Err (ErrMsg ''POD_NAME not found''))
      | Some podn \<Rightarrow>
          (case k_GetPod k8s ns podn s of
             (s1, Err e) \<Rightarrow> (s1, Err (Wrapf ''error getting pod: '' e))
           | (s1, Panic p) \<Rightarrow> (s1, Panic p)
           | (s1, Ok pod) \<Rightarrow>
               (case furan_index (pod_Containers pod) 0 ([], 0) of (img, idx) \<Rightarrow>
                  if img = [] then (s1, Err (ErrMsg ''furan container not found in pod''))
                  else
                    let c = pod_Containers pod ! idx;
                        rootargs = takeWhile (\<lambda>a. a \<noteq> ''server'') (c_Args c)
                    in if length rootargs = length (c_Args c) then
                         (s1, Err (ErrMsg (''server command not found in furan args: ''
                                           @ print_slice (c_Args c))))
                       else
                         (s1, Ok \<lparr>ii_Namespace = ns, ii_PodName = podn, ii_Image = img,
                                  ii_ServiceAccount = pod_ServiceAccountName pod,
                                  ii_ImagePullSecrets = pod_ImagePullSecrets pod,
                                  ii_RootArgs = rootargs,
                                  ii_Requests = c_Requests c, ii_Limits = c_Limits c,
                                  ii_EnvVars = filter (\<lambda>ev. env_SecretKeyRef ev \<noteq> None) (c_Env c)\<rparr>))))"

section \<open>Running a job\<close>

text \<open>\<open>jw_w\<close> says whether the watch is there; the channels are those of the transition system below.\<close>

record JobWatcher =
  jw_buildID :: uuid
  jw_JobName :: string
  jw_JobNamespace :: string
  jw_matchLabels :: "(string \<times> string) list"
  jw_timeout :: int
  jw_w :: bool

type_synonym 'q job_func =
  "'q ImageInfo \<Rightarrow> Build \<Rightarrow> 'q ResourceList option \<times> 'q ResourceList option \<Rightarrow> 'q Job go"

record ('s, 'q) K8sJobRunner =
  kr_client :: "('s, 'q) k8s option"
  kr_dl :: "'s DataLayer"
  kr_imageInfo :: "'q ImageInfo"
  kr_JobFunc :: "'q job_func option"

text \<open>The error of \<^verbatim>\<open>Watch\<close> is not looked at: the watch is nil then.\<close>

definition jr_Run :: "'q quantity_lib \<Rightarrow> ('s, 'q) K8sJobRunner \<Rightarrow> Build \<Rightarrow> ('s, JobWatcher) act" where
  "jr_Run ql kr build s =
     (case (kr_JobFunc kr, kr_client kr) of
        (Some jf, Some k8s) \<Rightarrow>
          (case bind_go (resources ql build) (\<lambda>r. jf (kr_imageInfo kr) build r) of
             Err e \<Rightarrow> (s, Err e)
           | Panic p \<Rightarrow> (s, Panic p)
           | Ok j \<Rightarrow>
               (case k_CreateJob k8s (ii_Namespace (kr_imageInfo kr)) j s of
                  (s1, Err e) \<Rightarrow> (s1, Err (Wrapf ''error creating job: '' e))
                | (s1, Panic p) \<Rightarrow> (s1, Panic p)
                | (s1, Ok jo) \<Rightarrow>
                    let s2 = fst (dl_AddEvent (kr_dl kr) Background (b_ID build)
                                    (''job created: '' @ jo_Name jo) s1);
                        watched = k_WatchJobs k8s (ii_Namespace (kr_imageInfo kr))
                                    (''metadata.name='' @ jo_Name jo @ '',metadata.namespace=''
                                     @ jo_Namespace jo) s2
                    in case jo_Selector jo of
                         None \<Rightarrow> (fst watched, Panic nil_deref)
                       | Some ml \<Rightarrow>
                           (fst watched,
                            Ok \<lparr>jw_buildID = b_ID build, jw_JobName = jo_Name jo,
                                jw_JobNamespace = jo_Namespace jo, jw_matchLabels = ml,
                                jw_timeout = 0, jw_w = is_ok (snd watched)\<rparr>)))
      | _ \<Rightarrow> (s, Err (ErrMsg ''JobFunc is required'')))"

section \<open>Cleanup\<close>

text \<open>\<open>rnd n\<close> is the result of \<^verbatim>\<open>rand.Intn(n)\<close>, which panics unless \<open>n\<close> is positive.\<close>

definition cleanupJitter :: "(int \<Rightarrow> int) \<Rightarrow> int \<Rightarrow> int go" where
  "cleanupJitter rnd interval =
     (let n = interval sdiv 10
      in if n \<le> 0 then Panic ''invalid argument to Intn'' else Ok (rnd n))"

fun delete_old ::
  "('s, 'q) k8s \<Rightarrow> ctx \<Rightarrow> string \<Rightarrow> gotime \<Rightarrow> JobObject list \<Rightarrow> ('s, unit) act" where
  "delete_old k8s c ns cutoff [] s = (s, Ok ())"
| "delete_old k8s c ns cutoff (j # js) s =
     (if jo_CreationTimestamp j < cutoff then
        (case k_DeleteJob k8s c ns (jo_Name j) s of
           (s1, Err e) \<Rightarrow> (s1, Err (Wrapf (''error deleting job: '' @ jo_Name j @ '': '') e))
         | (s1, Panic p) \<Rightarrow> (s1, Panic p)
         | (s1, Ok _) \<Rightarrow> delete_old k8s c ns cutoff js s1)
      else delete_old k8s c ns cutoff js s)"

definition doCleanup ::
  "('s, 'q) k8s \<Rightarrow> podenv \<Rightarrow> ctx \<Rightarrow> string \<Rightarrow> string \<Rightarrow> gotime \<Rightarrow> ('s, unit) act" where
  "doCleanup k8s pe c lkey lval cutoff =
     bind_act (wrap_act ''error listing jobs: ''
       (k_ListJobs k8s c (namespace pe) (lkey @ ''='' @ lval)))
       (delete_old k8s c (namespace pe) cutoff)"

text \<open>
  The goroutine of \<^verbatim>\<open>StartCleanup\<close>: what its \<^verbatim>\<open>select\<close> receives, a tick with the cutoff computed
  then; the value says whether it is still running.
\<close>

datatype cleanup_event = CleanupCtxDone | CleanupTick gotime

fun cleanup_loop ::
  "('s, 'q) k8s \<Rightarrow> podenv \<Rightarrow> (int \<Rightarrow> int) \<Rightarrow> int \<Rightarrow> string \<Rightarrow> string \<Rightarrow> cleanup_event list \<Rightarrow> ('s, bool) act" where
  "cleanup_loop k8s pe rnd interval lkey lval [] s = (s, Ok True)"
| "cleanup_loop k8s pe rnd interval lkey lval (CleanupCtxDone # es) s = (s, Ok False)"
| "cleanup_loop k8s pe rnd interval lkey lval (CleanupTick cutoff # es) s =
     (case cleanupJitter rnd interval of
        Panic p \<Rightarrow> (s, Panic p)
      | Err e \<Rightarrow> (s, Err e)
      | Ok _ \<Rightarrow>
          (case doCleanup k8s pe Active lkey lval cutoff s of
             (s1, Err e) \<Rightarrow> (s1, Ok False)
           | (s1, Panic p) \<Rightarrow> (s1, Panic p)
           | (s1, Ok _) \<Rightarrow> cleanup_loop k8s pe rnd interval lkey lval es s1))"

definition cleanup_goroutine ::
  "('s, 'q) k8s \<Rightarrow> podenv \<Rightarrow> (int \<Rightarrow> int) \<Rightarrow> int \<Rightarrow> string \<Rightarrow> string \<Rightarrow> cleanup_event list \<Rightarrow> ('s, bool) act" where
  "cleanup_goroutine k8s pe rnd interval lkey lval es s =
     (if interval \<le> 0 then (s, Panic ''non-positive interval for NewTicker'')
      else cleanup_loop k8s pe rnd interval lkey lval es s)"

text \<open>\<^verbatim>\<open>StartCleanup\<close>: the checks, then the goroutine with the two halves of the label.\<close>

definition StartCleanup :: "int \<Rightarrow> int \<Rightarrow> string \<Rightarrow> (string \<times> string) go" where
  "StartCleanup interval age label =
     (let ls = Split label CHR '':''
      in if length ls \<noteq> 2 then Err (ErrMsg (''malformed label (wanted key:value): '' @ label))
         else if interval = 0 \<or> age = 0 then Err (ErrMsg ''nonzero interval and age are required'')
         else Ok (ls ! 0, ls ! 1))"

section \<open>The watcher\<close>

datatype watch_type = Added | Modified | Deleted | Bookmark | WatchError

text \<open>A job object has its count of successes, its conditions (type and reason), its back-off limit.\<close>

datatype watch_obj = ObjNil | ObjJob int "(string \<times> string) list" "int option" | ObjOther string string

datatype jw_signal = SigError goerr | SigRunning

text \<open>
  \<^verbatim>\<open>processEvent\<close>: the event it adds to the build and what it sends on the watcher's channels; the
  watch goes on when it sends nothing.
\<close>

definition processEvent :: "watch_type \<Rightarrow> watch_obj \<Rightarrow> string list \<times> jw_signal option" where
  "processEvent typ obj =
     (case obj of
        ObjNil \<Rightarrow> ([], None)
      | _ \<Rightarrow>
          (case typ of
             Deleted \<Rightarrow> ([], Some (SigError (ErrMsg ''job was deleted'')))
           | WatchError \<Rightarrow>
               ([], Some (SigError (ErrMsg (''error: '' @ (case obj of ObjOther p t \<Rightarrow> p | _ \<Rightarrow> ''Job'')))))
           | Modified \<Rightarrow>
               (case obj of
                  ObjJob succeeded conds bo \<Rightarrow>
                    if succeeded > 0 then
                      ([''job marked as succeeded/finished unexpectedly, ending watch''], Some SigRunning)
                    else if conds \<noteq> [] \<and> last conds = (''Failed'', ''BackoffLimitExceeded'') then
                      ([], Some (SigError (ErrMsg (''job backoff limit exceeded (''
                        @ itoa (case bo of None \<Rightarrow> 0 | Some n \<Rightarrow> n) @ ''), giving up''))))
                    else ([], None)
                | ObjOther p t \<Rightarrow>
                    ([], Some (SigError (ErrMsg (''watch modified event object is not a job: '' @ t))))
                | ObjNil \<Rightarrow> ([], None))
           | _ \<Rightarrow> ([], None)))"

text \<open>
  The state of \<^verbatim>\<open>start\<close>: the goroutine that listens for the running build (it sends its error before
  its deferred close of \<^verbatim>\<open>running\<close>, and adds an event before it), the loop, the reader of the two
  unbuffered channels, what was delivered to it, and the events added to the build.  The last two
  fields record how the listening ended and that a success event was processed.

  \<^verbatim>\<open>jw.stop\<close> is never closed and nothing is sent on it, so that the case has no step.  With a nil
  watch the first \<^verbatim>\<open>select\<close> panics.
\<close>

datatype g_state = GListening | GListened | GErrSent | GDone
datatype m_state = MLoop | MSending jw_signal | MStopped | MPanicked

record jw_state =
  jg :: g_state
  jrunning :: bool
  jbrunerr :: "goerr option"
  jm :: m_state
  jreader :: bool
  jout :: "jw_signal list"
  jevents :: "string list"
  jlistened :: "unit go option"
  jsucceeded :: bool

definition jw_start :: "JobWatcher \<Rightarrow> jw_state" where
  "jw_start jw =
     \<lparr>jg = GListening, jrunning = False, jbrunerr = None, jm = (if jw_w jw then MLoop else MPanicked),
      jreader = True, jout = [], jevents = [], jlistened = None, jsucceeded = False\<rparr>"

definition DefaultJobWatcherTimeout :: int where
  "DefaultJobWatcherTimeout = 30 * 60 * 10 ^ 9"

inductive jw_step :: "JobWatcher \<Rightarrow> jw_state \<Rightarrow> jw_state \<Rightarrow> bool" for jw where
  listen_ok: "jg s = GListening \<Longrightarrow>
    jw_step jw s (s\<lparr>jg := GListened, jlistened := Some (Ok ()),
                    jevents := jevents s @ [''job running, handoff successful'']\<rparr>)"
| close_ok: "jg s = GListened \<Longrightarrow> jw_step jw s (s\<lparr>jg := GDone, jrunning := True\<rparr>)"
| listen_err: "jg s = GListening \<Longrightarrow>
    jw_step jw s (s\<lparr>jg := GErrSent, jlistened := Some (Err e),
                    jbrunerr := Some (Wrapf ''error listening for build running: '' e)\<rparr>)"
| close_err: "jg s = GErrSent \<Longrightarrow> jw_step jw s (s\<lparr>jg := GDone, jrunning := True\<rparr>)"
| sel_running: "jm s = MLoop \<Longrightarrow> jrunning s \<Longrightarrow> jw_step jw s (s\<lparr>jm := MSending SigRunning\<rparr>)"
| sel_brunerr: "jm s = MLoop \<Longrightarrow> jbrunerr s = Some e \<Longrightarrow>
    jw_step jw s (s\<lparr>jbrunerr := None, jm := MSending (SigError e)\<rparr>)"
| sel_timeout: "jm s = MLoop \<Longrightarrow>
    jw_step jw s (s\<lparr>jm := MSending (SigError (ErrMsg (''timeout reached: '' @ Duration_String
      (if jw_timeout jw = 0 then DefaultJobWatcherTimeout else jw_timeout jw))))\<rparr>)"
| sel_event: "jm s = MLoop \<Longrightarrow> processEvent typ obj = (evs, Some sig) \<Longrightarrow>
    jw_step jw s (s\<lparr>jm := MSending sig, jevents := jevents s @ evs,
                    jsucceeded := (jsucceeded s \<or> sig = SigRunning)\<rparr>)"
| deliver: "jm s = MSending sig \<Longrightarrow> jreader s \<Longrightarrow>
    jw_step jw s (s\<lparr>jm := MStopped, jreader := False, jout := jout s @ [sig]\<rparr>)"
| reader_leaves: "jreader s \<Longrightarrow> jw_step jw s (s\<lparr>jreader := False\<rparr>)"

inductive_cases jw_stepE: "jw_step jw s s'"

inductive jw_reach :: "JobWatcher \<Rightarrow> jw_state \<Rightarrow> bool" for jw where
  reach_init: "jw_reach jw (jw_start jw)"
| reach_step: "jw_reach jw s \<Longrightarrow> jw_step jw s s' \<Longrightarrow> jw_reach jw s'"

text \<open>The invariant: one signal at most, and \<open>SigRunning\<close> only after listening ended or a success.\<close>

definition jw_inv :: "jw_state \<Rightarrow> bool" where
  "jw_inv s \<longleftrightarrow>
     (jm s \<noteq> MStopped \<longrightarrow> jout s = []) \<and> length (jout s) \<le> 1
     \<and> (jrunning s \<longrightarrow> jlistened s \<noteq> None) \<and> (jg s = GListening \<longleftrightarrow> jlistened s = None)
     \<and> (jm s = MSending SigRunning \<or> SigRunning \<in> set (jout s) \<longrightarrow> jlistened s \<noteq> None \<or> jsucceeded s)
     \<and> (\<forall>e. jbrunerr s = Some e \<longrightarrow> (\<exists>e'. jlistened s = Some (Err e')))
     \<and> (jg s = GErrSent \<longrightarrow> (\<exists>e'. jlistened s = Some (Err e')))
     \<and> (jg s = GListened \<longrightarrow> jlistened s = Some (Ok ()))"

lemma jw_inv_start: "jw_inv (jw_start jw)"
  by (simp add: jw_inv_def jw_start_def)

lemma jw_inv_step: "jw_step jw s s' \<Longrightarrow> jw_inv s \<Longrightarrow> jw_inv s'"
  by (induction rule: jw_step.induct) (auto simp: jw_inv_def)

lemma jw_reach_inv: "jw_reach jw s \<Longrightarrow> jw_inv s"
  by (induction rule: jw_reach.induct) (auto intro: jw_inv_start jw_inv_step)

text \<open>A schedule in which the failure to listen is reported as a running build.\<close>

lemma jw_race:
  assumes "jw_w jw"
  shows "\<exists>s. jw_reach jw s \<and> jlistened s = Some (Err e) \<and> jout s = [SigRunning]"
proof -
  let ?s1 = "(jw_start jw)\<lparr>jg := GErrSent, jlistened := Some (Err e),
      jbrunerr := Some (Wrapf ''error listening for build running: '' e)\<rparr>"
  let ?s2 = "?s1\<lparr>jg := GDone, jrunning := True\<rparr>"
  let ?s3 = "?s2\<lparr>jm := MSending SigRunning\<rparr>"
  let ?s4 = "?s3\<lparr>jm := MStopped, jreader := False, jout := jout ?s3 @ [SigRunning]\<rparr>"
  have "jw_reach jw ?s1" by (intro reach_step [OF reach_init] listen_err) (simp add: jw_start_def)
  then have "jw_reach jw ?s2" by (rule reach_step) (intro close_err, simp)
  then have "jw_reach jw ?s3" by (rule reach_step) (intro sel_running, simp_all add: jw_start_def assms)
  then have "jw_reach jw ?s4" by (rule reach_step) (intro deliver, simp_all add: jw_start_def)
  then show ?thesis by (intro exI [of _ ?s4]) (simp add: jw_start_def)
qed

text \<open>
  When the reader leaves before a signal was delivered, the watcher never stops: its loop can only
  end in a send that nobody receives.
\<close>

definition jw_abandoned :: "jw_state \<Rightarrow> bool" where
  "jw_abandoned s \<longleftrightarrow> \<not> jreader s \<and> jm s \<noteq> MStopped"

lemma jw_abandoned_step: "jw_step jw s s' \<Longrightarrow> jw_abandoned s \<Longrightarrow> jw_abandoned s'"
  by (induction rule: jw_step.induct) (auto simp: jw_abandoned_def)

lemma jw_abandoned_steps: "(jw_step jw)\<^sup>*\<^sup>* s s' \<Longrightarrow> jw_abandoned s \<Longrightarrow> jw_abandoned s'"
  by (induction rule: rtranclp_induct) (auto intro: jw_abandoned_step)

section \<open>Lemmas: names, resources, cleanup\<close>

definition ascii :: "string \<Rightarrow> bool" where
  "ascii s \<longleftrightarrow> (\<forall>c \<in> set s. in_range 0 127 c)"

lemma runes_ascii: "ascii s \<Longrightarrow> runes s = map (\<lambda>c. [c]) s"
  by (induction s) (simp_all add: ascii_def runes.simps rune_len_def)

lemma concat_singletons [simp]: "concat (map (\<lambda>c. [c]) s) = s"
  by (induction s) simp_all

text \<open>On ASCII text: the whole string up to \<open>n\<close> bytes, else one byte less than \<open>n\<close>.\<close>

lemma truncateName_ascii:
  assumes "ascii s" "0 < n"
  shows "truncateName s n = Ok (if length s \<le> n then s else take (n - 1) s)"
  using assms by (simp add: truncateName_def runes_ascii take_map)

lemma length_runes: "length (runes s) \<le> length s"
proof (induction s rule: runes.induct)
  case (1 s)
  show ?case
  proof (cases "s = []")
    case False
    then have pos: "0 < length s" by simp
    show ?thesis
    proof (cases "rune_len s")
      case None
      with 1(1) False have "length (runes (tl s)) \<le> length s - 1" by simp
      then have "Suc (length (runes (tl s))) \<le> length s" using pos by linarith
      with False None show ?thesis by (subst runes.simps) simp
    next
      case (Some n)
      with 1(2) False have "length (runes (drop (max 1 n) s)) \<le> length s - max 1 n" by simp
      also have "\<dots> \<le> length s - 1" by simp
      finally have "Suc (length (runes (drop (max 1 n) s))) \<le> length s" using pos by linarith
      with False Some show ?thesis by (subst runes.simps) simp
    qed
  qed (simp add: runes.simps)
qed

text \<open>A name that is short enough is kept, so that jobs of different builds have different names.\<close>

lemma truncateName_short: "length s \<le> n \<Longrightarrow> truncateName s n = Ok s"
  using length_runes [of s] by (simp add: truncateName_def)

lemma put_quantity_ok: "within ql str maxq \<Longrightarrow> \<exists>out'. put_quantity ql key str out = Ok out'"
  by (auto simp: within_def put_quantity_def MustParse_def)

text \<open>Resources that passed the checks of \<^verbatim>\<open>StartBuild\<close> never make \<^verbatim>\<open>resources\<close> panic.\<close>

lemma resources_no_panic:
  assumes "check_resources ql mx (bo_Resources (b_BuildOptions b)) = Ok ()"
  shows "\<exists>r. resources ql b = Ok r"
proof -
  let ?r = "bo_Resources (b_BuildOptions b)"
  from assms have w: "within ql (br_CpuRequest ?r) (mx_MaxCPUReq mx)" "within ql (br_CpuLimit ?r) (mx_MaxCPULim mx)"
    "within ql (br_MemoryRequest ?r) (mx_MaxMemReq mx)" "within ql (br_MemoryLimit ?r) (mx_MaxMemLim mx)"
    by (simp_all add: check_resources_Ok)
  obtain o0 where 1: "put_quantity ql ''cpu'' (br_CpuRequest ?r) None = Ok o0" using put_quantity_ok [OF w(1)] by blast
  obtain o0' where 2: "put_quantity ql ''memory'' (br_MemoryRequest ?r) o0 = Ok o0'"
    using put_quantity_ok [OF w(3)] by blast
  obtain o1 where 3: "put_quantity ql ''cpu'' (br_CpuLimit ?r) None = Ok o1" using put_quantity_ok [OF w(2)] by blast
  obtain o1' where 4: "put_quantity ql ''memory'' (br_MemoryLimit ?r) o1 = Ok o1'"
    using put_quantity_ok [OF w(4)] by blast
  show ?thesis by (simp add: resources_def Let_def 1 2 3 4)
qed

text \<open>A cluster whose deletions succeed removes exactly the jobs created before the cutoff.\<close>

lemma delete_old_exact:
  assumes "\<And>name s. \<exists>s'. k_DeleteJob k8s c ns name s = (s', Ok ()) \<and> jobs s' = filter (\<lambda>j. jo_Name j \<noteq> name) (jobs s)"
  shows "\<exists>s'. delete_old k8s c ns cutoff js s = (s', Ok ())
    \<and> jobs s' = filter (\<lambda>j. jo_Name j \<notin> jo_Name ` {x \<in> set js. jo_CreationTimestamp x < cutoff}) (jobs s)"
proof (induction js arbitrary: s)
  case (Cons j js)
  show ?case
  proof (cases "jo_CreationTimestamp j < cutoff")
    case True
    from assms obtain s1 where 1: "k_DeleteJob k8s c ns (jo_Name j) s = (s1, Ok ())"
      "jobs s1 = filter (\<lambda>x. jo_Name x \<noteq> jo_Name j) (jobs s)" by blast
    from Cons.IH [of s1] obtain s' where 2: "delete_old k8s c ns cutoff js s1 = (s', Ok ())"
      "jobs s' = filter (\<lambda>x. jo_Name x \<notin> jo_Name ` {x \<in> set js. jo_CreationTimestamp x < cutoff}) (jobs s1)"
      by blast
    have "filter (\<lambda>x. jo_Name x \<notin> jo_Name ` {x \<in> set js. jo_CreationTimestamp x < cutoff}) (jobs s1)
        = filter (\<lambda>x. jo_Name x \<notin> jo_Name ` {x \<in> set (j # js). jo_CreationTimestamp x < cutoff}) (jobs s)"
      unfolding 1(2) filter_filter by (rule filter_cong) (use True in auto)
    with True 1(1) 2 show ?thesis by simp
  next
    case False
    then have "{x \<in> set (j # js). jo_CreationTimestamp x < cutoff} = {x \<in> set js. jo_CreationTimestamp x < cutoff}"
      by auto
    with False Cons.IH [of s] show ?thesis by simp
  qed
qed simp

section \<open>Logs\<close>

definition matchLabelsForJob :: "JobWatcher \<Rightarrow> string list go" where
  "matchLabelsForJob jw =
     (if jw_matchLabels jw = [] then Err (ErrMsg ''empty job match labels'')
      else Ok (map (\<lambda>(k, v). k @ '' = '' @ v) (jw_matchLabels jw)))"

definition PodMaxLines :: int where
  "PodMaxLines = 1000"

fun podlogs_loop ::
  "('s, 'q) k8s \<Rightarrow> 'q Pod \<Rightarrow> string list \<Rightarrow> (string \<times> string) list \<Rightarrow> ('s, (string \<times> string) list) act" where
  "podlogs_loop k8s pod [] out s = (s, Ok out)"
| "podlogs_loop k8s pod (c # cs) out s =
     (case k_GetLogs k8s (pod_Namespace pod) (pod_Name pod) c PodMaxLines of
        None \<Rightarrow> podlogs_loop k8s pod cs (AList.update c [] out) s
      | Some stream \<Rightarrow>
          (case stream s of
             (s1, Err e) \<Rightarrow> (s1, Err (Wrapf ''error getting logs: '' e))
           | (s1, Panic p) \<Rightarrow> (s1, Panic p)
           | (s1, Ok logs) \<Rightarrow> podlogs_loop k8s pod cs (AList.update c logs out) s1))"

definition podlogs :: "('s, 'q) k8s \<Rightarrow> 'q Pod \<Rightarrow> ('s, (string \<times> string) list) act" where
  "podlogs k8s pod = podlogs_loop k8s pod (pod_ContainerStatuses pod) []"

fun logs_loop ::
  "('s, 'q) k8s \<Rightarrow> 'q Pod list \<Rightarrow> (string \<times> (string \<times> string) list) list
     \<Rightarrow> ('s, (string \<times> (string \<times> string) list) list) act" where
  "logs_loop k8s [] out s = (s, Ok out)"
| "logs_loop k8s (p # ps) out s =
     (case podlogs k8s p s of
        (s1, Err e) \<Rightarrow> (s1, Err (Wrapf (''error getting logs for pod: '' @ pod_Name p @ '': '') e))
      | (s1, Panic m) \<Rightarrow> (s1, Panic m)
      | (s1, Ok l) \<Rightarrow> logs_loop k8s ps (AList.update (pod_Name p) l out) s1)"

definition Logs ::
  "('s, 'q) k8s \<Rightarrow> JobWatcher \<Rightarrow> ('s, (string \<times> (string \<times> string) list) list) act" where
  "Logs k8s jw s =
     (case matchLabelsForJob jw of
        Err e \<Rightarrow> (s, Err (Wrapf ''error getting job match selectors: '' e))
      | Panic p \<Rightarrow> (s, Panic p)
      | Ok selector \<Rightarrow>
          (let msg = ''error listing pods for selector: '' @ print_slice selector @ '': '' in
           case k_ListPods k8s (jw_JobNamespace jw) (Join selector '','') s of
             (s1, Err e) \<Rightarrow> (s1, Err (Wrapf msg e))
           | (s1, Panic p) \<Rightarrow> (s1, Panic p)
           | (s1, Ok None) \<Rightarrow> (s1, Err (ErrMsg (msg @ ''%!w(<nil>)'')))
           | (s1, Ok (Some pl)) \<Rightarrow> logs_loop k8s pl [] s1))"

section \<open>The arguments of the job as a slice\<close>

text \<open>
  The line \<^verbatim>\<open>append(info.RootArgs, \<dots>)\<close> on Go's memory: a slice is an array, a length and a capacity,
  and appending within the capacity writes into the array, which every slice of it shares.
\<close>

datatype goslice = Slice (sl_arr: nat) (sl_len: nat) (sl_cap: nat)

record gheap =
  gh_arr :: "nat \<Rightarrow> string list"
  gh_next :: nat

definition slice_read :: "goslice \<Rightarrow> gheap \<Rightarrow> string list" where
  "slice_read sl h = take (sl_len sl) (gh_arr h (sl_arr sl))"

definition go_append :: "goslice \<Rightarrow> string list \<Rightarrow> gheap \<Rightarrow> goslice \<times> gheap" where
  "go_append sl xs h =
     (let n = sl_len sl + length xs
      in if n \<le> sl_cap sl then
           (Slice (sl_arr sl) n (sl_cap sl),
            h\<lparr>gh_arr := (gh_arr h)(sl_arr sl :=
                take (sl_len sl) (gh_arr h (sl_arr sl)) @ xs @ drop n (gh_arr h (sl_arr sl)))\<rparr>)
         else
           (Slice (gh_next h) n n,
            h\<lparr>gh_arr := (gh_arr h)(gh_next h := slice_read sl h @ xs), gh_next := Suc (gh_next h)\<rparr>))"

text \<open>Lines 205 to 212 of \<^verbatim>\<open>FuranJobFunc\<close>.\<close>

definition job_args :: "goslice \<Rightarrow> uuid \<Rightarrow> gheap \<Rightarrow> goslice \<times> gheap" where
  "job_args rootargs bid h =
     go_append rootargs [''runbuild'', ''--buildkit-addr'', bkSocket, ''--build-id'', uuid_String bid] h"

definition slice_wf :: "goslice \<Rightarrow> gheap \<Rightarrow> bool" where
  "slice_wf sl h \<longleftrightarrow>
     sl_len sl \<le> sl_cap sl \<and> length (gh_arr h (sl_arr sl)) = sl_cap sl \<and> sl_arr sl < gh_next h"

lemma job_args_read:
  assumes "slice_wf root h" "job_args root bid h = (sl, h')"
  shows "slice_read sl h' =
    slice_read root h @ [''runbuild'', ''--buildkit-addr'', bkSocket, ''--build-id'', uuid_String bid]"
  using assms by (auto simp: job_args_def go_append_def slice_read_def slice_wf_def Let_def split: if_splits)

text \<open>Two jobs made one after the other: with spare capacity the second overwrites the first.\<close>

lemma job_args_shared:
  assumes "slice_wf root h" "sl_len root + 5 \<le> sl_cap root"
    and "job_args root bid1 h = (sl1, h1)" "job_args root bid2 h1 = (sl2, h2)"
  shows "slice_read sl1 h2 = slice_read sl2 h2"
  using assms by (auto simp: job_args_def go_append_def slice_read_def slice_wf_def Let_def split: if_splits)

lemma job_args_separate:
  assumes "slice_wf root h" "sl_cap root < sl_len root + 5"
    and "job_args root bid1 h = (sl1, h1)" "job_args root bid2 h1 = (sl2, h2)"
  shows "slice_read sl1 h2 = slice_read sl1 h1"
  using assms by (auto simp: job_args_def go_append_def slice_read_def slice_wf_def Let_def split: if_splits)

section \<open>Properties\<close>

text \<open>A library that parses every quantity, and the job of a build, for the witnesses.\<close>

definition demo_ql :: "string quantity_lib" where
  "demo_ql = \<lparr>ql_Parse = Ok, ql_Value = (\<lambda>q. int (length q)), ql_String = (\<lambda>q. q)\<rparr>"

definition demo_info :: "string ImageInfo" where
  "demo_info = \<lparr>ii_Namespace = ''furan'', ii_PodName = ''furan-0'', ii_Image = ''furan:v2'', ii_ServiceAccount = ''furan'',
     ii_ImagePullSecrets = [], ii_RootArgs = [''--aws-config''], ii_Requests = [], ii_Limits = [], ii_EnvVars = []\<rparr>"

definition demo_job :: "string \<Rightarrow> uuid \<Rightarrow> string Job go" where
  "demo_job repo bid = FuranJobFunc demo_ql BuildKitImage JobLabel (\<lambda>_. []) demo_info
     (zero_Build\<lparr>b_ID := bid, b_GitHubRepo := repo\<rparr>) (None, None)"

definition job_prefix :: "Build \<Rightarrow> string" where
  "job_prefix b = ''furan-build-'' @ ReplaceAll (b_GitHubRepo b) CHR ''/'' ''-'' @ ''-''"

lemma length_job_prefix: "length (job_prefix b) = 13 + length (b_GitHubRepo b)"
proof -
  have "length (ReplaceAll s c ''-'') = length s" for s c by (induction s) (simp_all add: str_simps)
  then show ?thesis by (simp add: job_prefix_def)
qed

lemma FuranJobFunc_Ok:
  assumes "FuranJobFunc ql bkimg jlab reqj info b rs = Ok j"
  shows "truncateName (job_prefix b @ uuid_String (b_ID b)) 63 = Ok (j_Name j)
    \<and> length (Split jlab CHR '':'') = 2
    \<and> j_Labels j = AList.update (Split jlab CHR '':'' ! 0) (Split jlab CHR '':'' ! 1) [(''build-id'', uuid_String (b_ID b))]
    \<and> (\<exists>c0 c1. j_Containers j = [c0, c1] \<and> c_Image c0 = ii_Image info
        \<and> c_Args c0 = ii_RootArgs info @ [''runbuild'', ''--buildkit-addr'', bkSocket, ''--build-id'', uuid_String (b_ID b)]
        \<and> c_Args c1 = [''--addr'', bkSocket] \<and> c_VolumeMounts c0 = c_VolumeMounts c1)"
  using assms
  by (auto simp: job_prefix_def FuranJobFunc_def furanjob_def furan_container_def buildkitd_container_def bind_go_eq_Ok Let_def
      split: if_splits)

lemma demo_job_Ok: "\<exists>j. demo_job repo bid = Ok j"
proof -
  have "\<exists>n. truncateName s 63 = Ok n" for s by (simp add: truncateName_def Let_def)
  then obtain n where "truncateName (''furan-build-'' @ ReplaceAll repo CHR ''/'' ''-'' @ ''-'' @ uuid_String bid) 63 = Ok n"
    by blast
  moreover have "length (Split JobLabel CHR '':'') = 2" by code_simp
  ultimately show ?thesis
    by (simp add: demo_job_def FuranJobFunc_def furanjob_def MustParse_def demo_ql_def Let_def)
qed



text \<open>
  C26: jobs of different builds have different names, as long as the name of the repository has at
  most 14 bytes, so that the identifier is not cut off.
\<close>

theorem job_names_distinct:
  assumes "length (b_GitHubRepo b1) \<le> 14" "length (b_GitHubRepo b2) \<le> 14"
    and "FuranJobFunc ql bkimg jlab reqj info b1 rs1 = Ok j1" "FuranJobFunc ql bkimg jlab reqj info b2 rs2 = Ok j2"
    and "j_Name j1 = j_Name j2"
  shows "b_ID b1 = b_ID b2"
proof -
  have n: "j_Name j = job_prefix b @ uuid_String (b_ID b)"
    if "length (b_GitHubRepo b) \<le> 14" "FuranJobFunc ql bkimg jlab reqj info b rs = Ok j" for b rs j
    using FuranJobFunc_Ok [OF that(2)] truncateName_short [of "job_prefix b @ uuid_String (b_ID b)" 63] that(1)
    by (simp add: length_job_prefix)
  have "uuid_String (b_ID b1) = uuid_String (b_ID b2)"
    using n [OF assms(1,3)] n [OF assms(2,4)] assms(5) by simp
  then show ?thesis by (simp add: uuid_String_inject)
qed

theorem job_names_distinct_witness:
  "\<exists>j1 j2. demo_job ''acme/app'' 5 = Ok j1 \<and> demo_job ''acme/app'' 6 = Ok j2 \<and> j_Name j1 \<noteq> j_Name j2"
proof -
  from demo_job_Ok obtain j1 j2 where j: "demo_job ''acme/app'' 5 = Ok j1" "demo_job ''acme/app'' 6 = Ok j2" by metis
  from job_names_distinct [OF _ _ j [unfolded demo_job_def]] j show ?thesis by auto
qed

lemma ascii_job_name:
  assumes "ascii (b_GitHubRepo b)"
  shows "ascii (job_prefix b @ uuid_String (b_ID b))"
proof -
  have hex: "\<forall>d \<in> {..<16}. in_range 0 127 (hex_digit d)" by code_simp
  have "c \<in> set (uuid_hex u) \<Longrightarrow> in_range 0 127 c" for u c
    using hex nibbles_lt by (auto simp: uuid_hex_def)
  then have "ascii (uuid_String (b_ID b))"
    by (auto simp: ascii_def uuid_String_def Let_def dest!: in_set_takeD in_set_dropD) (simp_all add: in_range_def)
  moreover have "ascii s \<Longrightarrow> ascii (ReplaceAll s CHR ''/'' ''-'')" for s
    by (induction s) (auto simp: ascii_def str_simps in_range_def)
  ultimately show ?thesis using assms by (auto simp: ascii_def job_prefix_def in_range_def)
qed

text \<open>
  For a repository with an ASCII name of 49 bytes or more the name of the job is cut before the
  identifier: all builds of the repository get the same job name.
\<close>

theorem job_names_collide:
  assumes "ascii (b_GitHubRepo b1)" "49 \<le> length (b_GitHubRepo b1)" "b_GitHubRepo b2 = b_GitHubRepo b1"
    and "FuranJobFunc ql bkimg jlab reqj info b1 rs1 = Ok j1" "FuranJobFunc ql bkimg jlab reqj info b2 rs2 = Ok j2"
  shows "j_Name j1 = j_Name j2"
proof -
  have n: "j_Name j = take 62 (job_prefix b)"
    if "ascii (b_GitHubRepo b)" "49 \<le> length (b_GitHubRepo b)" "FuranJobFunc ql bkimg jlab reqj info b rs = Ok j" for b rs j
    using FuranJobFunc_Ok [OF that(3)] truncateName_ascii [OF ascii_job_name [OF that(1)], of 63] that(2)
    by (simp add: length_job_prefix)
  have "job_prefix b2 = job_prefix b1" using assms(3) by (simp add: job_prefix_def)
  then show ?thesis
    using n [OF assms(1,2,4)] n [of b2 rs2 j2] assms(1,2,3,5) by simp
qed

theorem job_names_collide_witness:
  "\<exists>j1 j2. demo_job (replicate 50 CHR ''a'') 5 = Ok j1 \<and> demo_job (replicate 50 CHR ''a'') 6 = Ok j2
    \<and> j_Name j1 = j_Name j2"
proof -
  from demo_job_Ok obtain j1 j2
    where j: "demo_job (replicate 50 CHR ''a'') 5 = Ok j1" "demo_job (replicate 50 CHR ''a'') 6 = Ok j2" by metis
  from job_names_collide [OF _ _ _ j [unfolded demo_job_def]] j show ?thesis by (auto simp: ascii_def in_range_def)
qed


definition demo_k8s :: "(JobObject list, string) k8s" where
  "demo_k8s = \<lparr>k_GetPod = (\<lambda>_ _ s. (s, Err (ErrMsg ''no pod''))),
     k_CreateJob = (\<lambda>ns j s. (s, Ok \<lparr>jo_Name = j_Name j, jo_Namespace = ns, jo_CreationTimestamp = Time 9 0, jo_Selector = Some []\<rparr>)),
     k_WatchJobs = (\<lambda>_ _ s. (s, Err (ErrMsg ''watch refused''))),
     k_ListJobs = (\<lambda>_ _ _ s. (s, Ok s)),
     k_DeleteJob = (\<lambda>_ _ name s. (filter (\<lambda>j. jo_Name j \<noteq> name) s, Ok ())),
     k_ListPods = (\<lambda>_ _ s. (s, Ok None)), k_GetLogs = (\<lambda>_ _ _ _. None)\<rparr>"

definition demo_jobs :: "JobObject list" where
  "demo_jobs = [\<lparr>jo_Name = ''old'', jo_Namespace = ''furan'', jo_CreationTimestamp = Time 1 0, jo_Selector = None\<rparr>,
     \<lparr>jo_Name = ''new'', jo_Namespace = ''furan'', jo_CreationTimestamp = Time 9 0, jo_Selector = None\<rparr>]"

definition demo_pe :: podenv where
  "demo_pe = \<lparr>pe_LookupEnv = (\<lambda>_. None), pe_NamespaceFile = Ok ''furan''\<rparr>"



definition demo_jw :: JobWatcher where
  "demo_jw = \<lparr>jw_buildID = 5, jw_JobName = ''job'', jw_JobNamespace = ''furan'', jw_matchLabels = [], jw_timeout = 0, jw_w = True\<rparr>"


text \<open>
  The watcher can report a failure as success: \<^verbatim>\<open>running\<close> is closed also when the listening failed,
  so that for every error there is a schedule in which the error is replaced by the signal that the
  build is running.
\<close>

theorem watcher_race:
  assumes "jw_w jw"
  shows "\<exists>s. jw_reach jw s \<and> jlistened s = Some (Err e) \<and> jout s = [SigRunning]"
  by (rule jw_race [OF assms])

theorem watcher_race_witness:
  "\<exists>s. jw_reach demo_jw s \<and> jlistened s = Some (Err ErrCanceled) \<and> jout s = [SigRunning]"
  by (rule watcher_race) (simp add: demo_jw_def)

text \<open>
  A watcher whose reader has left (the handoff timed out) before a signal was delivered never
  stops: whatever happens afterwards, it does not get past its loop or its send, and nothing is
  delivered.
\<close>

theorem watcher_leaks:
  assumes "jw_reach jw s" "\<not> jreader s" "jm s \<noteq> MStopped" "(jw_step jw)\<^sup>*\<^sup>* s s'"
  shows "jm s' \<noteq> MStopped \<and> jout s' = []"
proof -
  have "jw_reach jw s'" using assms(4,1) by (induction rule: rtranclp_induct) (auto intro: reach_step)
  moreover have "jw_abandoned s'" using jw_abandoned_steps [OF assms(4)] assms(2,3) by (simp add: jw_abandoned_def)
  ultimately show ?thesis using jw_reach_inv [of jw s'] by (auto simp: jw_inv_def jw_abandoned_def)
qed

theorem watcher_leaks_witness:
  "let s = (jw_start demo_jw)\<lparr>jreader := False\<rparr>; s' = s\<lparr>jm := MSending (SigError (ErrMsg ''job was deleted''))\<rparr>
   in (jw_step demo_jw)\<^sup>*\<^sup>* s s' \<and> jm s' \<noteq> MStopped \<and> jout s' = []"
proof -
  let ?s = "(jw_start demo_jw)\<lparr>jreader := False\<rparr>"
  let ?s' = "?s\<lparr>jm := MSending (SigError (ErrMsg ''job was deleted''))\<rparr>"
  have r: "jw_reach demo_jw ?s" by (rule reach_step [OF reach_init reader_leaves]) (simp add: jw_start_def)
  have "jw_step demo_jw ?s (?s\<lparr>jm := MSending (SigError (ErrMsg ''job was deleted'')), jevents := jevents ?s @ [],
      jsucceeded := (jsucceeded ?s \<or> SigError (ErrMsg ''job was deleted'') = SigRunning)\<rparr>)"
    by (rule sel_event [of _ Deleted "ObjJob 0 [] None"]) (simp_all add: jw_start_def demo_jw_def processEvent_def)
  then have st: "(jw_step demo_jw)\<^sup>*\<^sup>* ?s ?s'" by (simp add: jw_start_def r_into_rtranclp)
  from watcher_leaks [OF r _ _ st] st show ?thesis by (simp add: jw_start_def demo_jw_def)
qed

text \<open>
  Two jobs that are created one after the other can share their arguments: the root arguments of
  the server are appended to in place when their slice has room for five more, so that the arguments
  of the first job become those of the second, which run the second build.
\<close>

theorem job_arguments_shared:
  assumes "slice_wf root h" "sl_len root + 5 \<le> sl_cap root"
    and "job_args root bid1 h = (sl1, h1)" "job_args root bid2 h1 = (sl2, h2)"
  shows "slice_read sl1 h2 = slice_read root h @ [''runbuild'', ''--buildkit-addr'', bkSocket, ''--build-id'', uuid_String bid2]"
  using assms by (auto simp: job_args_def go_append_def slice_read_def slice_wf_def Let_def split: if_splits)

theorem job_arguments_shared_witness:
  "let root = Slice 0 1 8; h = \<lparr>gh_arr = (\<lambda>_. ''--x'' # replicate 7 []), gh_next = 1\<rparr>;
       (sl1, h1) = job_args root 5 h; (sl2, h2) = job_args root 6 h1
   in slice_read sl1 h2 = [''--x'', ''runbuild'', ''--buildkit-addr'', bkSocket, ''--build-id'', uuid_String 6]"
proof -
  let ?root = "Slice 0 1 8"
  let ?h = "\<lparr>gh_arr = (\<lambda>_. ''--x'' # replicate 7 []), gh_next = 1\<rparr>"
  obtain sl1 h1 where 1: "job_args ?root 5 ?h = (sl1, h1)" by fastforce
  obtain sl2 h2 where 2: "job_args ?root 6 h1 = (sl2, h2)" by fastforce
  from job_arguments_shared [OF _ _ 1 2] 1 2 show ?thesis by (simp add: slice_wf_def slice_read_def)
qed

end
