(* ===== verification/Furan_Github.thy ===== *)
theory Furan_Github
  imports Furan_Builder
begin

text \<open>
  \<^verbatim>\<open>pkg/github/github.go\<close>: the code fetcher.  The GitHub API, the HTTP transport and the file system
  are arguments; the tar stream is the list of what its reader returns.  Shown: where the
  extraction writes.
\<close>

section \<open>GitHub\<close>

record archive_link =
  al_url :: "string option"
  al_StatusCode :: int
  al_Status :: string

record tar_entry =
  te_Name :: string
  te_Typeflag :: char
  te_Linkname :: string
  te_Mode :: nat
  te_IsDir :: bool
  te_Content :: "string go"

text \<open>What \<^verbatim>\<open>tgz.Read\<close> returns: an entry with a tar header, or one whose header has another type.\<close>

datatype tar_item = TarFile tar_entry | NoTarHeader string

record archive =
  ar_StatusCode :: int
  ar_Open :: "unit go"
  ar_Items :: "tar_item go list"

record 's github_api =
  gh_GetCommitSHA1 :: "ctx \<Rightarrow> string \<Rightarrow> string \<Rightarrow> string \<Rightarrow> ('s, string) act"
  gh_GetArchiveLink :: "ctx \<Rightarrow> string \<Rightarrow> string \<Rightarrow> string \<Rightarrow> ('s, archive_link) act"
  gh_NewRequest :: "string \<Rightarrow> unit go"
  gh_Get :: "string \<Rightarrow> ('s, archive option) act"

record 's fs =
  fs_NotExist :: "string \<Rightarrow> 's \<Rightarrow> bool"
  fs_MkdirAll :: "string \<Rightarrow> nat \<Rightarrow> ('s, unit) act"
  fs_Create :: "string \<Rightarrow> ('s, unit) act"
  fs_Chmod :: "string \<Rightarrow> nat \<Rightarrow> ('s, unit) act"
  fs_Copy :: "string \<Rightarrow> string go \<Rightarrow> ('s, unit) act"
  fs_Lstat :: "string \<Rightarrow> ('s, unit) act"
  fs_Remove :: "string \<Rightarrow> ('s, unit) act"
  fs_Symlink :: "string \<Rightarrow> string \<Rightarrow> ('s, unit) act"
  fs_Link :: "string \<Rightarrow> string \<Rightarrow> ('s, unit) act"

text \<open>\<^verbatim>\<open>rs[0], rs[1]\<close> of the split repository name; the second index panics when there is no slash.\<close>

definition owner_repo :: "string \<Rightarrow> (string \<times> string) go" where
  "owner_repo repo =
     (let rs = SplitN2 repo CHR ''/''
      in if length rs < 2 then Panic ''index out of range [1] with length 1'' else Ok (rs ! 0, rs ! 1))"

definition gh_GetCommitSHA :: "'s github_api \<Rightarrow> ctx \<Rightarrow> string \<Rightarrow> string \<Rightarrow> ('s, string) act" where
  "gh_GetCommitSHA gh c repo ref =
     bind_act (ret_act (owner_repo repo)) (\<lambda>(owner, name). gh_GetCommitSHA1 gh c owner name ref)"

section \<open>The file system\<close>

text \<open>\<^verbatim>\<open>filepath.Dir\<close>: what comes before the last slash, cleaned.\<close>

definition filepath_Dir :: "string \<Rightarrow> string" where
  "filepath_Dir p = Clean (rev (dropWhile (\<lambda>c. c \<noteq> CHR ''/'') (rev p)))"

definition fileExists :: "'s fs \<Rightarrow> string \<Rightarrow> 's \<Rightarrow> bool" where
  "fileExists fs name s \<longleftrightarrow> \<not> fs_NotExist fs name s"

definition mkdir :: "'s fs \<Rightarrow> string \<Rightarrow> nat \<Rightarrow> ('s, unit) act" where
  "mkdir fs dirPath mode = wrap_act (dirPath @ '': making directory: '') (fs_MkdirAll fs dirPath mode)"

definition writeNewFile :: "'s fs \<Rightarrow> string \<Rightarrow> string go \<Rightarrow> nat \<Rightarrow> ('s, unit) act" where
  "writeNewFile fs fpath content fm =
     bind_act (wrap_act (fpath @ '': making directory for file: '') (fs_MkdirAll fs (filepath_Dir fpath) 493)) (\<lambda>_.
     bind_act (wrap_act (fpath @ '': creating new file: '') (fs_Create fs fpath)) (\<lambda>_.
     bind_act (wrap_act (fpath @ '': changing file mode: '') (fs_Chmod fs fpath fm)) (\<lambda>_.
     wrap_act (fpath @ '': writing file: '') (fs_Copy fs fpath content))))"

definition unlink_if_there :: "'s fs \<Rightarrow> string \<Rightarrow> ('s, unit) act" where
  "unlink_if_there fs fpath s =
     (case fs_Lstat fs fpath s of
        (s1, Ok _) \<Rightarrow> wrap_act (fpath @ '': failed to unlink: '') (fs_Remove fs fpath) s1
      | (s1, Err e) \<Rightarrow> (s1, Ok ())
      | (s1, Panic p) \<Rightarrow> (s1, Panic p))"

definition writeNewSymbolicLink :: "'s fs \<Rightarrow> string \<Rightarrow> string \<Rightarrow> ('s, unit) act" where
  "writeNewSymbolicLink fs fpath target =
     bind_act (wrap_act (fpath @ '': making directory for file: '') (fs_MkdirAll fs (filepath_Dir fpath) 493)) (\<lambda>_.
     bind_act (unlink_if_there fs fpath) (\<lambda>_.
     wrap_act (fpath @ '': making symbolic link for: '') (fs_Symlink fs target fpath)))"

definition writeNewHardLink :: "'s fs \<Rightarrow> string \<Rightarrow> string \<Rightarrow> ('s, unit) act" where
  "writeNewHardLink fs fpath target =
     bind_act (wrap_act (fpath @ '': making directory for file: '') (fs_MkdirAll fs (filepath_Dir fpath) 493)) (\<lambda>_.
     bind_act (unlink_if_there fs fpath) (\<lambda>_.
     wrap_act (fpath @ '': making hard link for: '') (fs_Link fs target fpath)))"

definition untarFile :: "'s fs \<Rightarrow> string \<Rightarrow> tar_entry \<Rightarrow> ('s, unit) act" where
  "untarFile fs destination hdr s =
     (let to = filepath_Join [destination, te_Name hdr];
          t = te_Typeflag hdr
      in if \<not> te_IsDir hdr \<and> fileExists fs to s then (s, Err (ErrMsg (''file already exists: '' @ to)))
         else if t = CHR ''5'' then mkdir fs to (te_Mode hdr) s
         else if t \<in> {CHR ''0'', CHR 0x00, CHR ''3'', CHR ''4'', CHR ''6'', CHR ''S''} then
           writeNewFile fs to (te_Content hdr) (te_Mode hdr) s
         else if t = CHR ''2'' then writeNewSymbolicLink fs to (te_Linkname hdr) s
         else if t = CHR ''1'' then
           writeNewHardLink fs to (filepath_Join [destination, te_Linkname hdr]) s
         else if t = CHR ''g'' then (s, Ok ())
         else (s, Err (ErrMsg (te_Name hdr @ '': unknown type flag: '' @ [t]))))"

text \<open>The loop of \<^verbatim>\<open>extractArchive\<close> over what the reader returns; a reader at its end returns \<^verbatim>\<open>io.EOF\<close>.\<close>

fun untar_loop :: "'s fs \<Rightarrow> string \<Rightarrow> tar_item go list \<Rightarrow> ('s, unit) act" where
  "untar_loop fs dest [] s = (s, Ok ())"
| "untar_loop fs dest (Err e # items) s =
     (s, if e = ErrEOF then Ok () else Err (Wrapf ''error reading file from tar stream: '' e))"
| "untar_loop fs dest (Panic p # items) s = (s, Panic p)"
| "untar_loop fs dest (Ok (NoTarHeader t) # items) s =
     (s, Err (Wrapf ''error reading file from tar stream: ''
              (ErrMsg (''expected header to be *tar.Header but was '' @ t))))"
| "untar_loop fs dest (Ok (TarFile f) # items) s =
     (case untarFile fs dest f s of
        (s1, Ok _) \<Rightarrow> untar_loop fs dest items s1
      | (s1, Err e) \<Rightarrow>
          (s1, if e = ErrEOF then Ok () else Err (Wrapf ''error reading file from tar stream: '' e))
      | (s1, Panic p) \<Rightarrow> (s1, Panic p))"

definition extractArchive :: "'s fs \<Rightarrow> archive \<Rightarrow> string \<Rightarrow> ('s, unit) act" where
  "extractArchive fs ar dest =
     bind_act (wrap_act ''error opening tar stream: '' (ret_act (ar_Open ar))) (\<lambda>_.
       untar_loop fs dest (ar_Items ar))"

text \<open>\<^verbatim>\<open>fmt.Errorf("p: %v", err)\<close> loses the error value.\<close>

definition flat_act :: "string \<Rightarrow> ('s, 'a) act \<Rightarrow> ('s, 'a) act" where
  "flat_act p m s =
     (case m s of (s1, Err e) \<Rightarrow> (s1, Err (ErrMsg (p @ errstr e))) | (s1, r) \<Rightarrow> (s1, r))"

definition getAndExtractArchive :: "'s github_api \<Rightarrow> 's fs \<Rightarrow> string \<Rightarrow> string \<Rightarrow> ('s, unit) act" where
  "getAndExtractArchive gh fs url destination =
     bind_act (flat_act ''error creating http request: '' (ret_act (gh_NewRequest gh url))) (\<lambda>_.
     bind_act (flat_act ''error performing archive http request: '' (gh_Get gh url)) (\<lambda>resp.
       case resp of
         None \<Rightarrow> ret_act (Err (ErrMsg ''error getting archive: response is nil''))
       | Some ar \<Rightarrow>
           if ar_StatusCode ar > 299 then
             ret_act (Err (ErrMsg (''archive http request failed: '' @ itoa (ar_StatusCode ar))))
           else extractArchive fs ar destination))"

definition gh_Fetch :: "'s github_api \<Rightarrow> 's fs \<Rightarrow> ctx \<Rightarrow> string \<Rightarrow> string \<Rightarrow> string \<Rightarrow> ('s, unit) act" where
  "gh_Fetch gh fs c repo ref destinationPath =
     bind_act (ret_act (owner_repo repo)) (\<lambda>(owner, name).
     bind_act (flat_act ''error getting archive link: '' (gh_GetArchiveLink gh c owner name ref)) (\<lambda>al.
       if al_StatusCode al > 399 then
         ret_act (Err (ErrMsg (''error status when getting archive link: '' @ al_Status al)))
       else case al_url al of
              None \<Rightarrow> ret_act (Err (ErrMsg ''url is nil''))
            | Some u \<Rightarrow> getAndExtractArchive gh fs u destinationPath))"

definition NewGitHubFetcher :: "'s github_api \<Rightarrow> 's fs \<Rightarrow> 's CodeFetcher" where
  "NewGitHubFetcher gh fs =
     \<lparr>cf_GetCommitSHA = gh_GetCommitSHA gh, cf_Fetch = gh_Fetch gh fs\<rparr>"

section \<open>Where the extraction writes\<close>

lemma owner_repo_cases:
  "owner_repo repo =
     (if CHR ''/'' \<in> set repo then
        Ok (takeWhile (\<lambda>x. x \<noteq> CHR ''/'') repo, tl (dropWhile (\<lambda>x. x \<noteq> CHR ''/'') repo))
      else Panic ''index out of range [1] with length 1'')"
  by (simp add: owner_repo_def SplitN2_def Let_def)

lemma Split_append_sep: "Split (s @ c # t) c = Split s c @ Split t c"
  by (induction s) (auto split: list.splits)

text \<open>Elements of a path that has no \<^verbatim>\<open>..\<close> are only added.\<close>

lemma clean_elems_add:
  "''..'' \<notin> set es \<Longrightarrow>
     clean_elems rooted acc es = rev acc @ filter (\<lambda>e. e \<noteq> [] \<and> e \<noteq> ''.'') es"
  by (induction es arbitrary: acc) (auto split: list.splits)

lemma clean_elems_append:
  "clean_elems rooted acc (es @ fs) = clean_elems rooted (rev (clean_elems rooted acc es)) fs"
  by (induction rooted acc es rule: clean_elems.induct) (auto split: list.splits)

text \<open>The elements of a cleaned absolute path.\<close>

definition path_elems :: "string \<Rightarrow> string list" where
  "path_elems p = clean_elems (HasPrefix p ''/'') [] (Split p CHR ''/'')"

lemma Join_elems:
  assumes "HasPrefix dest ''/''"
  shows "filepath_Join [dest, name] = Clean (dest @ ''/'' @ name)"
    and "path_elems (dest @ ''/'' @ name) =
      clean_elems True (rev (path_elems dest)) (Split name CHR ''/'')"
proof -
  from assms have "dest \<noteq> []" by (auto simp: HasPrefix_def)
  then show "filepath_Join [dest, name] = Clean (dest @ ''/'' @ name)" by (simp add: filepath_Join_def)
  have "HasPrefix (dest @ ''/'' @ name) ''/''" using assms by (auto simp: HasPrefix_iff)
  with assms show "path_elems (dest @ ''/'' @ name) =
      clean_elems True (rev (path_elems dest)) (Split name CHR ''/'')"
    using Split_append_sep [of dest "CHR ''/''" name] by (simp add: path_elems_def clean_elems_append)
qed

text \<open>A member name without \<^verbatim>\<open>..\<close> is extracted below the destination.\<close>

lemma untar_inside:
  assumes "HasPrefix dest ''/''" "''..'' \<notin> set (Split name CHR ''/'')"
  shows "\<exists>es. filepath_Join [dest, name] = CHR ''/'' # Join (path_elems dest @ es) ''/''"
proof -
  have "HasPrefix (dest @ ''/'' @ name) ''/''" using assms(1) by (auto simp: HasPrefix_iff)
  then have "filepath_Join [dest, name] = CHR ''/'' # Join (path_elems (dest @ ''/'' @ name)) ''/''"
    using assms(1) by (simp add: Join_elems(1) Clean_def path_elems_def Let_def)
  moreover have "path_elems (dest @ ''/'' @ name) =
      path_elems dest @ filter (\<lambda>e. e \<noteq> [] \<and> e \<noteq> ''.'') (Split name CHR ''/'')"
    using Join_elems(2) [OF assms(1), of name] clean_elems_add [OF assms(2)] by simp
  ultimately show ?thesis by auto
qed

section \<open>Properties\<close>

text \<open>Path elements as \<^verbatim>\<open>Clean\<close> leaves them, and the paths below a directory.\<close>

definition proper :: "string \<Rightarrow> bool" where
  "proper e \<longleftrightarrow> e \<noteq> [] \<and> e \<noteq> ''.'' \<and> e \<noteq> ''..'' \<and> CHR ''/'' \<notin> set e"

definition below :: "string \<Rightarrow> string \<Rightarrow> bool" where
  "below dest p \<longleftrightarrow> (\<exists>es. p = CHR ''/'' # Join (path_elems dest @ es) ''/'')"

lemma clean_elems_proper:
  "list_all proper acc \<Longrightarrow> (\<forall>e \<in> set es. CHR ''/'' \<notin> set e) \<Longrightarrow> list_all proper (clean_elems True acc es)"
proof (induction es arbitrary: acc)
  case (Cons e es)
  then have ns: "\<forall>x \<in> set es. CHR ''/'' \<notin> set x" "CHR ''/'' \<notin> set e" by simp_all
  consider "e = [] \<or> e = ''.''" | "e = ''..''" | "\<not> (e = [] \<or> e = ''.'')" "e \<noteq> ''..''" by blast
  then show ?case
  proof cases
    case 1
    with Cons ns show ?thesis by simp
  next
    case 2
    then have "clean_elems True acc (e # es) = clean_elems True (tl acc) es"
      using Cons.prems(1) by (cases acc) (simp_all add: proper_def)
    moreover have "list_all proper (tl acc)" using Cons.prems(1) by (cases acc) simp_all
    ultimately show ?thesis using Cons.IH ns by simp
  next
    case 3
    then have "clean_elems True acc (e # es) = clean_elems True (e # acc) es"
      by (simp only: clean_elems.simps if_False)
    moreover have "proper e" using 3 ns by (simp only: proper_def) blast
    ultimately show ?thesis using Cons.IH [of "e # acc"] Cons.prems(1) ns by simp
  qed
qed (simp add: list_all_iff)

lemma path_elems_proper: "HasPrefix p ''/'' \<Longrightarrow> list_all proper (path_elems p)"
  unfolding path_elems_def using Split_no_sep [of p "CHR ''/''"] by (simp add: clean_elems_proper)

lemma Split_single: "c \<notin> set e \<Longrightarrow> Split e c = [e]"
  by (induction e) auto

lemma Split_Join: "es \<noteq> [] \<Longrightarrow> \<forall>e \<in> set es. c \<notin> set e \<Longrightarrow> Split (Join es [c]) c = es"
  by (induction es "[c]" rule: Join.induct) (simp_all add: Split_append_sep Split_single)

lemma Join_snoc: "ds \<noteq> [] \<Longrightarrow> Join (ds @ [e]) sep = Join ds sep @ sep @ e"
  by (induction ds sep rule: Join.induct) auto

lemma Clean_elems: "list_all proper es \<Longrightarrow> Clean (CHR ''/'' # Join es ''/'' @ t) = CHR ''/'' # Join es ''/''"
  if "t = [] \<or> (t = ''/'' \<and> es \<noteq> [])"
proof (cases "es = []")
  case True
  with that show ?thesis by (simp add: Clean_def HasPrefix_def Let_def)
next
  case False
  assume p: "list_all proper es"
  then have ns: "\<forall>e \<in> set es. CHR ''/'' \<notin> set e" "''..'' \<notin> set es" "filter (\<lambda>e. e \<noteq> [] \<and> e \<noteq> ''.'') es = es"
    by (auto simp: list_all_iff proper_def filter_id_conv)
  have "Split (Join es ''/'' @ t) CHR ''/'' = es @ (if t = [] then [] else [[]])"
    using that Split_Join [OF False ns(1)] Split_append_sep [of "Join es ''/''" "CHR ''/''" "[]"] by auto
  then show ?thesis
    using ns by (auto simp: Clean_def HasPrefix_def Let_def clean_elems_add)
qed

text \<open>The directory of a path is the path without its last element.\<close>

lemma filepath_Dir_snoc:
  assumes "list_all proper (ds @ [e])"
  shows "filepath_Dir (CHR ''/'' # Join (ds @ [e]) ''/'') = CHR ''/'' # Join ds ''/''"
proof -
  have drop: "dropWhile (\<lambda>c. c \<noteq> CHR ''/'') (rev e @ CHR ''/'' # xs) = CHR ''/'' # xs" for xs
    using assms by (subst dropWhile_append2) (auto simp: proper_def)
  show ?thesis
  proof (cases "ds = []")
    case True
    then show ?thesis using drop [of "[]"] by (simp add: filepath_Dir_def Clean_def HasPrefix_def Let_def)
  next
    case False
    have "rev (CHR ''/'' # Join (ds @ [e]) ''/'') = rev e @ CHR ''/'' # rev (CHR ''/'' # Join ds ''/'')"
      using False by (simp add: Join_snoc)
    then have "filepath_Dir (CHR ''/'' # Join (ds @ [e]) ''/'') = Clean (CHR ''/'' # Join ds ''/'' @ ''/'')"
      using drop [of "rev (CHR ''/'' # Join ds ''/'')"] by (simp add: filepath_Dir_def)
    also have "\<dots> = CHR ''/'' # Join ds ''/''"
      using Clean_elems [of "''/''" ds] False assms by simp
    finally show ?thesis .
  qed
qed

text \<open>A member name without \<^verbatim>\<open>..\<close> that names something: the target and its directory are below.\<close>

lemma untar_paths_below:
  assumes "HasPrefix dest ''/''" "''..'' \<notin> set (Split name CHR ''/'')" "\<exists>e \<in> set (Split name CHR ''/''). e \<noteq> [] \<and> e \<noteq> ''.''"
  shows "below dest (filepath_Join [dest, name])" "below dest (filepath_Dir (filepath_Join [dest, name]))"
proof -
  let ?es = "filter (\<lambda>e. e \<noteq> [] \<and> e \<noteq> ''.'') (Split name CHR ''/'')"
  have "HasPrefix (dest @ ''/'' @ name) ''/''" using assms(1) by (auto simp: HasPrefix_iff)
  then have "filepath_Join [dest, name] = CHR ''/'' # Join (path_elems (dest @ ''/'' @ name)) ''/''"
    using assms(1) by (simp add: Join_elems(1) Clean_def path_elems_def Let_def)
  then have p: "filepath_Join [dest, name] = CHR ''/'' # Join (path_elems dest @ ?es) ''/''"
    using Join_elems(2) [OF assms(1), of name] clean_elems_add [OF assms(2)] by simp
  then show "below dest (filepath_Join [dest, name])" unfolding below_def by blast
  have "?es \<noteq> []" using assms(3) by (auto simp: filter_empty_conv)
  then obtain ds e where es: "?es = ds @ [e]" by (metis rev_exhaust)
  have "list_all proper ?es"
    using Split_no_sep [of name "CHR ''/''"] assms(2) by (auto simp: list_all_iff proper_def)
  then have "list_all proper ((path_elems dest @ ds) @ [e])"
    using path_elems_proper [OF assms(1)] es by simp
  from filepath_Dir_snoc [OF this] p es show "below dest (filepath_Dir (filepath_Join [dest, name]))"
    unfolding below_def by (metis append_assoc)
qed

text \<open>What the operations of the file system keep, when they are given paths below \<open>dest\<close>.\<close>

definition fs_keeps :: "('s \<Rightarrow> bool) \<Rightarrow> string \<Rightarrow> 's fs \<Rightarrow> bool" where
  "fs_keeps Q dest fs \<longleftrightarrow>
     (\<forall>p. below dest p \<longrightarrow>
        (\<forall>m. keeps Q (fs_MkdirAll fs p m)) \<and> keeps Q (fs_Create fs p) \<and> (\<forall>m. keeps Q (fs_Chmod fs p m))
        \<and> (\<forall>x. keeps Q (fs_Copy fs p x)) \<and> keeps Q (fs_Lstat fs p) \<and> keeps Q (fs_Remove fs p)
        \<and> (\<forall>t. keeps Q (fs_Symlink fs t p)) \<and> (\<forall>t. keeps Q (fs_Link fs t p)))"

lemma unlink_keeps: "fs_keeps Q dest fs \<Longrightarrow> below dest p \<Longrightarrow> keeps Q (unlink_if_there fs p)"
  unfolding keeps_def
proof (intro allI impI)
  fix s
  assume k: "fs_keeps Q dest fs" "below dest p" "Q s"
  obtain s1 r where l: "fs_Lstat fs p s = (s1, r)" by fastforce
  have "Q s1" using k l unfolding fs_keeps_def keeps_def by (metis fst_conv)
  moreover have "keeps Q (wrap_act (p @ '': failed to unlink: '') (fs_Remove fs p))"
    using k by (intro keeps_wrap) (simp add: fs_keeps_def)
  ultimately show "Q (fst (unlink_if_there fs p s))"
    using l by (cases r) (auto simp: unlink_if_there_def keeps_def)
qed


text \<open>A file system that logs the paths it is given.\<close>

definition log_fs :: "string list fs" where
  "log_fs = \<lparr>fs_NotExist = (\<lambda>p s. True), fs_MkdirAll = (\<lambda>p m s. (s @ [p], Ok ())), fs_Create = (\<lambda>p s. (s @ [p], Ok ())),
     fs_Chmod = (\<lambda>p m s. (s @ [p], Ok ())), fs_Copy = (\<lambda>p x s. (s @ [p], Ok ())), fs_Lstat = (\<lambda>p s. (s @ [p], Err ErrEOF)),
     fs_Remove = (\<lambda>p s. (s @ [p], Ok ())), fs_Symlink = (\<lambda>t p s. (s @ [p], Ok ())), fs_Link = (\<lambda>t p s. (s @ [p], Ok ()))\<rparr>"

definition tar_named :: "string \<Rightarrow> tar_entry" where
  "tar_named name = \<lparr>te_Name = name, te_Typeflag = CHR ''0'', te_Linkname = [], te_Mode = 420, te_IsDir = False, te_Content = Ok []\<rparr>"


text \<open>
  Names with \<^verbatim>\<open>..\<close> are not refused: a member \<^verbatim>\<open>../../etc/cron.d/x\<close> of an archive that is extracted
  into \<^verbatim>\<open>/tmp/ctx\<close> is created as \<^verbatim>\<open>/etc/cron.d/x\<close>.
\<close>

theorem untar_escapes:
  "untarFile log_fs ''/tmp/ctx'' (tar_named ''../../etc/cron.d/x'') [] =
     ([''/etc/cron.d'', ''/etc/cron.d/x'', ''/etc/cron.d/x'', ''/etc/cron.d/x''], Ok ())"
  by code_simp

text \<open>
  A repository name without a slash makes both calls of the code fetcher panic, before anything
  is asked of GitHub; with a slash the calls use what is before and after the first one.
\<close>

theorem repo_name_split:
  "if CHR ''/'' \<in> set repo
   then (\<exists>owner name. repo = owner @ ''/'' @ name \<and> CHR ''/'' \<notin> set owner
          \<and> gh_GetCommitSHA gh c repo ref = gh_GetCommitSHA1 gh c owner name ref)
   else (\<exists>p. gh_GetCommitSHA gh c repo ref s = (s, Panic p) \<and> gh_Fetch gh fs c repo ref dest s = (s, Panic p))"
proof (cases "CHR ''/'' \<in> set repo")
  case True
  let ?o = "takeWhile (\<lambda>x. x \<noteq> CHR ''/'') repo"
  let ?n = "tl (dropWhile (\<lambda>x. x \<noteq> CHR ''/'') repo)"
  have "SplitN2 repo CHR ''/'' = [?o, ?n]" using True by (simp add: SplitN2_def)
  from SplitN2_join [OF True this] have "repo = ?o @ ''/'' @ ?n" .
  moreover have "CHR ''/'' \<notin> set ?o" by (auto dest: set_takeWhileD)
  moreover have "gh_GetCommitSHA gh c repo ref = gh_GetCommitSHA1 gh c ?o ?n ref"
    using True by (intro ext) (simp add: gh_GetCommitSHA_def owner_repo_cases bind_act_def ret_act_def)
  ultimately show ?thesis using True by auto
next
  case False
  then show ?thesis
    by (simp add: gh_GetCommitSHA_def gh_Fetch_def owner_repo_cases bind_act_def ret_act_def)
qed

end
