(* ===== verification/Furan_Registry.thy ===== *)
theory Furan_Registry
  imports Furan_Builder
begin

text \<open>
  \<^verbatim>\<open>pkg/tagcheck\<close>: whether all tags of a build exist in an image registry already (Quay, ECR, GCR),
  and \<^verbatim>\<open>pkg/auth/auth.go\<close>: the credentials for a registry.  HTTP, the AWS clients and the parser of
  ECR host names are arguments.
\<close>

section \<open>Quay\<close>

text \<open>\<^verbatim>\<open>fmt.Sprintf\<close> with the verb \<^verbatim>\<open>%s\<close> only.\<close>

fun sprintf_s :: "string \<Rightarrow> string list \<Rightarrow> string" where
  "sprintf_s [] args = []"
| "sprintf_s [c] args = [c]"
| "sprintf_s (c # d # cs) args =
     (if c = CHR ''%'' \<and> d = CHR ''s'' then
        (case args of [] \<Rightarrow> ''%!s(MISSING)'' @ sprintf_s cs [] | a # as \<Rightarrow> a @ sprintf_s cs as)
      else c # sprintf_s (d # cs) args)"

text \<open>A GET request with its authorization; the answer is the status code and the body.\<close>

type_synonym 's http_get = "string \<Rightarrow> string \<Rightarrow> ('s, int \<times> string) act"

definition QuayAPIEndpoint :: string where
  "QuayAPIEndpoint = ''https://quay.io/api/v1/repository/%s/tag/%s/images''"

record QuayChecker =
  qc_APIToken :: string
  qc_endpoint :: string

definition IsQuay :: "string \<Rightarrow> bool" where
  "IsQuay repo \<longleftrightarrow> HasPrefix repo ''quay.io/''"

definition quay_checkTag :: "'s http_get \<Rightarrow> QuayChecker \<Rightarrow> string \<Rightarrow> string \<Rightarrow> ('s, bool) act" where
  "quay_checkTag hc qc repo tag s =
     (let endpoint = (if qc_endpoint qc = [] then QuayAPIEndpoint else qc_endpoint qc);
          reponame = Replace1 repo ''quay.io/'' [];
          route = sprintf_s endpoint [reponame, tag]
      in case hc route (''Bearer '' @ qc_APIToken qc) s of
           (s1, Err e) \<Rightarrow> (s1, Err (Wrapf ''error performing API call: '' e))
         | (s1, Panic p) \<Rightarrow> (s1, Panic p)
         | (s1, Ok (code, body)) \<Rightarrow>
             (s1, if code = 200 then Ok True
                  else if code = 404 then Ok False
                  else Err (ErrMsg (''status code indicates error: '' @ itoa code @ '': '' @ body))))"

text \<open>The loop that Quay's and GCR's \<^verbatim>\<open>AllTagsExist\<close> share.\<close>

fun missing_tags :: "(string \<Rightarrow> ('s, bool) act) \<Rightarrow> string list \<Rightarrow> string list \<Rightarrow> ('s, bool \<times> string list) act" where
  "missing_tags check [] missing s = (s, Ok (missing = [], missing))"
| "missing_tags check (t # ts) missing s =
     (case check t s of
        (s1, Err e) \<Rightarrow> (s1, Err (Wrapf (''error checking tag: '' @ t @ '': '') e))
      | (s1, Panic p) \<Rightarrow> (s1, Panic p)
      | (s1, Ok present) \<Rightarrow> missing_tags check ts (if present then missing else missing @ [t]) s1)"

definition quay_AllTagsExist ::
  "'s http_get \<Rightarrow> QuayChecker \<Rightarrow> string list \<Rightarrow> string \<Rightarrow> ('s, bool \<times> string list) act" where
  "quay_AllTagsExist hc qc tags repo s =
     (if \<not> IsQuay repo then (s, Err (ErrMsg ''not a quay.io repo''))
      else missing_tags (quay_checkTag hc qc repo) tags [] s)"

section \<open>GCR\<close>

definition gcr_host :: string where
  "gcr_host = ''europe-west1-docker.pkg.dev''"

definition GCRAPIEndpoint :: string where
  "GCRAPIEndpoint = ''https://europe-west1-docker.pkg.dev/v2/%s/tags/list''"

record GCRChecker =
  gc_ServiceAccount :: string
  gc_endpoint :: string

definition IsGCR :: "string \<Rightarrow> bool" where
  "IsGCR repo \<longleftrightarrow> HasPrefix repo (gcr_host @ ''/'')"

text \<open>\<open>parse\<close> is the JSON decoder applied to a list of tags, \<open>basic\<close> the basic authorization.\<close>

definition gcr_checkTag ::
  "'s http_get \<Rightarrow> (string \<Rightarrow> string list go) \<Rightarrow> (string \<Rightarrow> string \<Rightarrow> string) \<Rightarrow> GCRChecker \<Rightarrow> string \<Rightarrow> string
     \<Rightarrow> ('s, bool) act" where
  "gcr_checkTag hc parse basic gc repo tag s =
     (let endpoint = (if gc_endpoint gc = [] then GCRAPIEndpoint else gc_endpoint gc);
          reponame = Replace1 repo (gcr_host @ ''/'') [];
          route = sprintf_s endpoint [reponame]
      in case hc route (basic ''_json_key'' (gc_ServiceAccount gc)) s of
           (s1, Err e) \<Rightarrow> (s1, Err (Wrapf ''error performing API call: '' e))
         | (s1, Panic p) \<Rightarrow> (s1, Panic p)
         | (s1, Ok (code, body)) \<Rightarrow>
             (s1, if code = 200 then
                    (case parse body of
                       Err e \<Rightarrow> Err (Wrapf ''error parsing returned tags: '' e)
                     | Panic p \<Rightarrow> Panic p
                     | Ok ts \<Rightarrow> Ok (tag \<in> set ts))
                  else if code = 404 then Ok False
                  else Err (ErrMsg (''status code indicates error: '' @ itoa code @ '': '' @ body))))"

definition gcr_AllTagsExist ::
  "'s http_get \<Rightarrow> (string \<Rightarrow> string list go) \<Rightarrow> (string \<Rightarrow> string \<Rightarrow> string) \<Rightarrow> GCRChecker \<Rightarrow> string list \<Rightarrow> string
     \<Rightarrow> ('s, bool \<times> string list) act" where
  "gcr_AllTagsExist hc parse basic gc tags repo s =
     (if \<not> IsGCR repo then (s, Err (ErrMsg ''not a europe-west1-docker.pkg.dev repo''))
      else missing_tags (gcr_checkTag hc parse basic gc repo) tags [] s)"

section \<open>ECR\<close>

text \<open>
  \<open>ecr_extract\<close> is \<^verbatim>\<open>ecrapi.ExtractRegistry\<close> (the region of a host name), \<open>ecr_session\<close> the creation
  of a session, \<open>ecr_describe\<close> the paged query for one tag: the tags of the images it found.
\<close>

record 's ecr_api =
  ecr_extract :: "string \<Rightarrow> string go"
  ecr_session :: "string \<Rightarrow> ('s, unit) act"
  ecr_describe :: "string \<Rightarrow> string \<Rightarrow> 's \<Rightarrow> 's \<times> string option list \<times> goerr option"

definition IsECR :: "'s ecr_api \<Rightarrow> string \<Rightarrow> bool" where
  "IsECR ecr repo \<longleftrightarrow> is_ok (ecr_extract ecr (hd (Split repo CHR ''/'')))"

text \<open>\<^verbatim>\<open>missing\<close> is a set, kept as a list without repetitions in the order of the iteration.\<close>

fun ecr_loop :: "'s ecr_api \<Rightarrow> string \<Rightarrow> string list \<Rightarrow> string list \<Rightarrow> ('s, string list) act" where
  "ecr_loop ecr name [] missing s = (s, Ok missing)"
| "ecr_loop ecr name (t # ts) missing s =
     (case ecr_describe ecr name t s of (s1, found, err) \<Rightarrow>
        let missing' = filter (\<lambda>m. Some m \<notin> set found) missing
        in case err of
             None \<Rightarrow> ecr_loop ecr name ts missing' s1
           | Some e \<Rightarrow>
               (case e of
                  AwsErr code m \<Rightarrow>
                    if code = ''ImageNotFoundException'' then ecr_loop ecr name ts missing' s1
                    else (s1, Err (ErrMsg (''error describing image: '' @ errstr e)))
                | _ \<Rightarrow> (s1, Err (ErrMsg (''error describing image: '' @ errstr e)))))"

definition ecr_AllTagsExist :: "'s ecr_api \<Rightarrow> string list \<Rightarrow> string \<Rightarrow> ('s, bool \<times> string list) act" where
  "ecr_AllTagsExist ecr tags repo s =
     (case SplitN2 repo CHR ''/'' of
        [serverURL, reponame] \<Rightarrow>
          if CHR '':'' \<in> set reponame then (s, Err (ErrMsg (''repo contains unexpected tag: '' @ repo)))
          else
            (case ecr_extract ecr serverURL of
               Err e \<Rightarrow> (s, Err (ErrMsg (''error parsing server URL: '' @ errstr e)))
             | Panic p \<Rightarrow> (s, Panic p)
             | Ok region \<Rightarrow>
                 (case ecr_session ecr region s of
                    (s1, Err e) \<Rightarrow> (s1, Err (ErrMsg (''error getting aws session: '' @ errstr e)))
                  | (s1, Panic p) \<Rightarrow> (s1, Panic p)
                  | (s1, Ok _) \<Rightarrow>
                      (case ecr_loop ecr reponame tags (remdups tags) s1 of
                         (s2, Ok missing) \<Rightarrow> (s2, Ok (missing = [], missing))
                       | (s2, Err e) \<Rightarrow> (s2, Err e)
                       | (s2, Panic p) \<Rightarrow> (s2, Panic p))))
      | _ \<Rightarrow> (s, Err (ErrMsg (''unexpected repo format or bad repo: '' @ repo
                              @ '' (expected: [ecr url]/[reponame]:[tag])''))))"

section \<open>The checker\<close>

definition AllTagsExist ::
  "'s http_get \<Rightarrow> (string \<Rightarrow> string list go) \<Rightarrow> (string \<Rightarrow> string \<Rightarrow> string) \<Rightarrow> 's ecr_api \<Rightarrow> QuayChecker
     \<Rightarrow> GCRChecker \<Rightarrow> string list \<Rightarrow> string \<Rightarrow> ('s, bool \<times> string list) act" where
  "AllTagsExist hc parse basic ecr qc gc tags repo s =
     (if IsECR ecr repo then ecr_AllTagsExist ecr tags repo s
      else if IsQuay repo then quay_AllTagsExist hc qc tags repo s
      else if IsGCR repo then gcr_AllTagsExist hc parse basic gc tags repo s
      else (s, Err (ErrMsg (''unsupported or bad repo: '' @ repo))))"

section \<open>Registry credentials\<close>

text \<open>The configuration of an AWS session: its region and static credentials.\<close>

record aws_config =
  ac_Region :: string
  ac_AccessKeyID :: string
  ac_SecretAccessKey :: string

text \<open>
  An ECR client is made from the configuration of a session and a configuration of its own; what is used of
  it is \<^verbatim>\<open>GetCredentials\<close>, which returns user name and password for a server.
\<close>

type_synonym 's ecr_factory = "aws_config \<Rightarrow> aws_config \<Rightarrow> string \<Rightarrow> ('s, string \<times> string) act"

record 's Provider =
  pv_QuayIOToken :: string
  pv_AccessKeyID :: string
  pv_SecretAccessKey :: string
  pv_GCRCredentials :: string
  pv_ECRAuthClientFactoryFunc :: "'s ecr_factory option"

definition auth_New :: "string \<Rightarrow> string \<Rightarrow> string \<Rightarrow> string \<Rightarrow> 's Provider" where
  "auth_New quaytkn awskeyid awskey gcrcreds =
     \<lparr>pv_QuayIOToken = quaytkn, pv_AccessKeyID = awskeyid, pv_SecretAccessKey = awskey,
      pv_GCRCredentials = gcrcreds, pv_ECRAuthClientFactoryFunc = None\<rparr>"

definition own_config :: "'s Provider \<Rightarrow> string \<Rightarrow> aws_config" where
  "own_config p region =
     \<lparr>ac_Region = region, ac_AccessKeyID = pv_AccessKeyID p, ac_SecretAccessKey = pv_SecretAccessKey p\<rparr>"

text \<open>
  \<open>mk\<close> is \<^verbatim>\<open>DefaultClientFactory\<close> of the library.  The first call sets the factory of the provider to a
  function that keeps the session of that call and ignores the one it is given.
\<close>

definition GetECRAuth ::
  "'s ecr_api \<Rightarrow> 's ecr_factory \<Rightarrow> string \<Rightarrow> ('s Provider \<times> 's, string \<times> string) act" where
  "GetECRAuth ecr mk serverURL = (\<lambda>(p, s).
     (case ecr_extract ecr serverURL of
        Err e \<Rightarrow> ((p, s), Err (ErrMsg (''error parsing server URL: '' @ errstr e)))
      | Panic m \<Rightarrow> ((p, s), Panic m)
      | Ok region \<Rightarrow>
          let cfg = own_config p region
          in (case ecr_session ecr region s of
                (s1, Err e) \<Rightarrow> ((p, s1), Err (ErrMsg (''error getting aws session: '' @ errstr e)))
              | (s1, Panic m) \<Rightarrow> ((p, s1), Panic m)
              | (s1, Ok _) \<Rightarrow>
                  let f = (case pv_ECRAuthClientFactoryFunc p of Some f \<Rightarrow> f | None \<Rightarrow> (\<lambda>_ c. mk cfg c));
                      p1 = p\<lparr>pv_ECRAuthClientFactoryFunc := Some f\<rparr>
                  in (case f cfg cfg serverURL s1 of
                        (s2, Err e) \<Rightarrow>
                          ((p1, s2), Err (ErrMsg (''error getting ECR credentials for repo: '' @ serverURL @ '': '' @ errstr e)))
                      | (s2, Panic m) \<Rightarrow> ((p1, s2), Panic m)
                      | (s2, Ok up) \<Rightarrow> ((p1, s2), Ok up)))))"

definition isECR :: "'s ecr_api \<Rightarrow> string \<Rightarrow> bool" where
  "isECR ecr host \<longleftrightarrow> is_ok (ecr_extract ecr host)"

definition isQuay :: "string \<Rightarrow> bool" where
  "isQuay host \<longleftrightarrow> host = ''quay.io''"

definition isGCR :: "string \<Rightarrow> bool" where
  "isGCR host \<longleftrightarrow> host = ''europe-west1-docker.pkg.dev''"

text \<open>The request is its host; \<open>None\<close> is a nil request.\<close>

definition Credentials ::
  "'s ecr_api \<Rightarrow> 's ecr_factory \<Rightarrow> string option \<Rightarrow> ('s Provider \<times> 's, string \<times> string) act" where
  "Credentials ecr mk req ps =
     (case req of
        None \<Rightarrow> (ps, Err (StatusErr InvalidArgument ''request is nil''))
      | Some host \<Rightarrow>
          if isECR ecr host then
            (case GetECRAuth ecr mk host ps of
               (ps1, Err e) \<Rightarrow> (ps1, Err (StatusErr Internal (''error getting ECR auth: '' @ errstr e)))
             | (ps1, Panic m) \<Rightarrow> (ps1, Panic m)
             | (ps1, Ok up) \<Rightarrow> (ps1, Ok up))
          else if isQuay host then (ps, Ok (''$oauthtoken'', pv_QuayIOToken (fst ps)))
          else if isGCR host then (ps, Ok (''_json_key'', pv_GCRCredentials (fst ps)))
          else if HasSuffix host ''.docker.io'' then (ps, Ok ([], []))
          else (ps, Err (StatusErr InvalidArgument (''unsupported registry host: '' @ host))))"

text \<open>BuildKit asks one provider again and again.\<close>

fun answer_all :: "'s ecr_api \<Rightarrow> 's ecr_factory \<Rightarrow> string option list \<Rightarrow> 's Provider \<times> 's \<Rightarrow> ('s Provider \<times> 's) \<times> (string \<times> string) go list" where
  "answer_all ecr mk [] ps = (ps, [])"
| "answer_all ecr mk (req # reqs) ps =
     (case Credentials ecr mk req ps of
        (ps1, r) \<Rightarrow> (case answer_all ecr mk reqs ps1 of (ps2, rs) \<Rightarrow> (ps2, r # rs)))"

section \<open>Lemmas\<close>

text \<open>\<open>check\<close> answers with \<open>present\<close> and leaves the state of the world alone.\<close>

definition answers :: "(string \<Rightarrow> ('s, bool) act) \<Rightarrow> (string \<Rightarrow> bool) \<Rightarrow> bool" where
  "answers check present \<longleftrightarrow> (\<forall>t s s' b. check t s = (s', Ok b) \<longrightarrow> b = present t)"

lemma missing_tags_exact:
  assumes "answers check present" "missing_tags check ts m s = (s', Ok (ex, missing))"
  shows "missing = m @ filter (\<lambda>t. \<not> present t) ts \<and> (ex \<longleftrightarrow> missing = [])"
  using assms(2)
proof (induction ts arbitrary: m s)
  case (Cons t ts)
  from Cons.prems obtain s1 b where c: "check t s = (s1, Ok b)"
    and r: "missing_tags check ts (if b then m else m @ [t]) s1 = (s', Ok (ex, missing))"
    by (auto split: prod.splits go.splits)
  have "b = present t" using assms(1) c unfolding answers_def by blast
  with Cons.IH [OF r] show ?case by auto
qed simp

lemma ecr_loop_Cons_Ok:
  assumes "ecr_loop ecr name (t # ts) m s = (s', Ok missing)"
    and d: "ecr_describe ecr name t s = (s1, found, err)"
  shows "ecr_loop ecr name ts (filter (\<lambda>m. Some m \<notin> set found) m) s1 = (s', Ok missing)
    \<and> (err = None \<or> (\<exists>k. err = Some (AwsErr ''ImageNotFoundException'' k)))"
proof (cases err)
  case None
  with assms show ?thesis by simp
next
  case (Some e)
  show ?thesis
  proof (cases e)
    case (AwsErr code k)
    show ?thesis
    proof (cases "code = ''ImageNotFoundException''")
      case True
      with assms Some AwsErr show ?thesis by simp
    next
      case False
      with assms Some AwsErr show ?thesis by (simp del: list.inject)
    qed
  qed (use assms Some in simp_all)
qed

text \<open>The ECR loop: a tag stays missing exactly if no query found it.\<close>

lemma ecr_loop_subset:
  "ecr_loop ecr name ts m s = (s', Ok missing) \<Longrightarrow> set missing \<subseteq> set m"
proof (induction ts arbitrary: m s)
  case (Cons t ts)
  obtain s1 found err where d: "ecr_describe ecr name t s = (s1, found, err)" by (cases "ecr_describe ecr name t s")
  from Cons.IH [OF conjunct1 [OF ecr_loop_Cons_Ok [OF Cons.prems d]]] show ?case by auto
qed simp

definition ecr_answers :: "'s ecr_api \<Rightarrow> string \<Rightarrow> (string \<Rightarrow> bool) \<Rightarrow> bool" where
  "ecr_answers ecr name present \<longleftrightarrow>
     (\<forall>t s s1 found err. ecr_describe ecr name t s = (s1, found, err) \<longrightarrow>
        (\<forall>x. Some x \<in> set found \<longrightarrow> present x)
        \<and> (err = None \<longrightarrow> Some t \<in> set found)
        \<and> (\<forall>m. err = Some (AwsErr ''ImageNotFoundException'' m) \<longrightarrow> \<not> present t))"

lemma ecr_loop_exact:
  assumes "ecr_answers ecr name present" "ecr_loop ecr name ts m s = (s', Ok missing)"
  shows "(\<forall>t \<in> set m. \<not> present t \<longrightarrow> t \<in> set missing)
    \<and> (\<forall>t \<in> set missing. t \<in> set m \<and> (t \<in> set ts \<longrightarrow> \<not> present t))"
  using assms(2)
proof (induction ts arbitrary: m s)
  case (Cons t ts)
  obtain s1 found err where d: "ecr_describe ecr name t s = (s1, found, err)" by (cases "ecr_describe ecr name t s")
  from assms(1) d have a: "\<And>x. Some x \<in> set found \<Longrightarrow> present x" "err = None \<Longrightarrow> Some t \<in> set found"
    "\<And>k. err = Some (AwsErr ''ImageNotFoundException'' k) \<Longrightarrow> \<not> present t"
    unfolding ecr_answers_def by blast+
  note r = ecr_loop_Cons_Ok [OF Cons.prems d]
  have t: "Some t \<in> set found \<or> \<not> present t" using r a by blast
  note ih = Cons.IH [OF conjunct1 [OF r]]
  show ?case
  proof (intro conjI ballI impI)
    fix x assume "x \<in> set m" "\<not> present x"
    moreover from this have "Some x \<notin> set found" using a(1) by blast
    ultimately have "x \<in> set (filter (\<lambda>m. Some m \<notin> set found) m)" by simp
    then show "x \<in> set missing" using ih \<open>\<not> present x\<close> by blast
  next
    fix x assume "x \<in> set missing"
    then have "x \<in> set (filter (\<lambda>m. Some m \<notin> set found) m)" using ih by blast
    then show "x \<in> set m" by simp
  next
    fix x assume x: "x \<in> set missing" "x \<in> set (t # ts)"
    then have "x \<in> set (filter (\<lambda>m. Some m \<notin> set found) m)" using ih by blast
    then have "x = t \<Longrightarrow> \<not> present x" using t by auto
    moreover have "x \<in> set ts \<Longrightarrow> \<not> present x" using ih x(1) by blast
    ultimately show "\<not> present x" using x(2) by auto
  qed
qed simp

section \<open>Properties\<close>

text \<open>An HTTP endpoint that knows one tag, and an ECR that knows one tag, for the witnesses.\<close>

definition demo_http :: "unit http_get" where
  "demo_http url auth s =
     (s, Ok (if HasSuffix url ''/tag/v1/images'' then 200 else 404, []))"

definition demo_ecr :: "unit ecr_api" where
  "demo_ecr = \<lparr>ecr_extract = (\<lambda>h. if HasSuffix h ''.amazonaws.com'' then Ok ''us-west-2'' else Err (ErrMsg ''not ECR'')),
     ecr_session = (\<lambda>_ s. (s, Ok ())),
     ecr_describe = (\<lambda>_ t s. if t = ''v1'' then (s, [Some ''v1''], None)
                             else (s, [], Some (AwsErr ''ImageNotFoundException'' [])))\<rparr>"

definition demo_qc :: QuayChecker where
  "demo_qc = \<lparr>qc_APIToken = ''tok'', qc_endpoint = []\<rparr>"

definition demo_gc :: GCRChecker where
  "demo_gc = \<lparr>gc_ServiceAccount = [], gc_endpoint = []\<rparr>"

text \<open>What Quay says of a tag: a response of 200 is yes, one of 404 is no.\<close>

definition quay_says :: "'s http_get \<Rightarrow> QuayChecker \<Rightarrow> string \<Rightarrow> (string \<Rightarrow> bool) \<Rightarrow> bool" where
  "quay_says hc qc repo present \<longleftrightarrow>
     (\<forall>t s s' code body.
        hc (sprintf_s (if qc_endpoint qc = [] then QuayAPIEndpoint else qc_endpoint qc) [Replace1 repo ''quay.io/'' [], t])
          (''Bearer '' @ qc_APIToken qc) s = (s', Ok (code, body)) \<longrightarrow>
        (code = 200 \<longrightarrow> present t) \<and> (code = 404 \<longrightarrow> \<not> present t))"

lemma quay_says_answers: "quay_says hc qc repo present \<Longrightarrow> answers (quay_checkTag hc qc repo) present"
  unfolding answers_def
proof (intro allI impI)
  fix t s s' b
  assume q: "quay_says hc qc repo present" and c: "quay_checkTag hc qc repo t s = (s', Ok b)"
  obtain s1 r where h: "hc (sprintf_s (if qc_endpoint qc = [] then QuayAPIEndpoint else qc_endpoint qc) [Replace1 repo ''quay.io/'' [], t])
      (''Bearer '' @ qc_APIToken qc) s = (s1, r)" by fastforce
  have r: "\<exists>code body. r = Ok (code, body) \<and> (b \<longrightarrow> code = 200) \<and> (\<not> b \<longrightarrow> code = 404)"
    using c h by (cases r) (auto simp: quay_checkTag_def Let_def split: if_splits)
  then show "b = present t" using q h unfolding quay_says_def by blast
qed

text \<open>
  C28: for a Quay repository the checker returns exactly the tags that Quay does not have, in order,
  and says that all exist exactly if there are none.
\<close>

theorem quay_missing_exact:
  assumes "quay_says hc qc repo present" "IsQuay repo" "\<not> IsECR ecr repo"
    and "AllTagsExist hc parse basic ecr qc gc tags repo s = (s', Ok (exist, missing))"
  shows "missing = filter (\<lambda>t. \<not> present t) tags \<and> (exist \<longleftrightarrow> list_all present tags)"
proof -
  from assms(2-4) have "missing_tags (quay_checkTag hc qc repo) tags [] s = (s', Ok (exist, missing))"
    by (simp add: AllTagsExist_def quay_AllTagsExist_def)
  from missing_tags_exact [OF quay_says_answers [OF assms(1)] this] show ?thesis
    by (auto simp: filter_empty_conv list_all_iff)
qed

theorem quay_missing_exact_witness:
  "AllTagsExist demo_http (\<lambda>_. Ok []) (\<lambda>u p. p) demo_ecr demo_qc demo_gc [''v1'', ''v2''] ''quay.io/acme/app'' ()
     = ((), Ok (False, [''v2'']))"
proof -
  have says: "quay_says demo_http demo_qc ''quay.io/acme/app'' (\<lambda>t. HasSuffix (sprintf_s QuayAPIEndpoint [''acme/app'', t]) ''/tag/v1/images'')"
  proof -
    have "Replace1 ''quay.io/acme/app'' ''quay.io/'' [] = ''acme/app''" by code_simp
    then show ?thesis by (auto simp: quay_says_def demo_http_def demo_qc_def)
  qed
  have "IsQuay ''quay.io/acme/app''" "\<not> IsECR demo_ecr ''quay.io/acme/app''" by code_simp+
  moreover obtain exist missing where r:
    "AllTagsExist demo_http (\<lambda>_. Ok []) (\<lambda>u p. p) demo_ecr demo_qc demo_gc [''v1'', ''v2''] ''quay.io/acme/app'' () = ((), Ok (exist, missing))"
    by (rule that [of False "[''v2'']"]) code_simp
  moreover have "filter (\<lambda>t. \<not> HasSuffix (sprintf_s QuayAPIEndpoint [''acme/app'', t]) ''/tag/v1/images'') [''v1'', ''v2''] = [''v2'']"
    "\<not> list_all (\<lambda>t. HasSuffix (sprintf_s QuayAPIEndpoint [''acme/app'', t]) ''/tag/v1/images'') [''v1'', ''v2'']" by code_simp+
  ultimately show ?thesis using quay_missing_exact [OF says _ _ r] by simp
qed

text \<open>
  C29: for an ECR repository the missing tags are exactly those that ECR does not have, when ECR
  answers a query for one tag with that tag or with \<^verbatim>\<open>ImageNotFoundException\<close>.
\<close>

theorem ecr_missing_exact:
  assumes "SplitN2 repo CHR ''/'' = [server, name]" "ecr_answers ecr name present" "IsECR ecr repo"
    and "AllTagsExist hc parse basic ecr qc gc tags repo s = (s', Ok (exist, missing))"
  shows "set missing = {t \<in> set tags. \<not> present t} \<and> (exist \<longleftrightarrow> list_all present tags)"
proof -
  from assms(1,3,4) obtain region s1 where "ecr_loop ecr name tags (remdups tags) s1 = (s', Ok missing)"
    and e: "exist \<longleftrightarrow> missing = []"
    by (auto simp: AllTagsExist_def ecr_AllTagsExist_def split: if_splits go.splits prod.splits)
  from ecr_loop_exact [OF assms(2) this(1)] have "set missing = {t \<in> set tags. \<not> present t}" by auto
  moreover from this have "missing = [] \<longleftrightarrow> list_all present tags" unfolding set_empty [symmetric] list_all_iff by auto
  ultimately show ?thesis using e by simp
qed

theorem ecr_missing_exact_witness:
  "\<exists>missing. AllTagsExist demo_http (\<lambda>_. Ok []) (\<lambda>u p. p) demo_ecr demo_qc demo_gc [''v1'', ''v2'']
       ''1.dkr.ecr.us-west-2.amazonaws.com/app'' () = ((), Ok (False, missing))
     \<and> set missing = {t \<in> set [''v1'', ''v2'']. t \<noteq> ''v1''}"
proof -
  let ?repo = "''1.dkr.ecr.us-west-2.amazonaws.com/app''"
  have "SplitN2 ?repo CHR ''/'' = [''1.dkr.ecr.us-west-2.amazonaws.com'', ''app'']" "IsECR demo_ecr ?repo" by code_simp+
  moreover have "ecr_answers demo_ecr ''app'' (\<lambda>t. t = ''v1'')" by (auto simp: ecr_answers_def demo_ecr_def split: if_splits)
  moreover have r: "AllTagsExist demo_http (\<lambda>_. Ok []) (\<lambda>u p. p) demo_ecr demo_qc demo_gc [''v1'', ''v2''] ?repo ()
      = ((), Ok (False, [''v2'']))" by code_simp
  ultimately show ?thesis using ecr_missing_exact [of ?repo _ _ demo_ecr, OF _ _ _ r] by blast
qed

text \<open>
  The factory of a provider is not set, or it keeps the session of a call with the provider's own keys.
\<close>

definition factory_ok :: "'s ecr_factory \<Rightarrow> 's Provider \<Rightarrow> bool" where
  "factory_ok mk p \<longleftrightarrow> (\<forall>f. pv_ECRAuthClientFactoryFunc p = Some f \<longrightarrow> (\<exists>r. f = (\<lambda>_. mk (own_config p r))))"

text \<open>The answers that are right for a host, given the secrets of a provider.\<close>

definition right_answer :: "'s ecr_api \<Rightarrow> 's ecr_factory \<Rightarrow> 's Provider \<Rightarrow> string \<Rightarrow> string \<times> string \<Rightarrow> bool" where
  "right_answer ecr mk p host up \<longleftrightarrow>
     (\<exists>region r t t'. ecr_extract ecr host = Ok region
        \<and> mk (own_config p r) (own_config p region) host t = (t', Ok up))
     \<or> host = ''quay.io'' \<and> up = (''$oauthtoken'', pv_QuayIOToken p)
     \<or> host = ''europe-west1-docker.pkg.dev'' \<and> up = (''_json_key'', pv_GCRCredentials p)
     \<or> HasSuffix host ''.docker.io'' \<and> up = ([], [])"

lemma own_config_factory [simp]: "own_config (p\<lparr>pv_ECRAuthClientFactoryFunc := f\<rparr>) = own_config p"
  by (simp add: own_config_def fun_eq_iff)

lemma right_answer_factory [simp]:
  "right_answer ecr mk (p\<lparr>pv_ECRAuthClientFactoryFunc := f\<rparr>) = right_answer ecr mk p"
  by (simp add: right_answer_def fun_eq_iff)

lemma same_provider: "\<exists>f. p = p\<lparr>pv_ECRAuthClientFactoryFunc := f\<rparr>"
  by (rule exI [of _ "pv_ECRAuthClientFactoryFunc p"]) simp

text \<open>A call changes at most the factory.\<close>

lemma GetECRAuth_step:
  assumes "GetECRAuth ecr mk host (p, s) = ((p', s'), r)" "factory_ok mk p"
  shows "factory_ok mk p' \<and> (\<exists>f. p' = p\<lparr>pv_ECRAuthClientFactoryFunc := f\<rparr>)
    \<and> (\<forall>up. r = Ok up \<longrightarrow> right_answer ecr mk p host up)"
proof (cases "\<exists>region s1. ecr_extract ecr host = Ok region \<and> ecr_session ecr region s = (s1, Ok ())")
  case True
  then obtain region s1 where x: "ecr_extract ecr host = Ok region" "ecr_session ecr region s = (s1, Ok ())" by blast
  define f where "f = (case pv_ECRAuthClientFactoryFunc p of Some f \<Rightarrow> f | None \<Rightarrow> (\<lambda>_. mk (own_config p region)))"
  obtain q where q: "f = (\<lambda>_. mk (own_config p q))"
    using assms(2) by (cases "pv_ECRAuthClientFactoryFunc p") (auto simp: f_def factory_ok_def)
  obtain s2 x2 where c: "f (own_config p region) (own_config p region) host s1 = (s2, x2)" by fastforce
  have "p' = p\<lparr>pv_ECRAuthClientFactoryFunc := Some f\<rparr>" "\<And>up. r = Ok up \<Longrightarrow> x2 = Ok up"
    using assms(1) x c by (auto simp: GetECRAuth_def Let_def f_def [symmetric] split: go.splits)
  moreover have "x2 = Ok up \<Longrightarrow> right_answer ecr mk p host up" for up
    using x(1) c unfolding q right_answer_def by blast
  ultimately show ?thesis using q by (auto simp: factory_ok_def)
next
  case False
  then have "p' = p \<and> (\<forall>up. r \<noteq> Ok up)" using assms(1)
    by (auto simp: GetECRAuth_def Let_def split: go.splits prod.splits)
  then show ?thesis using assms(2) using same_provider [of p] by auto
qed

lemma Credentials_step:
  assumes "Credentials ecr mk (Some host) (p, s) = ((p', s'), r)" "factory_ok mk p"
  shows "factory_ok mk p' \<and> (\<exists>f. p' = p\<lparr>pv_ECRAuthClientFactoryFunc := f\<rparr>)
    \<and> (\<forall>up. r = Ok up \<longrightarrow> right_answer ecr mk p host up)"
proof (cases "isECR ecr host")
  case True
  obtain q t x where g: "GetECRAuth ecr mk host (p, s) = ((q, t), x)" by (metis prod.exhaust)
  with assms(1) True have "p' = q" "\<And>up. r = Ok up \<Longrightarrow> x = Ok up"
    by (auto simp: Credentials_def split: go.splits)
  with GetECRAuth_step [OF g assms(2)] show ?thesis by blast
next
  case False
  then have "p' = p" "\<And>up. r = Ok up \<Longrightarrow> right_answer ecr mk p host up"
    using assms(1) by (auto simp: Credentials_def isQuay_def isGCR_def right_answer_def split: if_splits)
  with assms(2) show ?thesis using same_provider [of p] by auto
qed

lemma answer_all_right:
  assumes "factory_ok mk p" "i < length reqs" "reqs ! i = Some host"
    and "snd (answer_all ecr mk reqs (p, s)) ! i = Ok up"
  shows "right_answer ecr mk p host up"
  using assms
proof (induction reqs arbitrary: p s i)
  case (Cons req reqs)
  obtain q t r where c: "Credentials ecr mk req (p, s) = ((q, t), r)" by (metis prod.exhaust)
  have st: "factory_ok mk q \<and> (\<exists>f. q = p\<lparr>pv_ECRAuthClientFactoryFunc := f\<rparr>)"
  proof (cases req)
    case None
    with c have "q = p" by (auto simp: Credentials_def)
    with Cons.prems(1) show ?thesis using same_provider [of p] by auto
  next
    case (Some h)
    with Credentials_step [of ecr mk h p s q t r] c Cons.prems(1) show ?thesis by simp
  qed
  show ?case
  proof (cases i)
    case 0
    with Cons.prems c have "req = Some host" "r = Ok up" by (auto split: prod.splits)
    with Credentials_step [of ecr mk host p s] c Cons.prems(1) show ?thesis by blast
  next
    case (Suc j)
    with Cons.prems c have "j < length reqs" "reqs ! j = Some host" "snd (answer_all ecr mk reqs (q, t)) ! j = Ok up"
      by (auto split: prod.splits)
    with Cons.IH st have "right_answer ecr mk q host up" by blast
    with st show ?thesis by auto
  qed
qed simp

text \<open>
  C30: a registry's secret goes to its own host only.  Whatever hosts BuildKit asks a new provider about, and
  in which order, the Quay token is handed out for \<^verbatim>\<open>quay.io\<close>, the service account for the Google registry,
  what ECR answers to the AWS keys for a host that ECR's parser accepts, and in that host's region; Docker
  Hub gets empty credentials and every other host none.
\<close>

theorem secrets_by_host:
  assumes "i < length reqs" "reqs ! i = Some host"
    and "snd (answer_all ecr mk reqs (auth_New quay keyid key gcr, s)) ! i = Ok (user, secret)"
  shows "(\<exists>region r t t'. ecr_extract ecr host = Ok region
        \<and> mk \<lparr>ac_Region = r, ac_AccessKeyID = keyid, ac_SecretAccessKey = key\<rparr>
            \<lparr>ac_Region = region, ac_AccessKeyID = keyid, ac_SecretAccessKey = key\<rparr> host t = (t', Ok (user, secret)))
    \<or> (host = ''quay.io'' \<and> user = ''$oauthtoken'' \<and> secret = quay)
    \<or> (host = ''europe-west1-docker.pkg.dev'' \<and> user = ''_json_key'' \<and> secret = gcr)
    \<or> (HasSuffix host ''.docker.io'' \<and> user = [] \<and> secret = [])"
proof -
  have "factory_ok mk (auth_New quay keyid key gcr)" by (simp add: factory_ok_def auth_New_def)
  from answer_all_right [OF this assms] show ?thesis by (simp add: right_answer_def own_config_def auth_New_def)
qed

definition demo_factory :: "unit ecr_factory" where
  "demo_factory sess cfg host s = (s, Ok (''AWS'', ac_SecretAccessKey cfg @ ac_Region cfg))"

theorem secrets_by_host_witness:
  "snd (answer_all demo_ecr demo_factory [Some ''1.dkr.ecr.us-west-2.amazonaws.com'', Some ''quay.io'']
      (auth_New ''tok'' ''id'' ''key'' ''gcr'', ())) = [Ok (''AWS'', ''keyus-west-2''), Ok (''$oauthtoken'', ''tok'')]
   \<and> ((\<exists>region r t t'. ecr_extract demo_ecr ''quay.io'' = Ok region
        \<and> demo_factory \<lparr>ac_Region = r, ac_AccessKeyID = ''id'', ac_SecretAccessKey = ''key''\<rparr>
            \<lparr>ac_Region = region, ac_AccessKeyID = ''id'', ac_SecretAccessKey = ''key''\<rparr> ''quay.io'' t = (t', Ok (''$oauthtoken'', ''tok'')))
      \<or> (''quay.io'' = ''quay.io'' \<and> ''$oauthtoken'' = ''$oauthtoken'' \<and> ''tok'' = ''tok'')
      \<or> (''quay.io'' = ''europe-west1-docker.pkg.dev'' \<and> ''$oauthtoken'' = ''_json_key'' \<and> ''tok'' = ''gcr'')
      \<or> (HasSuffix ''quay.io'' ''.docker.io'' \<and> ''$oauthtoken'' = [] \<and> ''tok'' = []))"
proof -
  let ?reqs = "[Some ''1.dkr.ecr.us-west-2.amazonaws.com'', Some ''quay.io'']"
  have r: "snd (answer_all demo_ecr demo_factory ?reqs (auth_New ''tok'' ''id'' ''key'' ''gcr'', ()))
      = [Ok (''AWS'', ''keyus-west-2''), Ok (''$oauthtoken'', ''tok'')]" by code_simp
  then have "snd (answer_all demo_ecr demo_factory ?reqs (auth_New ''tok'' ''id'' ''key'' ''gcr'', ())) ! 1
      = Ok (''$oauthtoken'', ''tok'')" by simp
  from r secrets_by_host [OF _ _ this, of "''quay.io''"] show ?thesis by simp
qed

end
