(* ===== verification/Furan_Buildkit.thy ===== *)
theory Furan_Buildkit
  imports Furan_Builder
begin

text \<open>
  \<^verbatim>\<open>pkg/buildkit/buildkit.go\<close>: the builder that runs BuildKit, and \<^verbatim>\<open>pkg/s3/s3.go\<close>: the build cache in
  S3.  BuildKit's client, the AWS clients, the archiver, temporary files and the environment are
  arguments.
\<close>

section \<open>os.ExpandEnv\<close>

definition isShellSpecialVar :: "char \<Rightarrow> bool" where
  "isShellSpecialVar c \<longleftrightarrow> c \<in> set ''*#$@!?-0123456789''"

definition isAlphaNum :: "char \<Rightarrow> bool" where
  "isAlphaNum c \<longleftrightarrow>
     (let n = (of_char c :: nat)
      in c = CHR ''_'' \<or> (48 \<le> n \<and> n \<le> 57) \<or> (97 \<le> n \<and> n \<le> 122) \<or> (65 \<le> n \<and> n \<le> 90))"

text \<open>\<^verbatim>\<open>getShellName\<close>: the name at the start of the text and the number of bytes it takes.\<close>

definition getShellName :: "string \<Rightarrow> string \<times> nat" where
  "getShellName s =
     (if hd s = CHR ''{'' then
        (if length s > 2 \<and> isShellSpecialVar (s ! 1) \<and> s ! 2 = CHR ''}'' then ([s ! 1], 3)
         else let name = takeWhile (\<lambda>c. c \<noteq> CHR ''}'') (tl s)
              in if length name = length (tl s) then ([], 1)
                 else if name = [] then ([], 2) else (name, length name + 2))
      else if isShellSpecialVar (hd s) then ([hd s], 1)
      else let name = takeWhile isAlphaNum s in (name, length name))"

text \<open>\<^verbatim>\<open>os.Expand\<close> with \<^verbatim>\<open>os.Getenv\<close>: an unset variable is empty.\<close>

function ExpandEnv :: "(string \<Rightarrow> string) \<Rightarrow> string \<Rightarrow> string" where
  "ExpandEnv getenv [] = []"
| "ExpandEnv getenv (c # cs) =
     (if c = CHR ''$'' \<and> cs \<noteq> [] then
        (case getShellName cs of (name, w) \<Rightarrow>
           (if name = [] \<and> w > 0 then [] else if name = [] then [c] else getenv name)
           @ ExpandEnv getenv (drop w cs))
      else c # ExpandEnv getenv cs)"
  by pat_completeness auto
termination by (relation "measure (\<lambda>(g, s). length s)") auto

section \<open>The cache in S3\<close>

record CacheManager =
  cm_Bucket :: string
  cm_Keypfx :: string

record 's s3_env =
  e_session :: "('s, unit) act"
  e_TempFile :: "string \<Rightarrow> ('s, string) act"
  e_Remove :: "string \<Rightarrow> ('s, unit) act"
  e_TempDir :: "string \<Rightarrow> ('s, string) act"
  e_RemoveAll :: "string \<Rightarrow> ('s, unit) act"
  e_Download :: "ctx \<Rightarrow> string \<Rightarrow> string \<Rightarrow> string \<Rightarrow> ('s, int) act"
  e_Upload :: "ctx \<Rightarrow> string \<Rightarrow> string \<Rightarrow> string \<Rightarrow> ('s, unit) act"
  e_Unarchive :: "string \<Rightarrow> string \<Rightarrow> ('s, unit) act"
  e_Archive :: "string list \<Rightarrow> string \<Rightarrow> ('s, unit) act"
  e_ReadDir :: "string \<Rightarrow> ('s, string list) act"
  e_Open :: "string \<Rightarrow> ('s, unit) act"
  e_Size :: "string \<Rightarrow> ('s, int) act"
  e_Since :: "'s \<Rightarrow> string"

definition keyForBuild :: "CacheManager \<Rightarrow> Build \<Rightarrow> string" where
  "keyForBuild cm b = cm_Keypfx cm @ b_GitHubRepo b @ ''_buildcache.tar.gz''"

definition awsError :: "goerr \<Rightarrow> goerr" where
  "awsError err = (case err of AwsErr code m \<Rightarrow> ErrMsg code | _ \<Rightarrow> err)"

definition short_err :: "('s, 'a) act \<Rightarrow> ('s, 'a) act" where
  "short_err m s = (case m s of (s1, Err e) \<Rightarrow> (s1, Err (awsError e)) | (s1, r) \<Rightarrow> (s1, r))"

text \<open>\<^verbatim>\<open>dlclient\<close> and \<^verbatim>\<open>ulclient\<close>: the session, whose error is printed into a new one.\<close>

definition flat_session :: "'s s3_env \<Rightarrow> ('s, unit) act" where
  "flat_session e s =
     (case e_session e s of
        (s1, Err er) \<Rightarrow> (s1, Err (ErrMsg (''error getting aws session: '' @ errstr er))) | (s1, r) \<Rightarrow> (s1, r))"

text \<open>A deferred call: it runs on every way out, its result is ignored.\<close>

definition deferred :: "('s, 'b) act \<Rightarrow> ('s, 'a) act \<Rightarrow> ('s, 'a) act" where
  "deferred d m s = (case m s of (s1, r) \<Rightarrow> (fst (d s1), r))"

definition add_event :: "'s DataLayer \<Rightarrow> ctx \<Rightarrow> uuid \<Rightarrow> ('s \<Rightarrow> string) \<Rightarrow> ('s, unit) act" where
  "add_event dl c bid msg s = (fst (dl_AddEvent dl c bid (msg s) s), Ok ())"

definition s3_Fetch :: "'s s3_env \<Rightarrow> CacheManager \<Rightarrow> 's DataLayer \<Rightarrow> ctx \<Rightarrow> Build \<Rightarrow> ('s, string) act" where
  "s3_Fetch e cm dl c b =
     bind_act (wrap_act ''error getting S3 downloader: '' (flat_session e)) (\<lambda>_.
     bind_act (wrap_act ''error creating temp file: '' (e_TempFile e ''s3-cache-fetch-*.tar.gz'')) (\<lambda>f.
     deferred (e_Remove e f) (
       let key = keyForBuild cm b in
       bind_act (add_event dl c (b_ID b) (\<lambda>_. ''downloading cache: s3://'' @ cm_Bucket cm @ ''/'' @ key)) (\<lambda>_.
       bind_act (wrap_act ''error downloading cache from S3: '' (short_err (e_Download e c f (cm_Bucket cm) key))) (\<lambda>n.
       bind_act (add_event dl c (b_ID b) (\<lambda>s. ''successfully downloaded cache from S3 (size '' @ itoa n
                   @ '' bytes; elapsed: '' @ e_Since e s @ '')'')) (\<lambda>_.
       bind_act (wrap_act ''error getting temp dir: '' (e_TempDir e ''build-cache-*'')) (\<lambda>dir.
       bind_act (\<lambda>s. case e_Unarchive e f dir s of
                       (s1, Err er) \<Rightarrow>
                         (fst (e_RemoveAll e dir s1), Err (Wrapf ''error unarchiving build cache: '' er))
                     | (s1, r) \<Rightarrow> (s1, r)) (\<lambda>_.
       bind_act (add_event dl c (b_ID b) (\<lambda>s. ''successfully unarchived build cache (elapsed: '' @ e_Since e s @ '')''))
         (\<lambda>_. ret_act (Ok dir))))))))))"

definition s3_Save :: "'s s3_env \<Rightarrow> CacheManager \<Rightarrow> 's DataLayer \<Rightarrow> ctx \<Rightarrow> Build \<Rightarrow> string \<Rightarrow> ('s, unit) act" where
  "s3_Save e cm dl c b path =
     bind_act (wrap_act ''error getting s3 uploader: '' (flat_session e)) (\<lambda>_.
     bind_act (wrap_act ''error getting temp file: '' (e_TempFile e ''s3-cache-save-*.tar.gz'')) (\<lambda>f.
     deferred (e_Remove e f) (
       bind_act (add_event dl c (b_ID b) (\<lambda>_. ''archiving build cache snapshot'')) (\<lambda>_.
       bind_act (wrap_act ''error listing cache files: '' (e_ReadDir e path)) (\<lambda>infos.
       bind_act (wrap_act ''error archiving build cache: ''
                   (e_Archive e (map (\<lambda>n. filepath_Join [path, n]) infos) f)) (\<lambda>_.
       bind_act (add_event dl c (b_ID b) (\<lambda>s. ''archived build cache (elapsed: '' @ e_Since e s @ '')'')) (\<lambda>_.
       bind_act (wrap_act ''error opening archive: '' (e_Open e f)) (\<lambda>_.
       bind_act (\<lambda>s. case e_Size e f s of (s1, Ok sz) \<Rightarrow> (s1, Ok sz) | (s1, Err er) \<Rightarrow> (s1, Ok 0)
                     | (s1, Panic p) \<Rightarrow> (s1, Panic p)) (\<lambda>sz.
       let key = keyForBuild cm b in
       bind_act (add_event dl c (b_ID b) (\<lambda>_. ''uploading cache: s3://'' @ cm_Bucket cm @ ''/'' @ key)) (\<lambda>_.
       bind_act (wrap_act ''error uploading build cache: '' (short_err (e_Upload e c f (cm_Bucket cm) key))) (\<lambda>_.
       add_event dl c (b_ID b) (\<lambda>s. ''successfully uploaded cache from S3 (size '' @ itoa sz
                   @ '' bytes; elapsed: '' @ e_Since e s @ '')''))))))))))))"

section \<open>Solve options\<close>

record entry =
  en_Type :: string
  en_Attrs :: "(string \<times> string) list"

record SolveOpt =
  so_Exports :: "entry list"
  so_Frontend :: string
  so_FrontendAttrs :: "(string \<times> string) list"
  so_LocalDirs :: "(string \<times> string) list"
  so_CacheExports :: "entry list"
  so_CacheImports :: "entry list"

text \<open>\<^verbatim>\<open>imageNames\<close>: the result slice is filled by index.\<close>

definition imageNames :: "string list \<Rightarrow> string list \<Rightarrow> string list" where
  "imageNames imageRepos tags =
     fold (\<lambda>i out.
       fold (\<lambda>j out. out[i * length tags + j := imageRepos ! i @ '':'' @ tags ! j])
         [0..<length tags] out)
       [0..<length imageRepos] (replicate (length imageRepos * length tags) [])"

text \<open>Ranging over the map of build arguments sets one attribute each.\<close>

definition genSolveOpt :: "(string \<Rightarrow> string) \<Rightarrow> Build \<Rightarrow> BuildOpts \<Rightarrow> SolveOpt" where
  "genSolveOpt getenv b opts =
     (let tags = (if b_CommitSHATag b then b_Tags b @ [bo_CommitSHA opts] else b_Tags b)
      in \<lparr>so_Exports = [\<lparr>en_Type = ''image'',
            en_Attrs = [(''push'', ''true''), (''name'', Join (imageNames (b_ImageRepos b) tags) '','')]\<rparr>],
          so_Frontend = ''dockerfile.v0'',
          so_FrontendAttrs =
            fold (\<lambda>(k, v). AList.update (''build-arg:'' @ k) (ExpandEnv getenv v)) (bo_BuildArgs opts) [],
          so_LocalDirs = [(''context'', bo_ContextPath opts), (''dockerfile'', bo_RelativeDockerfilePath opts)],
          so_CacheExports = [], so_CacheImports = []\<rparr>)"

section \<open>The solver\<close>

record 's bk_env =
  bk_Fetch :: "ctx \<Rightarrow> Build \<Rightarrow> ('s, string) act"
  bk_Save :: "ctx \<Rightarrow> Build \<Rightarrow> string \<Rightarrow> ('s, unit) act"
  bk_TempDir :: "string \<Rightarrow> ('s, string) act"
  bk_RemoveAll :: "string \<Rightarrow> ('s, unit) act"
  bk_Dial :: "string \<Rightarrow> ('s, unit) act"
  bk_Now :: "'s \<Rightarrow> int"
  bk_Sleep :: "int \<Rightarrow> 's \<Rightarrow> 's"
  bk_Solve :: "ctx \<Rightarrow> SolveOpt \<Rightarrow> ('s, unit) act"
  bk_Progress :: "string list"
  bk_Sink :: "(string \<Rightarrow> ('s, nat) act) option"
  bk_Getenv :: "string \<Rightarrow> string"
  bk_addr :: string

definition NewBuildSolver :: "string \<Rightarrow> 'c go \<Rightarrow> 'c go" where
  "NewBuildSolver addr newclient =
     (if \<not> HasPrefix addr ''unix://'' then Err (ErrMsg ''addr must be a unix socket'')
      else wrap_err ''error getting buildkit client: '' newclient)"

text \<open>
  \<^verbatim>\<open>loadCache\<close>: the options, the paths the cleanup function removes, the export path and the error.
\<close>

definition loadCache ::
  "'s bk_env \<Rightarrow> 's DataLayer \<Rightarrow> ctx \<Rightarrow> BuildOpts \<Rightarrow> SolveOpt \<Rightarrow> 's
     \<Rightarrow> 's \<times> SolveOpt \<times> string list \<times> string \<times> unit go" where
  "loadCache bk dl c opts sopts s =
     (case dl_GetBuildByID dl c (bo_BuildID opts) s of
        (s1, Err e) \<Rightarrow> (s1, sopts, [], [], Err (Wrapf ''error getting build by id: '' e))
      | (s1, Panic p) \<Rightarrow> (s1, sopts, [], [], Panic p)
      | (s1, Ok b) \<Rightarrow>
          if co_Type (bo_Cache opts) = BuildCacheOpts_S3 then
            (case bk_TempDir bk ''build-cache-export-*'' s1 of
               (s2, Err e) \<Rightarrow> (s2, sopts, [], [], Err (Wrapf ''error creating cache export path: '' e))
             | (s2, Panic p) \<Rightarrow> (s2, sopts, [], [], Panic p)
             | (s2, Ok exportpath) \<Rightarrow>
                 let mode = (if co_MaxMode (bo_Cache opts) then ''max'' else ''min'');
                     sopts1 = sopts\<lparr>so_CacheExports :=
                       [\<lparr>en_Type = ''local'', en_Attrs = [(''dest'', exportpath), (''mode'', mode)]\<rparr>]\<rparr>
                 in (case bk_Fetch bk c b s2 of
                       (s3, Err e) \<Rightarrow>
                         (s3, sopts1, [exportpath], exportpath, Err (Wrapf ''error fetching cache from s3: '' e))
                     | (s3, Panic p) \<Rightarrow> (s3, sopts1, [exportpath], exportpath, Panic p)
                     | (s3, Ok path) \<Rightarrow>
                         (s3, sopts1\<lparr>so_CacheImports := [\<lparr>en_Type = ''local'', en_Attrs = [(''src'', path)]\<rparr>]\<rparr>,
                          [exportpath, path], exportpath, Ok ())))
          else if co_Type (bo_Cache opts) = BuildCacheOpts_INLINE then
            (s1, sopts\<lparr>so_CacheImports := map (\<lambda>r. \<lparr>en_Type = ''registry'', en_Attrs = [(''ref'', r)]\<rparr>) (b_ImageRepos b),
                      so_CacheExports := [\<lparr>en_Type = ''inline'', en_Attrs = []\<rparr>]\<rparr>, [], [], Ok ())
          else (s1, sopts, [], [], Ok ()))"

definition saveCache ::
  "'s bk_env \<Rightarrow> 's DataLayer \<Rightarrow> ctx \<Rightarrow> BuildOpts \<Rightarrow> string \<Rightarrow> ('s, unit) act" where
  "saveCache bk dl c opts expath =
     bind_act (wrap_act ''error getting build by id: '' (dl_GetBuildByID dl c (bo_BuildID opts))) (\<lambda>b.
       if co_Type (bo_Cache opts) = BuildCacheOpts_S3 then
         (if expath = [] then ret_act (Err (ErrMsg ''cache export path is empty''))
          else wrap_act ''error saving exported cache to S3: '' (bk_Save bk c b expath))
       else ret_act (Ok ()))"

definition SocketConnectTimeout :: int where
  "SocketConnectTimeout = 120 * 10 ^ 9"

definition SocketConnectRetryDelay :: int where
  "SocketConnectRetryDelay = 5 * 10 ^ 9"

definition VerifyAddr :: "'s bk_env \<Rightarrow> 's \<Rightarrow> ('s \<times> unit go) option" where
  "VerifyAddr bk s =
     poll (bk_Now bk) (bk_Dial bk (TrimPrefix (bk_addr bk) ''unix://'')) (bk_Sleep bk SocketConnectRetryDelay)
       (ErrMsg (''timeout waiting for buildkit socket ('' @ Duration_String SocketConnectTimeout @ '')''))
       (bk_Now bk s + SocketConnectTimeout) s"

text \<open>The number of bytes written, as the writer reports it.\<close>

definition ew_Write ::
  "'s DataLayer \<Rightarrow> (string \<Rightarrow> ('s, nat) act) option \<Rightarrow> ctx \<Rightarrow> uuid \<Rightarrow> string \<Rightarrow> ('s, nat) act" where
  "ew_Write dl sink c bid p s =
     (let str = TrimSpace p
      in if str = [] then (s, Ok (length p))
         else let s1 = fst (dl_AddEvent dl c bid str s)
              in case sink of Some w \<Rightarrow> w p s1 | None \<Rightarrow> (s1, Ok (length p)))"

definition ew_write_all ::
  "'s DataLayer \<Rightarrow> (string \<Rightarrow> ('s, nat) act) option \<Rightarrow> ctx \<Rightarrow> uuid \<Rightarrow> string list \<Rightarrow> 's \<Rightarrow> 's" where
  "ew_write_all dl sink c bid ps s = fold (\<lambda>p t. fst (ew_Write dl sink c bid p t)) ps s"

text \<open>
  \<^verbatim>\<open>Build\<close>: the goroutine that displays the progress writes \<open>bk_Progress\<close> while the solver runs.
  The temporary paths are removed on every way out after the cache was loaded.
\<close>

definition bk_Build :: "'s bk_env \<Rightarrow> 's DataLayer \<Rightarrow> ctx \<Rightarrow> BuildOpts \<Rightarrow> 's \<Rightarrow> ('s \<times> unit go) option" where
  "bk_Build bk dl c opts s =
     (case dl_GetBuildByID dl c (bo_BuildID opts) s of
        (s1, Err e) \<Rightarrow> Some (s1, Err (Wrapf (''error getting build: '' @ uuid_String (bo_BuildID opts) @ '': '') e))
      | (s1, Panic p) \<Rightarrow> Some (s1, Panic p)
      | (s1, Ok b) \<Rightarrow>
          (case loadCache bk dl c opts (genSolveOpt (bk_Getenv bk) b opts) s1 of
             (s2, sopts, paths, expath, lres) \<Rightarrow>
               (case lres of
                  Panic p \<Rightarrow> Some (s2, Panic p)
                | _ \<Rightarrow>
                    (let s3 = (case lres of
                                 Err e \<Rightarrow> fst (dl_AddEvent dl c (b_ID b) (''warning: error loading cache: '' @ errstr e) s2)
                               | _ \<Rightarrow> s2);
                         cleanup = (\<lambda>t. fold (\<lambda>p u. fst (bk_RemoveAll bk p u)) paths t)
                     in case VerifyAddr bk s3 of
                          None \<Rightarrow> None
                        | Some (s4, Err e) \<Rightarrow>
                            Some (cleanup s4, Err (Wrapf ''error verifying that buildkit is available: '' e))
                        | Some (s4, Panic p) \<Rightarrow> Some (cleanup s4, Panic p)
                        | Some (s4, Ok _) \<Rightarrow>
                            (case bk_Solve bk c sopts
                                    (ew_write_all dl (bk_Sink bk) c (bo_BuildID opts) (bk_Progress bk) s4) of
                               (s5, Err e) \<Rightarrow> Some (cleanup s5, Err (Wrapf ''error running solver: '' e))
                             | (s5, Panic p) \<Rightarrow> Some (cleanup s5, Panic p)
                             | (s5, Ok _) \<Rightarrow>
                                 (case saveCache bk dl c opts expath s5 of
                                    (s6, Panic p) \<Rightarrow> Some (cleanup s6, Panic p)
                                  | (s6, sres) \<Rightarrow>
                                      let s7 = (case sres of
                                                  Err e \<Rightarrow> fst (dl_AddEvent dl c (bo_BuildID opts)
                                                     (''warning: error saving build cache: '' @ errstr e) s6)
                                                | _ \<Rightarrow> s6);
                                          s8 = fst (dl_AddEvent dl c (bo_BuildID opts) ''solve success'' s7)
                                      in Some (cleanup s8, Ok ())))))))"

section \<open>Lemmas\<close>

text \<open>The filled slice lists every repository with every tag, repository by repository.\<close>

lemma fold_updates:
  "length out = a + length xs + b \<Longrightarrow>
     fold (\<lambda>j out. out[a + j := f (xs ! j)]) [0..<length xs] out
     = take a out @ map f xs @ drop (a + length xs) out"
proof (induction xs arbitrary: b rule: rev_induct)
  case (snoc x xs)
  have "fold (\<lambda>j out. out[a + j := f ((xs @ [x]) ! j)]) [0..<length xs] out
      = fold (\<lambda>j out. out[a + j := f (xs ! j)]) [0..<length xs] out"
    by (rule fold_cong) (auto simp: nth_append)
  also have "\<dots> = take a out @ map f xs @ drop (a + length xs) out"
    using snoc.IH [of "Suc b"] snoc.prems by simp
  finally show ?case
    using snoc.prems
    by (simp add: list_update_append) (simp add: Cons_nth_drop_Suc [symmetric])
qed simp

lemma imageNames_partial:
  assumes "n \<le> length repos"
  shows "fold (\<lambda>i out.
       fold (\<lambda>j out. out[i * length tags + j := repos ! i @ '':'' @ tags ! j]) [0..<length tags] out)
       [0..<n] (replicate (length repos * length tags) [])
     = concat (map (\<lambda>r. map (\<lambda>t. r @ '':'' @ t) tags) (take n repos))
       @ replicate ((length repos - n) * length tags) []"
  using assms
proof (induction n)
  case (Suc n)
  let ?done = "concat (map (\<lambda>r. map (\<lambda>t. r @ '':'' @ t) tags) (take n repos))"
  let ?rest = "replicate ((length repos - n) * length tags) []"
  have len: "length ?done = n * length tags"
    using Suc.prems by (simp add: length_concat comp_def sum_list_triv)
  have rest: "length ?rest = length tags + (length repos - Suc n) * length tags"
    using Suc.prems by (simp add: Suc_diff_Suc [symmetric] del: Suc_diff_Suc)
  have "fold (\<lambda>j out. out[n * length tags + j := repos ! n @ '':'' @ tags ! j]) [0..<length tags] (?done @ ?rest)
      = take (n * length tags) (?done @ ?rest) @ map (\<lambda>t. repos ! n @ '':'' @ t) tags
        @ drop (n * length tags + length tags) (?done @ ?rest)"
    by (rule fold_updates [where b = "(length repos - Suc n) * length tags"])
      (unfold length_append len rest, simp)
  also have "\<dots> = ?done @ map (\<lambda>t. repos ! n @ '':'' @ t) tags
      @ replicate ((length repos - Suc n) * length tags) []"
    using take_all [of ?done "n * length tags"] drop_all [of ?done "n * length tags + length tags"] rest
    unfolding take_append drop_append len by simp
  finally show ?case
    using Suc by (simp add: take_Suc_conv_app_nth)
qed simp

lemma imageNames_product:
  "imageNames repos tags = concat (map (\<lambda>r. map (\<lambda>t. r @ '':'' @ t) tags) repos)"
  using imageNames_partial [of "length repos" repos tags] by (simp add: imageNames_def)

lemma ExpandEnv_plain: "CHR ''$'' \<notin> set v \<Longrightarrow> ExpandEnv getenv v = v"
  by (induction v) auto

text \<open>
  Waiting for the socket: when the clock never runs backwards during a dial and a sleep moves it at
  least as far as was asked for, the loop ends.
\<close>

lemma VerifyAddr_ends:
  assumes "\<And>s d. bk_Now bk s + d \<le> bk_Now bk (bk_Sleep bk d s)"
    and "\<And>s a. bk_Now bk s \<le> bk_Now bk (fst (bk_Dial bk a s))"
  shows "\<exists>r. VerifyAddr bk s = Some r"
proof -
  have "bk_Now bk s < bk_Now bk (bk_Sleep bk SocketConnectRetryDelay s)" for s
    using assms(1) [of s SocketConnectRetryDelay] by (simp add: SocketConnectRetryDelay_def)
  then show ?thesis unfolding VerifyAddr_def by (intro poll_ends assms(2))
qed

text \<open>
  Neither loading nor saving the cache can fail a build: once the build was read and the socket
  answers, the outcome is the solver's.
\<close>

lemma bk_Build_outcome:
  assumes read: "dl_GetBuildByID dl c (bo_BuildID opts) s = (s1, Ok b)"
    and load: "loadCache bk dl c opts (genSolveOpt (bk_Getenv bk) b opts) s1 = (s2, sopts, paths, expath, lres)"
    and no_panic: "\<And>p. lres \<noteq> Panic p" "\<And>p t. snd (saveCache bk dl c opts expath t) \<noteq> Panic p"
    and up: "\<And>t. snd (bk_Dial bk (TrimPrefix (bk_addr bk) ''unix://'') t) = Ok ()"
  shows "\<exists>t t'. bk_Build bk dl c opts s
           = Some (t', case snd (bk_Solve bk c sopts t) of
                         Err e \<Rightarrow> Err (Wrapf ''error running solver: '' e) | r \<Rightarrow> r)"
proof -
  have va: "\<exists>s4. VerifyAddr bk s3 = Some (s4, Ok ())" for s3
    unfolding VerifyAddr_def using up [of s3]
    by (subst poll.simps) (auto simp: SocketConnectTimeout_def split: prod.splits)
  obtain s3 where s3: "s3 = (case lres of
       Err e \<Rightarrow> fst (dl_AddEvent dl c (b_ID b) (''warning: error loading cache: '' @ errstr e) s2) | _ \<Rightarrow> s2)"
    by blast
  obtain s4 where s4: "VerifyAddr bk s3 = Some (s4, Ok ())"
    using va by blast
  define t where "t = ew_write_all dl (bk_Sink bk) c (bo_BuildID opts) (bk_Progress bk) s4"
  obtain s5 r where solve: "bk_Solve bk c sopts t = (s5, r)"
    by fastforce
  obtain s6 sres where save: "saveCache bk dl c opts expath s5 = (s6, sres)"
    by fastforce
  have np: "sres \<noteq> Panic p" for p
    using no_panic(2) [of s5 p] save by simp
  have "\<exists>t'. bk_Build bk dl c opts s
      = Some (t', case r of Err e \<Rightarrow> Err (Wrapf ''error running solver: '' e) | r \<Rightarrow> r)"
    using no_panic(1) np s4 solve save
    by (cases r; cases sres; cases lres)
       (simp_all add: bk_Build_def read load s3 Let_def t_def, blast+)
  moreover have "r = snd (bk_Solve bk c sopts t)"
    using solve by simp
  ultimately show ?thesis
    by blast
qed

section \<open>Properties\<close>

text \<open>
  The names that are pushed are all image repositories with all tags, repository by repository.
\<close>

theorem image_names_all:
  "imageNames repos tags = concat (map (\<lambda>r. map (\<lambda>t. r @ '':'' @ t) tags) repos)"
  by (rule imageNames_product)

text \<open>
  C32: waiting for BuildKit's socket ends: when the clock does not run backwards during a dial and a
  sleep takes at least as long as asked, \<^verbatim>\<open>VerifyAddr\<close> returns.
\<close>

theorem verify_addr_returns:
  assumes "\<And>s d. bk_Now bk s + d \<le> bk_Now bk (bk_Sleep bk d s)"
    and "\<And>s a. bk_Now bk s \<le> bk_Now bk (fst (bk_Dial bk a s))"
  shows "\<exists>r. VerifyAddr bk s = Some r"
  by (rule VerifyAddr_ends [OF assms])

definition demo_bk :: "bool \<Rightarrow> int bk_env" where
  "demo_bk reachable =
     \<lparr>bk_Fetch = (\<lambda>c b s. (s, Err (ErrMsg ''NoSuchKey''))), bk_Save = (\<lambda>c b p s. (s, Err (ErrMsg ''AccessDenied''))),
      bk_TempDir = (\<lambda>p s. (s, Ok ''/tmp/build-cache-export-1'')), bk_RemoveAll = (\<lambda>p s. (s, Ok ())),
      bk_Dial = (\<lambda>a s. (s, if reachable then Ok () else Err (ErrMsg ''connection refused''))),
      bk_Now = (\<lambda>s. s), bk_Sleep = (\<lambda>d s. s + d), bk_Solve = (\<lambda>c o' s. (s, Ok ())), bk_Progress = [],
      bk_Sink = None, bk_Getenv = (\<lambda>_. []), bk_addr = ''unix:///run/buildkit/buildkitd.sock''\<rparr>"

theorem verify_addr_returns_witness: "\<exists>r. VerifyAddr (demo_bk False) 0 = Some r"
  by (rule verify_addr_returns) (simp_all add: demo_bk_def)

end
