(* ===== verification/Furan_Server.thy ===== *)
theory Furan_Server
  imports Furan_Secrets Furan_PgService Furan_Jobrunner Furan_Github Furan_Registry Furan_Buildkit
begin

text \<open>
  The commands that put the parts together: \<^verbatim>\<open>cmd/server.go\<close> (the server and its flags),
  \<^verbatim>\<open>cmd/runbuild.go\<close> (the run of a build inside its job) and \<^verbatim>\<open>cmd/migrate.go\<close>, with the
  constructors they call: \<^verbatim>\<open>NewPostgresDBLayer\<close>, \<^verbatim>\<open>NewInClusterRunner\<close> and \<^verbatim>\<open>Listen\<close>.

  What comes from libraries (connection pools, the client of the cluster, TLS files, the profiler,
  the migrations) is a field of an environment record.  Tracing and logging are left out.
\<close>

section \<open>Resource limits and cache defaults\<close>

record maxResourceLimits =
  mr_CPUReq :: string
  mr_MemReq :: string
  mr_CPULim :: string
  mr_MemLim :: string

text \<open>The message for the memory limit is that of the CPU limit, as in the source.\<close>

definition process :: "'q quantity_lib \<Rightarrow> maxResourceLimits \<Rightarrow> 'q MaxResourceLimits go" where
  "process ql mr =
     bind_go (wrap_err ''max cpu req is invalid: '' (ql_Parse ql (mr_CPUReq mr))) (\<lambda>cr.
     bind_go (wrap_err ''max mem req is invalid: '' (ql_Parse ql (mr_MemReq mr))) (\<lambda>mr'.
     bind_go (wrap_err ''max cpu limit is invalid: '' (ql_Parse ql (mr_CPULim mr))) (\<lambda>cl.
     bind_go (wrap_err ''max cpu limit is invalid: '' (ql_Parse ql (mr_MemLim mr))) (\<lambda>ml.
     Ok \<lparr>mx_MaxCPUReq = cr, mx_MaxMemReq = mr', mx_MaxCPULim = cl, mx_MaxMemLim = ml\<rparr>))))"

definition cachedefaults :: "string \<Rightarrow> bool \<Rightarrow> BuildCacheOpts" where
  "cachedefaults defaultcachetype defaultcachemaxmode =
     \<lparr>co_Type =
        (if defaultcachetype = ''s3'' then BuildCacheOpts_S3
         else if defaultcachetype = ''inline'' then BuildCacheOpts_INLINE
         else if defaultcachetype = ''disabled'' then BuildCacheOpts_DISABLED
         else BuildCacheOpts_UNKNOWN),
      co_MaxMode = defaultcachemaxmode\<rparr>"

section \<open>Constructors\<close>

text \<open>Durations are nanoseconds.  \<^verbatim>\<open>int32(maxconns)\<close> keeps the bits.\<close>

record 'd pool_config =
  pc_conn :: 'd
  pc_MinConns :: "32 word"
  pc_MaxConns :: "32 word"
  pc_HealthCheckPeriod :: int
  pc_MaxConnIdleTime :: int

definition NewRawPGClient ::
  "(string \<Rightarrow> 'd go) \<Rightarrow> ('d pool_config \<Rightarrow> 'p go) \<Rightarrow> string \<Rightarrow> 32 word \<Rightarrow> 'p go" where
  "NewRawPGClient parse connect pguri maxconns =
     bind_go (wrap_err ''error parsing pg db uri: '' (parse pguri)) (\<lambda>d.
     wrap_err ''error creating pg connection pool: ''
       (connect \<lparr>pc_conn = d, pc_MinConns = 2, pc_MaxConns = maxconns, pc_HealthCheckPeriod = 5 * 10 ^ 9,
                 pc_MaxConnIdleTime = 10 * 10 ^ 9\<rparr>))"

definition MaxPoolConns :: "32 word" where
  "MaxPoolConns = 10"

definition MaxListenPoolConns :: "32 word" where
  "MaxListenPoolConns = 100"

text \<open>\<open>layer\<close> is the database as it is seen through the two pools.\<close>

definition NewPostgresDBLayer ::
  "(string \<Rightarrow> 'd go) \<Rightarrow> ('d pool_config \<Rightarrow> 'p go) \<Rightarrow> ('p \<Rightarrow> 'p \<Rightarrow> 's PGServer) \<Rightarrow> string \<Rightarrow> 's PGServer go" where
  "NewPostgresDBLayer parse connect layer pguri =
     bind_go (wrap_err ''error getting conn pool: '' (NewRawPGClient parse connect pguri MaxPoolConns)) (\<lambda>pool.
     bind_go (wrap_err ''error getting listen conn pool: '' (NewRawPGClient parse connect pguri MaxListenPoolConns)) (\<lambda>lpool.
     Ok (layer pool lpool)))"

definition NewInClusterRunner ::
  "unit go \<Rightarrow> ('s, 'q) k8s go \<Rightarrow> podenv \<Rightarrow> 's DataLayer \<Rightarrow> ('s, ('s, 'q) K8sJobRunner) act" where
  "NewInClusterRunner config client pe dl =
     bind_act (wrap_act ''error getting in-cluster config: '' (ret_act config)) (\<lambda>_.
     bind_act (wrap_act ''error getting client: '' (ret_act client)) (\<lambda>k8s.
     bind_act (wrap_act ''error getting image details: '' (image k8s pe)) (\<lambda>iinfo.
     ret_act (Ok \<lparr>kr_client = Some k8s, kr_dl = dl, kr_imageInfo = iinfo, kr_JobFunc = None\<rparr>))))"

text \<open>
  \<^verbatim>\<open>Listen\<close> up to \<^verbatim>\<open>Serve\<close>: \<open>netlisten\<close> is \<^verbatim>\<open>net.Listen\<close>, \<open>loaded\<close> the descriptors of the registered
  service.  The value is the server with its table of methods.
\<close>

definition Listen ::
  "unit go \<Rightarrow> (string \<times> (string \<times> bool option go) list) list go \<Rightarrow> ('s, 'q) Server \<Rightarrow> ('s, 'q) Server go" where
  "Listen netlisten loaded gr =
     bind_go netlisten (\<lambda>_.
     bind_go (wrap_err ''error generating methods from service: '' (methodsFromFuranService loaded)) (\<lambda>methods.
     Ok (gr\<lparr>gr_methods := Some methods\<rparr>)))"

text \<open>The service of \<^verbatim>\<open>protos/api.proto\<close> with its \<^verbatim>\<open>read_only\<close> options.\<close>

definition FuranExecutor :: "string \<times> (string \<times> bool option go) list" where
  "FuranExecutor =
     (serviceName,
      [(''StartBuild'', Ok (Some False)), (''GetBuildStatus'', Ok (Some True)), (''GetBuildEvents'', Ok (Some True)),
       (''MonitorBuild'', Ok (Some True)), (''CancelBuild'', Ok (Some False)), (''ListBuilds'', Ok (Some True))])"

section \<open>furan server\<close>

record server_vars =
  sv_Profiling :: bool
  sv_SeedKey :: string
  sv_builderimg :: string
  sv_jcinterval :: int
  sv_jcage :: int
  sv_tlscert :: string
  sv_tlskey :: string
  sv_maxResources :: maxResourceLimits
  sv_defaultcachetype :: string
  sv_defaultcachemaxmode :: bool

text \<open>The flags when none is given: those of the server, and those it shares with \<^verbatim>\<open>runbuild\<close>.\<close>

definition server_defaults :: server_vars where
  "server_defaults =
     \<lparr>sv_Profiling = False, sv_SeedKey = [], sv_builderimg = [], sv_jcinterval = 30 * 60 * 10 ^ 9,
      sv_jcage = 48 * 60 * 60 * 10 ^ 9, sv_tlscert = [], sv_tlskey = [],
      sv_maxResources = \<lparr>mr_CPUReq = ''2'', mr_MemReq = ''16G'', mr_CPULim = ''4'', mr_MemLim = ''64G''\<rparr>,
      sv_defaultcachetype = ''disabled'', sv_defaultcachemaxmode = False\<rparr>"

definition root_defaults :: "(string \<Rightarrow> string) \<Rightarrow> root_vars" where
  "root_defaults getenv =
     (let vo = \<lparr>vc_Addr = getenv ''VAULT_ADDR'', vc_Token = getenv ''VAULT_TOKEN'', vc_TokenAuth = False,
                vc_K8sAuth = False, vc_K8sJWTPath = ''/var/run/secrets/kubernetes.io/serviceaccount/token'',
                vc_K8sAuthPath = ''kubernetes'', vc_K8sRole = []\<rparr>;
          vo0 = \<lparr>vc_Addr = [], vc_Token = [], vc_TokenAuth = False, vc_K8sAuth = False, vc_K8sJWTPath = [],
                 vc_K8sAuthPath = [], vc_K8sRole = []\<rparr>
      in \<lparr>rv_sf = \<lparr>f_Backend = UnknownBackend, f_Mapping = ''{{.ID}}'', f_JSONFile = ''secrets.json'',
                   f_FileTreeRoot = ''/vault/secrets/'', f_VaultOptions = vo0, f_sc = None\<rparr>,
          rv_secretsbackend = ''vault'', rv_vaultConfig = vo, rv_ghConfig = \<lparr>ghc_Token = []\<rparr>,
          rv_quayConfig = \<lparr>qyc_Token = []\<rparr>, rv_gcrConfig = \<lparr>gcrc_ServiceAccount = []\<rparr>,
          rv_awsConfig =
            \<lparr>aws_Region = ''us-east-1'', aws_CacheBucket = [], aws_CacheHost = [], aws_CacheKeyPrefix = [],
             aws_AccessKeyID = [], aws_SecretAccessKey = [], aws_EnableECR = False, aws_ECRRegistryHosts = []\<rparr>,
          rv_dbConfig = zero_DBConfig\<rparr>)"

record ('s, 'q, 'd, 'p) server_env =
  se_Profiler :: "unit go"
  se_ParseConfig :: "string \<Rightarrow> 'd go"
  se_ConnectConfig :: "'d pool_config \<Rightarrow> 'p go"
  se_layer :: "'p \<Rightarrow> 'p \<Rightarrow> 's PGServer"
  se_InClusterConfig :: "unit go"
  se_NewForConfig :: "('s, 'q) k8s go"
  se_podenv :: podenv
  se_quantity :: "'q quantity_lib"
  se_reqjson :: "BuildRequest \<Rightarrow> string"
  se_LoadX509KeyPair :: "string \<Rightarrow> string \<Rightarrow> unit go"
  se_github :: "string \<Rightarrow> 's github_api"
  se_fs :: "'s fs"
  se_selects :: "BuildOpts \<Rightarrow> 's \<Rightarrow> start_event list"

text \<open>
  \<^verbatim>\<open>Start\<close> of the manager under the context of \<^verbatim>\<open>StartBuild\<close>'s goroutine, which has a timeout: what
  its loop receives is \<open>evs\<close> and then the end of the context.
\<close>

definition timed_Start ::
  "('s, 'j) Manager \<Rightarrow> (BuildOpts \<Rightarrow> 's \<Rightarrow> start_event list) \<Rightarrow> ctx \<Rightarrow> BuildOpts \<Rightarrow> ('s, unit) act" where
  "timed_Start m evs c opts s =
     (case Start m c opts (evs opts s @ [SelCtxDone]) s of
        Some r \<Rightarrow> r | None \<Rightarrow> (s, Err (ErrMsg ''context cancelled'')))"

text \<open>
  The whole command up to \<^verbatim>\<open>Serve\<close>: the state, and the server with the label that the cleanup goroutine
  selects jobs by.
\<close>

definition server ::
  "('s, 'q, 'd, 'p) server_env \<Rightarrow> server_vars \<Rightarrow> DBConfig \<Rightarrow> 's \<Rightarrow> 's \<times> (('s, 'q) Server \<times> string \<times> string) cli" where
  "server env v db s =
     (case cli_bind (or_clierr ''error starting profiler: '' (if sv_Profiling v then se_Profiler env else Ok ())) (\<lambda>_.
           or_clierr ''error configuring database: ''
             (NewPostgresDBLayer (se_ParseConfig env) (se_ConnectConfig env) (se_layer env) (db_PostgresURI db))) of
        CliErr e \<Rightarrow> (s, CliErr e)
      | CliPanic p \<Rightarrow> (s, CliPanic p)
      | CliOk pg \<Rightarrow>
          (let dl = pgDL pg;
               seeded = (if sv_SeedKey v \<noteq> [] then
                           (case FromString (sv_SeedKey v) of
                              Err e \<Rightarrow> (s, CliErr (''invalid seed key: '' @ errstr e))
                            | Panic p \<Rightarrow> (s, CliPanic p)
                            | Ok kid \<Rightarrow>
                                (case CreateSeedAPIKey pg Background kid s of
                                   (s1, r) \<Rightarrow> (s1, or_clierr ''error creating seed key: '' r)))
                         else (s, CliOk ()))
           in case seeded of
                (s1, CliErr e) \<Rightarrow> (s1, CliErr e)
              | (s1, CliPanic p) \<Rightarrow> (s1, CliPanic p)
              | (s1, CliOk _) \<Rightarrow>
                  (case NewInClusterRunner (se_InClusterConfig env) (se_NewForConfig env) (se_podenv env) dl s1 of
                     (s2, rj) \<Rightarrow>
                       (s2,
                        cli_bind (or_clierr ''error setting up in-cluster job runner: '' rj) (\<lambda>jr0.
                        let bkimg = (if sv_builderimg v \<noteq> [] then sv_builderimg v else BuildKitImage);
                            jr = jr0\<lparr>kr_JobFunc :=
                                   Some (FuranJobFunc (se_quantity env) bkimg JobLabel (se_reqjson env))\<rparr>
                        in cli_bind (or_clierr ''error starting job cleanup: ''
                                       (StartCleanup (sv_jcinterval v) (sv_jcage v) JobLabel)) (\<lambda>label.
                           let bm = \<lparr>m_BRunner = None, m_JRunner = Some (jr_Run (se_quantity env) jr), m_TCheck = None,
                                     m_FetcherFactory = None, m_GitHubTokenKey = replicate 32 (byte 0),
                                     m_DL = Some dl\<rparr>
                           in cli_bind (or_clierr ''error loading tls cert/key: ''
                                          (if sv_tlskey v \<noteq> [] \<and> sv_tlscert v \<noteq> [] then
                                             se_LoadX509KeyPair env (sv_tlscert v) (sv_tlskey v)
                                           else Ok ())) (\<lambda>_.
                              cli_bind (or_clierr ''error in max resource limits: ''
                                          (process (se_quantity env) (sv_maxResources v))) (\<lambda>mr.
                              CliOk
                                (\<lparr>gr_DL = dl, gr_Start = timed_Start bm (se_selects env),
                                  gr_CFFactory = (\<lambda>tkn. NewGitHubFetcher (se_github env tkn) (se_fs env)),
                                  gr_CredentialDecryptionKey = db_CredEncKeyArray db,
                                  gr_Cache = cachedefaults (sv_defaultcachetype v) (sv_defaultcachemaxmode v),
                                  gr_JobHandoffTimeout = 0, gr_MaxResources = mr, gr_methods = None\<rparr>,
                                 label)))))))))"

section \<open>furan runbuild\<close>

record ('s, 'd, 'p, 'c) runbuild_env =
  re_Profiler :: "unit go"
  re_ParseConfig :: "string \<Rightarrow> 'd go"
  re_ConnectConfig :: "'d pool_config \<Rightarrow> 'p go"
  re_layer :: "'p \<Rightarrow> 'p \<Rightarrow> 's PGServer"
  re_bkclient :: "'c go"
  re_bk :: "'s bk_env"
  re_s3 :: "'s s3_env"
  re_http :: "'s http_get"
  re_parsetags :: "string \<Rightarrow> string list go"
  re_basicauth :: "string \<Rightarrow> string \<Rightarrow> string"
  re_ecr :: "'s ecr_api"
  re_github :: "string \<Rightarrow> 's github_api"
  re_fs :: "'s fs"
  re_os :: "'s OS"
  re_open :: "string \<Rightarrow> string \<Rightarrow> string \<Rightarrow> string option"

record runbuild_vars =
  bv_Profiling :: bool
  bv_buildid :: string
  bv_bkaddr :: string
  bv_runbuildtimeout :: int

definition runbuild_defaults :: runbuild_vars where
  "runbuild_defaults = \<lparr>bv_Profiling = False, bv_buildid = [], bv_bkaddr = [], bv_runbuildtimeout = 30 * 60 * 10 ^ 9\<rparr>"

text \<open>The BuildKit solver with the cache of line 88.\<close>

definition job_solver ::
  "('s, 'd, 'p, 'c) runbuild_env \<Rightarrow> runbuild_vars \<Rightarrow> AWSConfig \<Rightarrow> 's DataLayer \<Rightarrow> 's bk_env" where
  "job_solver env v aws dl =
     (let cm = \<lparr>cm_Bucket = aws_CacheBucket aws, cm_Keypfx = aws_CacheKeyPrefix aws\<rparr>
      in (re_bk env)\<lparr>bk_Fetch := s3_Fetch (re_s3 env) cm dl, bk_Save := s3_Save (re_s3 env) cm dl,
                     bk_addr := bv_bkaddr v\<rparr>)"

text \<open>
  \<open>job_provider\<close> is the provider of registry credentials that BuildKit asks.  \<open>build\<close> is \<^verbatim>\<open>Build\<close> of the solver as a
  call that returns; \<open>solver_call\<close> says that it is that of \<open>Furan_Buildkit\<close> wherever that returns.
\<close>

definition solver_call ::
  "('s bk_env \<Rightarrow> 's DataLayer \<Rightarrow> ctx \<Rightarrow> BuildOpts \<Rightarrow> ('s, unit) act) \<Rightarrow> bool" where
  "solver_call build \<longleftrightarrow> (\<forall>bk dl c opts s r. bk_Build bk dl c opts s = Some r \<longrightarrow> build bk dl c opts s = r)"

definition job_provider :: "root_vars \<Rightarrow> 's Provider" where
  "job_provider rv =
     auth_New (qyc_Token (rv_quayConfig rv)) (aws_AccessKeyID (rv_awsConfig rv)) (aws_SecretAccessKey (rv_awsConfig rv))
       (gcrc_ServiceAccount (rv_gcrConfig rv))"

definition job_manager ::
  "('s bk_env \<Rightarrow> 's DataLayer \<Rightarrow> ctx \<Rightarrow> BuildOpts \<Rightarrow> ('s, unit) act) \<Rightarrow> ('s, 'd, 'p, 'c) runbuild_env
     \<Rightarrow> runbuild_vars \<Rightarrow> root_vars \<Rightarrow> 's DataLayer \<Rightarrow> ('s, unit) Manager" where
  "job_manager build env v rv dl =
     (let qc = \<lparr>qc_APIToken = qyc_Token (rv_quayConfig rv), qc_endpoint = []\<rparr>;
          gc = \<lparr>gc_ServiceAccount = gcrc_ServiceAccount (rv_gcrConfig rv), gc_endpoint = []\<rparr>
      in \<lparr>m_BRunner = Some (build (job_solver env v (rv_awsConfig rv) dl) dl), m_JRunner = None,
          m_TCheck = Some (AllTagsExist (re_http env) (re_parsetags env) (re_basicauth env) (re_ecr env) qc gc),
          m_FetcherFactory = Some (\<lambda>tkn. NewGitHubFetcher (re_github env tkn) (re_fs env)),
          m_GitHubTokenKey = db_CredEncKeyArray (rv_dbConfig rv), m_DL = Some dl\<rparr>)"

text \<open>
  The command; \<open>None\<close> is a call that waits for BuildKit's socket for ever.  The timeout of the run is
  an event of its schedule; a timeout that is not positive has passed already.
\<close>

definition runbuild ::
  "('s bk_env \<Rightarrow> 's DataLayer \<Rightarrow> ctx \<Rightarrow> BuildOpts \<Rightarrow> ('s, unit) act) \<Rightarrow> ('s, 'd, 'p, 'c) runbuild_env
     \<Rightarrow> runbuild_vars \<Rightarrow> root_vars \<Rightarrow> 's schedule \<Rightarrow> 's \<Rightarrow> ('s \<times> unit go cli) option" where
  "runbuild build env v rv sched s =
     (case or_clierr ''error starting profiler: '' (if bv_Profiling v then re_Profiler env else Ok ()) of
        CliErr e \<Rightarrow> Some (s, CliErr e)
      | CliPanic p \<Rightarrow> Some (s, CliPanic p)
      | CliOk _ \<Rightarrow>
          (case bind_go (wrap_err ''error configuring database: ''
                   (NewPostgresDBLayer (re_ParseConfig env) (re_ConnectConfig env) (re_layer env)
                      (db_PostgresURI (rv_dbConfig rv)))) (\<lambda>pg.
                 bind_go (wrap_err ''error initializing build solver: ''
                   (NewBuildSolver (bv_bkaddr v) (re_bkclient env))) (\<lambda>_.
                 bind_go (wrap_err ''invalid build id: '' (FromString (bv_buildid v))) (\<lambda>bid. Ok (pg, bid)))) of
             Err e \<Rightarrow> Some (s, CliOk (Err e))
           | Panic p \<Rightarrow> Some (s, CliOk (Panic p))
           | Ok (pg, bid) \<Rightarrow>
               (case VerifyAddr (job_solver env v (rv_awsConfig rv) (pgDL pg)) s of
                  None \<Rightarrow> None
                | Some (s1, Err e) \<Rightarrow>
                    Some (s1, CliOk (Err (ErrMsg (''error connecting to buildkitd: '' @ errstr e))))
                | Some (s1, Panic p) \<Rightarrow> Some (s1, CliOk (Panic p))
                | Some (s1, Ok _) \<Rightarrow>
                    (case Run (re_open env) (re_os env) (job_manager build env v rv (pgDL pg)) sched
                            (if bv_runbuildtimeout v \<le> 0 then Done else Active) bid s1 of
                       (s2, r) \<Rightarrow> Some (s2, CliOk r)))))"

section \<open>furan migrate\<close>

text \<open>What \<^verbatim>\<open>Up\<close>, \<^verbatim>\<open>Down\<close> and \<^verbatim>\<open>Version\<close> of the library return.\<close>

datatype migrated = MigOk | ErrNoChange | MigErr goerr
datatype version = VersionOk nat bool | ErrNilVersion | VersionErr goerr

record migrator =
  mg_New :: "string \<Rightarrow> string \<Rightarrow> unit go"
  mg_Up :: migrated
  mg_Down :: migrated
  mg_Version :: version

record migrate_vars =
  gv_postgresURI :: string
  gv_uriFromVault :: bool
  gv_uriFromEnv :: bool
  gv_migrationsPath :: string
  gv_migrationCommand :: string

definition migrate_defaults :: migrate_vars where
  "migrate_defaults =
     \<lparr>gv_postgresURI = [], gv_uriFromVault = False, gv_uriFromEnv = False, gv_migrationsPath = ''migrations'',
      gv_migrationCommand = ''up''\<rparr>"

definition migration_uri ::
  "(root_vars \<Rightarrow> root_vars cli) \<Rightarrow> (string \<Rightarrow> string) \<Rightarrow> root_vars \<Rightarrow> migrate_vars \<Rightarrow> string cli" where
  "migration_uri dbsecrets getenv rv v =
     (if gv_postgresURI v \<noteq> [] then CliOk (gv_postgresURI v)
      else if gv_uriFromVault v then cli_bind (dbsecrets rv) (\<lambda>rv'. CliOk (db_PostgresURI (rv_dbConfig rv')))
      else if gv_uriFromEnv v then
        (if getenv ''DB_URI'' = [] then CliErr ''DB_URI missing from environment'' else CliOk (getenv ''DB_URI''))
      else CliErr ''at least one postgres URI option is required (vault, env, or explicitly provided)'')"

text \<open>The value is what is printed.\<close>

definition domigrations ::
  "(root_vars \<Rightarrow> root_vars cli) \<Rightarrow> (string \<Rightarrow> string) \<Rightarrow> migrator \<Rightarrow> root_vars \<Rightarrow> migrate_vars \<Rightarrow> string cli" where
  "domigrations dbsecrets getenv mg rv v =
     cli_bind (migration_uri dbsecrets getenv rv v) (\<lambda>uri.
     cli_bind (or_clierr ''error creating migrations client: ''
                 (mg_New mg (''file://'' @ gv_migrationsPath v) uri)) (\<lambda>_.
     let ran = (\<lambda>msg m. case m of MigOk \<Rightarrow> CliOk [] | ErrNoChange \<Rightarrow> CliOk [] | MigErr e \<Rightarrow> CliErr (msg @ errstr e))
     in if gv_migrationCommand v = ''up'' then ran ''error running up migrations: '' (mg_Up mg)
        else if gv_migrationCommand v = ''down'' then ran ''error running down migrations: '' (mg_Down mg)
        else if gv_migrationCommand v = ''version'' then
          (case mg_Version mg of
             VersionOk n dirty \<Rightarrow>
               CliOk (''version: '' @ itoa (int n) @ ''; dirty: '' @ (if dirty then ''true'' else ''false''))
           | ErrNilVersion \<Rightarrow> CliOk (''no migrations applied yet'' @ [byte 10])
           | VersionErr e \<Rightarrow> CliErr (''error checking migrations version: '' @ errstr e))
        else CliErr (''unknown/invalid command: '' @ gv_migrationCommand v)))"

section \<open>Lemmas\<close>

text \<open>The handoff ends: the context of the goroutine ends the loop at the latest.\<close>

lemma start_loop_ends: "\<exists>r. start_loop dl c bid (es @ [SelCtxDone]) s = Some r"
proof (induction es arbitrary: s)
  case (Cons e es)
  then show ?case by (cases e) (auto split: prod.splits)
qed simp

lemma timed_Start_ends: "\<exists>r. Start m c opts (evs @ [SelCtxDone]) s = Some r"
proof (cases "m_JRunner m")
  case (Some jrun)
  then show ?thesis
    using start_loop_ends by (cases "m_DL m") (auto simp: Start_def split: prod.splits go.splits)
qed (simp add: Start_def)

lemma process_Ok:
  "process ql mr = Ok mx \<longleftrightarrow>
     ql_Parse ql (mr_CPUReq mr) = Ok (mx_MaxCPUReq mx) \<and> ql_Parse ql (mr_MemReq mr) = Ok (mx_MaxMemReq mx)
     \<and> ql_Parse ql (mr_CPULim mr) = Ok (mx_MaxCPULim mx) \<and> ql_Parse ql (mr_MemLim mr) = Ok (mx_MaxMemLim mx)"
  by (cases mx) (auto simp: process_def bind_go_eq_Ok)

text \<open>What a server that started is made of.\<close>

lemma server_Ok:
  assumes "server env v db s = (s', CliOk (gr, label))"
  shows "gr_CredentialDecryptionKey gr = db_CredEncKeyArray db
    \<and> process (se_quantity env) (sv_maxResources v) = Ok (gr_MaxResources gr)
    \<and> gr_CFFactory gr = (\<lambda>tkn. NewGitHubFetcher (se_github env tkn) (se_fs env))
    \<and> gr_methods gr = None \<and> StartCleanup (sv_jcinterval v) (sv_jcage v) JobLabel = Ok label
    \<and> (\<exists>pg. NewPostgresDBLayer (se_ParseConfig env) (se_ConnectConfig env) (se_layer env) (db_PostgresURI db) = Ok pg
         \<and> gr_DL gr = pgDL pg)"
  using assms
  by (auto simp: server_def Let_def cli_bind_CliOk split: cli.splits prod.splits if_splits go.splits)

text \<open>An empty limit is not a quantity, so that the server does not start.\<close>

lemma empty_limit_refused:
  assumes "ql_Parse (se_quantity env) [] = Err e"
    and "mr_CPUReq (sv_maxResources v) = [] \<or> mr_MemReq (sv_maxResources v) = []
      \<or> mr_CPULim (sv_maxResources v) = [] \<or> mr_MemLim (sv_maxResources v) = []"
  shows "snd (server env v db s) \<noteq> CliOk x"
proof
  assume "snd (server env v db s) = CliOk x"
  then obtain s' gr label where "server env v db s = (s', CliOk (gr, label))" by (cases "server env v db s"; cases x) auto
  from server_Ok [OF this] assms show False by (auto simp: process_Ok)
qed

text \<open>The table of methods that \<^verbatim>\<open>Listen\<close> makes of the service.\<close>

lemma Listen_methods:
  assumes "Listen netlisten (Ok [FuranExecutor]) gr = Ok gr'"
  shows "gr' = gr\<lparr>gr_methods := Some
    [(''/furanrpc.FuranExecutor/StartBuild'', False), (''/furanrpc.FuranExecutor/GetBuildStatus'', True),
     (''/furanrpc.FuranExecutor/GetBuildEvents'', True), (''/furanrpc.FuranExecutor/MonitorBuild'', True),
     (''/furanrpc.FuranExecutor/CancelBuild'', False), (''/furanrpc.FuranExecutor/ListBuilds'', True)]\<rparr>"
proof -
  have "methodsFromFuranService (Ok [FuranExecutor]) = Ok
    [(''/furanrpc.FuranExecutor/StartBuild'', False), (''/furanrpc.FuranExecutor/GetBuildStatus'', True),
     (''/furanrpc.FuranExecutor/GetBuildEvents'', True), (''/furanrpc.FuranExecutor/MonitorBuild'', True),
     (''/furanrpc.FuranExecutor/CancelBuild'', False), (''/furanrpc.FuranExecutor/ListBuilds'', True)]"
    by code_simp
  with assms show ?thesis by (auto simp: Listen_def bind_go_eq_Ok)
qed

text \<open>The default flags name Vault but no way to authenticate: one has to be chosen.\<close>

lemma root_defaults_refused:
  "all_secrets jf newclient (root_defaults getenv)
     = CliErr ''error getting github secrets: at least one vault auth option is required''"
  by (simp add: all_secrets_def gitHubSecrets_def secretsSetup_def root_defaults_def f_GitHub_def with_client_def
      fetcher_init_def backend_options_def or_clierr_def Let_def)

text \<open>Neither command runs with its default flags alone: the one needs an address, the other a database.\<close>

lemma runbuild_defaults_refused:
  "runbuild build env runbuild_defaults rv sched s = Some (s', r) \<Longrightarrow> s' = s \<and> r \<noteq> CliOk (Ok ())"
  by (auto simp: runbuild_def runbuild_defaults_def NewBuildSolver_def bind_go_def wrap_err_def HasPrefix_def or_clierr_def
      split: go.splits)

lemma migrate_defaults_refused:
  "domigrations dbsecrets getenv mg rv migrate_defaults
     = CliErr ''at least one postgres URI option is required (vault, env, or explicitly provided)''"
  by (simp add: domigrations_def migration_uri_def migrate_defaults_def)

text \<open>With the default flags the cleanup starts with the label that every job carries.\<close>

lemma server_defaults_cleanup:
  "StartCleanup (sv_jcinterval server_defaults) (sv_jcage server_defaults) JobLabel = Ok (''created-by'', ''furan2'')"
  by code_simp

text \<open>
  The build of a job: once the build was read and the socket answers, its outcome is that of the
  solver, whatever the cache does.
\<close>

lemma job_build_outcome:
  fixes env v aws dl
  defines "bk \<equiv> job_solver env v aws dl"
  assumes "solver_call build" "dl_GetBuildByID dl c (bo_BuildID opts) s = (s1, Ok b)"
    and "loadCache bk dl c opts (genSolveOpt (bk_Getenv bk) b opts) s1 = (s2, sopts, paths, expath, lres)"
    and "\<And>p. lres \<noteq> Panic p" "\<And>p t. snd (saveCache bk dl c opts expath t) \<noteq> Panic p"
    and "\<And>t. snd (bk_Dial bk (TrimPrefix (bk_addr bk) ''unix://'') t) = Ok ()"
  shows "\<exists>t t'. build bk dl c opts s = (t', case snd (bk_Solve bk c sopts t) of
      Err e \<Rightarrow> Err (Wrapf ''error running solver: '' e) | r \<Rightarrow> r)"
  using bk_Build_outcome [OF assms(3-7)] assms(2) unfolding solver_call_def by blast

text \<open>The manager of a job has all the parts a run needs.\<close>

lemma job_manager_parts:
  "\<exists>brun tc ff. m_BRunner (job_manager build env v rv dl) = Some brun \<and> m_TCheck (job_manager build env v rv dl) = Some tc
     \<and> m_FetcherFactory (job_manager build env v rv dl) = Some ff \<and> m_DL (job_manager build env v rv dl) = Some dl"
  by (simp add: job_manager_def Let_def)

end
