(* ===== verification/Furan_Integration.thy ===== *)
theory Furan_Integration
  imports Furan_Client Furan_Server
begin

text \<open>
  \<^verbatim>\<open>cmd/integration.go\<close>: the command that runs builds against a server in a cluster, one goroutine
  for each test, and compares their results with what the tests expect.

  What the goroutines and the rest of the system do is a schedule: a list of steps of goroutines
  and of functions on the state.  A goroutine takes a step for each of its calls of the server.  The
  lines that are printed are values; the clock of the log is left out.
\<close>

section \<open>Tests\<close>

record IntegrationTest =
  it_Name :: string
  it_Build :: BuildDefinition
  it_ImageRepos :: "string list"
  it_SkipIfExists :: bool
  it_ExpectFailure :: bool
  it_ExpectSkipped :: bool
  it_GitHubToken :: string

text \<open>
  The environment: the file and the YAML decoder, the client of the cluster and its secrets, the
  database, the network and the clock, and \<^verbatim>\<open>client.New\<close>.
\<close>

record ('s, 'd, 'p) integration_env =
  ie_Open :: "string \<Rightarrow> unit go"
  ie_Size :: "string \<Rightarrow> int go"
  ie_ReadAll :: "string \<Rightarrow> string go"
  ie_Unmarshal :: "string \<Rightarrow> IntegrationTest list go"
  ie_InClusterConfig :: "unit go"
  ie_NewForConfig :: "unit go"
  ie_Secret :: "string \<Rightarrow> string \<Rightarrow> ('s, (string \<times> string) list) act"
  ie_Getenv :: "string \<Rightarrow> string"
  ie_ParseConfig :: "string \<Rightarrow> 'd go"
  ie_ConnectConfig :: "'d pool_config \<Rightarrow> 'p go"
  ie_RootKey :: "'p \<Rightarrow> ('s, uuid) act"
  ie_Now :: "'s \<Rightarrow> int"
  ie_Dial :: "string \<Rightarrow> ('s, unit) act"
  ie_Sleep :: "int \<Rightarrow> 's \<Rightarrow> 's"
  ie_client :: "client_Options \<Rightarrow> 's FuranExecutorClient go"

record integration_vars =
  iv_integrationTestsFile :: string
  iv_furanaddr :: string
  iv_furanServerConnectTimeout :: int

definition integration_defaults :: integration_vars where
  "integration_defaults =
     \<lparr>iv_integrationTestsFile = ''/opt/testing/integration.yaml'', iv_furanaddr = ''furan:4000'',
      iv_furanServerConnectTimeout = 2 * 60 * 10 ^ 9\<rparr>"

section \<open>Preparation\<close>

definition NewInClusterK8sClient :: "unit go \<Rightarrow> 'k go \<Rightarrow> 'k go" where
  "NewInClusterK8sClient config client =
     bind_go (wrap_err ''error getting in-cluster config: '' config) (\<lambda>_.
     wrap_err ''error getting client: '' client)"

text \<open>\<open>ie_RootKey\<close> is the query for the key with the name \<^verbatim>\<open>root\<close>.\<close>

definition integration_GetAPIKey :: "('s, 'd, 'p) integration_env \<Rightarrow> ('s, uuid) act" where
  "integration_GetAPIKey env =
     bind_act (wrap_act ''error getting postgres client: ''
       (ret_act (NewRawPGClient (ie_ParseConfig env) (ie_ConnectConfig env) (ie_Getenv env ''DB_URI'') 1)))
       (ie_RootKey env)"

definition WaitForFuranServer ::
  "('s, 'd, 'p) integration_env \<Rightarrow> int \<Rightarrow> string \<Rightarrow> 's \<Rightarrow> ('s \<times> unit go) option" where
  "WaitForFuranServer env tmout addr s =
     poll (ie_Now env) (ie_Dial env addr) (ie_Sleep env (10 ^ 9))
       (ErrMsg (''timeout waiting for furan server ('' @ Duration_String tmout @ '')'')) (ie_Now env s + tmout) s"

text \<open>Lines 75 to 108.\<close>

definition read_tests :: "('s, 'd, 'p) integration_env \<Rightarrow> string \<Rightarrow> IntegrationTest list go" where
  "read_tests env path =
     bind_go (wrap_err ''error opening integration tests file: '' (ie_Open env path)) (\<lambda>_.
     bind_go (wrap_err ''error getting file info: '' (ie_Size env path)) (\<lambda>size.
     if size > 10000000 then Err (ErrMsg (''integration test exceeds max size: '' @ itoa size))
     else
       bind_go (wrap_err ''error reading file: '' (ie_ReadAll env path)) (\<lambda>td.
       bind_go (wrap_err ''error decoding integration tests file: '' (ie_Unmarshal env td)) (\<lambda>tests.
       bind_go (wrap_err ''error getting k8s client: ''
                  (NewInClusterK8sClient (ie_InClusterConfig env) (ie_NewForConfig env))) (\<lambda>_.
       if tests = [] then Err (ErrMsg ''no tests defined'') else Ok tests)))))"

text \<open>Lines 112 to 119: the credentials; a secret without the key \<^verbatim>\<open>token\<close> gives an empty one.\<close>

fun fill_credentials ::
  "('s, 'd, 'p) integration_env \<Rightarrow> IntegrationTest list \<Rightarrow> ('s, IntegrationTest list) act" where
  "fill_credentials env [] = ret_act (Ok [])"
| "fill_credentials env (t # ts) =
     bind_act (wrap_act (''error getting secret: '' @ it_GitHubToken t @ '': '')
                 (ie_Secret env (ie_Getenv env ''POD_NAMESPACE'') (it_GitHubToken t))) (\<lambda>dat.
     let tok = (case map_of dat ''token'' of Some x \<Rightarrow> x | None \<Rightarrow> [])
     in bind_act (fill_credentials env ts) (\<lambda>ts'.
        ret_act (Ok (t\<lparr>it_Build := (it_Build t)\<lparr>bd_GithubCredential := tok\<rparr>\<rparr> # ts'))))"

section \<open>The goroutine of a test\<close>

definition it_request :: "IntegrationTest \<Rightarrow> BuildRequest" where
  "it_request t =
     \<lparr>rq_Build = Some (it_Build t),
      rq_Push = Some \<lparr>pd_Registries = map (\<lambda>r. Some \<lparr>pr_Repo = r\<rparr>) (it_ImageRepos t)\<rparr>,
      rq_SkipIfExists = it_SkipIfExists t\<rparr>"

text \<open>The \<^verbatim>\<open>switch\<close> at the end of \<^verbatim>\<open>monitorIntegrationBuild\<close>.\<close>

definition it_verdict :: "bool \<Rightarrow> bool \<Rightarrow> BuildState \<Rightarrow> unit go" where
  "it_verdict fail skip st =
     (if st = BuildState_FAILURE then
        (if \<not> fail then Err (ErrMsg ''unexpected build failure'') else Ok ())
      else if st = BuildState_SUCCESS then
        (if fail then Err (ErrMsg ''wanted build failure but it succeeded instead'') else Ok ())
      else if st = BuildState_SKIPPED then
        (if \<not> skip then Err (ErrMsg ''unexpected build skipped'') else Ok ())
      else Err (ErrMsg (''unexpected final build status: '' @ BuildState_String st)))"

text \<open>\<^verbatim>\<open>monitorIntegrationBuild\<close>: the stream of events, and the final status.\<close>

definition it_events :: "'s FuranExecutorClient \<Rightarrow> uuid \<Rightarrow> 's \<Rightarrow> 's \<times> string list \<times> unit go" where
  "it_events rb bid s =
     (case rb_MonitorBuild rb Background bid s of
        (s1, Err e) \<Rightarrow> (s1, [], Err (Wrapf (''error monitoring build '' @ uuid_String bid @ '': '') e))
      | (s1, Panic p) \<Rightarrow> (s1, [], Panic p)
      | (s1, Ok (evs, end)) \<Rightarrow>
          (s1, map (\<lambda>ev. uuid_String bid @ '': '' @ event_line ev) evs,
           if end = ErrEOF then Ok ()
           else Err (Wrapf (''error getting build event ('' @ uuid_String bid @ ''): '') end)))"

definition it_final ::
  "'s FuranExecutorClient \<Rightarrow> bool \<Rightarrow> bool \<Rightarrow> uuid \<Rightarrow> 's \<Rightarrow> 's \<times> string list \<times> unit go" where
  "it_final rb fail skip bid s =
     (case rb_GetBuildStatus rb Background bid s of
        (s1, Err e) \<Rightarrow> (s1, [], Err (Wrapf ''error getting final build status: '' e))
      | (s1, Panic p) \<Rightarrow> (s1, [], Panic p)
      | (s1, Ok bs) \<Rightarrow>
          (s1, [''build completed: state: '' @ BuildState_String (sr_State bs) @ duration_text bs],
           it_verdict fail skip (sr_State bs)))"

text \<open>
  A goroutine is before its first call, before the call that opens the stream, before the call for
  the status, or has returned.  \<open>is_err\<close> is the error of the group, the first that a goroutine
  returned; \<open>is_crash\<close> is set when a goroutine panicked, which ends the process.
\<close>

datatype it_goroutine = ItStart | ItMonitor uuid | ItStatus uuid | ItDone

record 's it_state =
  is_s :: 's
  is_gs :: "it_goroutine list"
  is_builds :: "(string \<times> uuid) list"
  is_err :: "goerr option"
  is_crash :: "string option"
  is_out :: "string list"

text \<open>What follows a call: the next state of the goroutine, or its end with an error.\<close>

definition it_next ::
  "nat \<Rightarrow> it_goroutine \<Rightarrow> 's \<Rightarrow> string list \<Rightarrow> unit go \<Rightarrow> 's it_state \<Rightarrow> 's it_state" where
  "it_next i g s ls r st =
     (let st = st\<lparr>is_s := s, is_out := is_out st @ ls\<rparr>
      in case r of
           Ok _ \<Rightarrow> st\<lparr>is_gs := (is_gs st)[i := g]\<rparr>
         | Err e \<Rightarrow> st\<lparr>is_gs := (is_gs st)[i := ItDone],
                       is_err := (case is_err st of None \<Rightarrow> Some e | Some e' \<Rightarrow> Some e')\<rparr>
         | Panic p \<Rightarrow> st\<lparr>is_crash := Some p\<rparr>)"

definition it_start ::
  "'s FuranExecutorClient \<Rightarrow> nat \<Rightarrow> IntegrationTest \<Rightarrow> 's it_state \<Rightarrow> 's it_state" where
  "it_start rb i t st =
     (let pre = ''starting build: '' @ itoa (int i) @ '': '' @ it_Name t
      in case rb_StartBuild rb Background (it_request t) (is_s st) of
           (s1, Err e) \<Rightarrow>
             it_next i ItDone s1 [pre] (Err (Wrapf (''error starting build: '' @ it_Name t @ '': '') e)) st
         | (s1, Panic p) \<Rightarrow> it_next i ItDone s1 [pre] (Panic p) st
         | (s1, Ok bid) \<Rightarrow>
             it_next i (ItMonitor bid) s1
               [pre, ''build started: '' @ itoa (int i) @ '': '' @ it_Name t @ '': '' @ uuid_String bid] (Ok ())
               (st\<lparr>is_builds := AList.update (it_Name t) bid (is_builds st)\<rparr>))"

datatype 's it_act = ItGo nat | ItWorld "'s \<Rightarrow> 's"

definition it_step ::
  "'s FuranExecutorClient \<Rightarrow> IntegrationTest list \<Rightarrow> 's it_act \<Rightarrow> 's it_state \<Rightarrow> 's it_state" where
  "it_step rb tests a st =
     (if is_crash st \<noteq> None then st
      else case a of
        ItWorld f \<Rightarrow> st\<lparr>is_s := f (is_s st)\<rparr>
      | ItGo i \<Rightarrow>
          if i < length tests \<and> i < length (is_gs st) then
            (let t = tests ! i in
             case is_gs st ! i of
               ItStart \<Rightarrow> it_start rb i t st
             | ItMonitor bid \<Rightarrow>
                 (case it_events rb bid (is_s st) of (s1, ls, r) \<Rightarrow> it_next i (ItStatus bid) s1 ls r st)
             | ItStatus bid \<Rightarrow>
                 (case it_final rb (it_ExpectFailure t) (it_ExpectSkipped t) bid (is_s st) of
                    (s1, ls, r) \<Rightarrow> it_next i ItDone s1 ls r st)
             | ItDone \<Rightarrow> st)
          else st)"

definition it_run ::
  "'s FuranExecutorClient \<Rightarrow> IntegrationTest list \<Rightarrow> 's it_act list \<Rightarrow> 's \<Rightarrow> 's it_state" where
  "it_run rb tests sched s =
     fold (it_step rb tests) sched
       \<lparr>is_s = s, is_gs = replicate (length tests) ItStart, is_builds = [], is_err = None, is_crash = None, is_out = []\<rparr>"

section \<open>The command\<close>

text \<open>Lines 179 to 186: the statuses at the end.\<close>

fun it_statuses ::
  "'s FuranExecutorClient \<Rightarrow> (string \<times> uuid) list \<Rightarrow> 's \<Rightarrow> 's \<times> string list \<times> unit go" where
  "it_statuses rb [] s = (s, [], Ok ())"
| "it_statuses rb ((name, bid) # bs) s =
     (case rb_GetBuildStatus rb Background bid s of
        (s1, Panic p) \<Rightarrow> (s1, [], Panic p)
      | (s1, Err e) \<Rightarrow>
          (case it_statuses rb bs s1 of
             (s2, ls, r) \<Rightarrow>
               (s2, (''error getting build status: '' @ uuid_String bid @ '': '' @ name @ '': '' @ errstr e) # ls, r))
      | (s1, Ok resp) \<Rightarrow>
          (case it_statuses rb bs s1 of
             (s2, ls, r) \<Rightarrow>
               (s2, (''build status: '' @ uuid_String bid @ '': '' @ name @ '': ''
                     @ BuildState_String (sr_State resp)) # ls, r)))"

text \<open>
  The error of \<^verbatim>\<open>client.New\<close> is not looked at: the goroutines then call the methods of a nil
  \<^verbatim>\<open>RemoteBuilder\<close>, each of which reads a field.
\<close>

definition nil_RemoteBuilder :: "'s FuranExecutorClient" where
  "nil_RemoteBuilder =
     \<lparr>fc_StartBuild = (\<lambda>_ _ s. (s, Panic nil_deref)), fc_GetBuildStatus = (\<lambda>_ _ s. (s, Panic nil_deref)),
      fc_GetBuildEvents = (\<lambda>_ _ s. (s, Panic nil_deref)), fc_MonitorBuild = (\<lambda>_ _ s. (s, Panic nil_deref)),
      fc_CancelBuild = (\<lambda>_ _ s. (s, Panic nil_deref)), fc_ListBuilds = (\<lambda>_ _ s. (s, Panic nil_deref))\<rparr>"

text \<open>
  From the goroutines to the end of the command.  \<^verbatim>\<open>Wait\<close> returns when every goroutine has returned;
  \<open>None\<close> is a schedule on which it has not.  \<open>ord\<close> is the order in which Go visits the map.
\<close>

definition it_builds ::
  "'s FuranExecutorClient \<Rightarrow> IntegrationTest list \<Rightarrow> 's it_act list
     \<Rightarrow> ((string \<times> uuid) list \<Rightarrow> (string \<times> uuid) list) \<Rightarrow> 's \<Rightarrow> ('s \<times> string list \<times> unit go) option" where
  "it_builds rb tests sched ord s =
     (let st = it_run rb tests sched s
      in case is_crash st of
           Some p \<Rightarrow> Some (is_s st, is_out st, Panic p)
         | None \<Rightarrow>
             if \<not> list_all (\<lambda>g. g = ItDone) (is_gs st) then None
             else case is_err st of
                    Some e \<Rightarrow> Some (is_s st, is_out st, Err (Wrapf ''failure: '' e))
                  | None \<Rightarrow>
                      (case it_statuses rb (ord (is_builds st)) (is_s st) of
                         (s1, ls, r) \<Rightarrow> Some (s1, is_out st @ ls, r)))"

text \<open>Lines 75 to 124: what comes before the wait for the server.\<close>

definition it_prepare ::
  "('s, 'd, 'p) integration_env \<Rightarrow> integration_vars \<Rightarrow> ('s, IntegrationTest list \<times> uuid) act" where
  "it_prepare env v =
     bind_act (ret_act (read_tests env (iv_integrationTestsFile v))) (\<lambda>tests.
     bind_act (fill_credentials env tests) (\<lambda>tests.
     bind_act (wrap_act ''error getting api key: '' (integration_GetAPIKey env)) (\<lambda>apikey.
     ret_act (Ok (tests, apikey)))))"

definition integration ::
  "('s, 'd, 'p) integration_env \<Rightarrow> integration_vars \<Rightarrow> 's it_act list
     \<Rightarrow> ((string \<times> uuid) list \<Rightarrow> (string \<times> uuid) list) \<Rightarrow> 's \<Rightarrow> ('s \<times> string list \<times> unit go) option" where
  "integration env v sched ord s =
     (case it_prepare env v s of
        (s1, Err e) \<Rightarrow> Some (s1, [], Err e)
      | (s1, Panic p) \<Rightarrow> Some (s1, [], Panic p)
      | (s1, Ok (tests, apikey)) \<Rightarrow>
          (case WaitForFuranServer env (iv_furanServerConnectTimeout v) (iv_furanaddr v) s1 of
             None \<Rightarrow> None
           | Some (s2, Err e) \<Rightarrow> Some (s2, [], Err (Wrapf ''error verifying furan server is running: '' e))
           | Some (s2, Panic p) \<Rightarrow> Some (s2, [], Panic p)
           | Some (s2, Ok _) \<Rightarrow>
               (case ie_client env \<lparr>cl_Address = iv_furanaddr v, cl_APIKey = uuid_String apikey,
                                    cl_TLSInsecureSkipVerify = True\<rparr> of
                  Panic p \<Rightarrow> Some (s2, [], Panic p)
                | Err e \<Rightarrow> it_builds nil_RemoteBuilder tests sched ord s2
                | Ok rb \<Rightarrow> it_builds rb tests sched ord s2)))"

section \<open>Lemmas: the goroutines\<close>

text \<open>Each step of a goroutine brings it one call closer to its end, and no step sets it back.\<close>

primrec it_left :: "it_goroutine \<Rightarrow> nat" where
  "it_left ItStart = 3"
| "it_left (ItMonitor bid) = 2"
| "it_left (ItStatus bid) = 1"
| "it_left ItDone = 0"

primrec is_go :: "nat \<Rightarrow> 's it_act \<Rightarrow> bool" where
  "is_go i (ItGo j) \<longleftrightarrow> i = j"
| "is_go i (ItWorld f) \<longleftrightarrow> False"

abbreviation (input) it_steps :: "nat \<Rightarrow> 's it_act list \<Rightarrow> nat" where
  "it_steps i sched \<equiv> length (filter (is_go i) sched)"

lemma it_left_0: "it_left g = 0 \<longleftrightarrow> g = ItDone"
  by (cases g) simp_all

lemma it_next_gs:
  "is_crash (it_next i g s ls r st) = None \<Longrightarrow>
     \<exists>g'. is_gs (it_next i g s ls r st) = (is_gs st)[i := g'] \<and> (g' = g \<or> g' = ItDone)"
  by (cases r) (auto simp: it_next_def)

lemma it_next_length [simp]: "length (is_gs (it_next i g s ls r st)) = length (is_gs st)"
  by (cases r) (simp_all add: it_next_def)

lemma it_step_length [simp]: "length (is_gs (it_step rb tests a st)) = length (is_gs st)"
  by (simp add: it_step_def it_start_def Let_def split: it_act.split it_goroutine.split prod.split go.split)

lemma fold_length [simp]: "length (is_gs (fold (it_step rb tests) sched st)) = length (is_gs st)"
  by (induction sched arbitrary: st) simp_all

lemma it_start_gs:
  assumes "is_crash (it_start rb i t st) = None"
  shows "\<exists>g'. is_gs (it_start rb i t st) = (is_gs st)[i := g'] \<and> it_left g' \<le> 2"
  using assms by (auto simp: it_start_def Let_def dest!: it_next_gs split: prod.splits go.splits)

lemma it_step_left:
  assumes "is_crash (it_step rb tests a st) = None" "length (is_gs st) = length tests" "i < length tests"
  shows "it_left (is_gs (it_step rb tests a st) ! i) \<le> it_left (is_gs st ! i) - (if is_go i a then 1 else 0)"
proof (cases "is_crash st = None \<and> (\<exists>j. a = ItGo j \<and> j < length tests)")
  case True
  then obtain j where a: "a = ItGo j" "j < length tests" "is_crash st = None" by blast
  have "\<exists>g'. is_gs (it_step rb tests a st) = (is_gs st)[j := g'] \<and> it_left g' \<le> it_left (is_gs st ! j) - 1"
  proof (cases "is_gs st ! j")
    case ItStart
    with a assms(1,2) it_start_gs [of rb j "tests ! j" st] show ?thesis by (simp add: it_step_def)
  next
    case (ItMonitor bid)
    obtain s1 ls r where "it_events rb bid (is_s st) = (s1, ls, r)" by (metis prod_cases3)
    with ItMonitor a assms(1,2) it_next_gs [of j "ItStatus bid" s1 ls r st] show ?thesis
      by (auto simp: it_step_def)
  next
    case (ItStatus bid)
    obtain s1 ls r where "it_final rb (it_ExpectFailure (tests ! j)) (it_ExpectSkipped (tests ! j)) bid (is_s st) = (s1, ls, r)"
      by (metis prod_cases3)
    with ItStatus a assms(1,2) it_next_gs [of j ItDone s1 ls r st] show ?thesis by (auto simp: it_step_def)
  next
    case ItDone
    with a assms(2) have "is_gs (it_step rb tests a st) = (is_gs st)[j := ItDone]"
      by (simp add: it_step_def) (metis list_update_id)
    then show ?thesis by fastforce
  qed
  with a assms(2,3) show ?thesis by (auto simp: nth_list_update)
qed (use assms in \<open>auto simp: it_step_def split: it_act.splits\<close>)

lemma it_step_crashed: "is_crash st \<noteq> None \<Longrightarrow> it_step rb tests a st = st"
  by (simp add: it_step_def)

lemma fold_crashed: "is_crash st \<noteq> None \<Longrightarrow> fold (it_step rb tests) sched st = st"
  by (induction sched) (simp_all add: it_step_crashed)

lemma fold_left:
  "is_crash (fold (it_step rb tests) sched st) = None \<Longrightarrow> length (is_gs st) = length tests \<Longrightarrow> i < length tests \<Longrightarrow>
     it_left (is_gs (fold (it_step rb tests) sched st) ! i) \<le> it_left (is_gs st ! i) - it_steps i sched"
proof (induction sched arbitrary: st)
  case (Cons a sched)
  let ?st = "it_step rb tests a st"
  have c: "is_crash ?st = None" using Cons.prems(1) fold_crashed [of ?st rb tests sched] by (metis fold_simps(2))
  note l = it_step_left [OF c Cons.prems(2,3)]
  from Cons.IH [of ?st] Cons.prems l show ?case by (auto split: if_splits)
qed simp

text \<open>A schedule with three steps for each goroutine lets the command come back from \<^verbatim>\<open>Wait\<close>.\<close>

lemma it_builds_returns:
  assumes "\<And>i. i < length tests \<Longrightarrow> 3 \<le> it_steps i sched"
  shows "\<exists>r. it_builds rb tests sched ord s = Some r"
proof (cases "is_crash (it_run rb tests sched s)")
  case None
  have "is_gs (it_run rb tests sched s) ! i = ItDone" if "i < length tests" for i
    using fold_left [OF None [unfolded it_run_def], of i] that assms [OF that]
    by (simp add: it_run_def flip: it_left_0)
  then have "list_all (\<lambda>g. g = ItDone) (is_gs (it_run rb tests sched s))"
    by (simp add: list_all_length it_run_def)
  with None show ?thesis by (auto simp: it_builds_def Let_def split: option.splits prod.splits)
qed (simp add: it_builds_def Let_def)

text \<open>
  What is known of a goroutine: its build was started with the request of its test, and if it has
  returned without an error, the server's last answer was one that the test accepts.
\<close>

definition it_started :: "'s FuranExecutorClient \<Rightarrow> IntegrationTest \<Rightarrow> uuid \<Rightarrow> bool" where
  "it_started rb t bid \<longleftrightarrow> (\<exists>s s'. rb_StartBuild rb Background (it_request t) s = (s', Ok bid))"

definition it_accepted :: "IntegrationTest \<Rightarrow> BuildState set" where
  "it_accepted t =
     {if it_ExpectFailure t then BuildState_FAILURE else BuildState_SUCCESS}
     \<union> (if it_ExpectSkipped t then {BuildState_SKIPPED} else {})"

definition it_passed :: "'s FuranExecutorClient \<Rightarrow> IntegrationTest \<Rightarrow> bool" where
  "it_passed rb t \<longleftrightarrow>
     (\<exists>bid s s' bs. it_started rb t bid \<and> rb_GetBuildStatus rb Background bid s = (s', Ok bs)
        \<and> sr_State bs \<in> it_accepted t)"

primrec it_knows :: "'s FuranExecutorClient \<Rightarrow> IntegrationTest \<Rightarrow> bool \<Rightarrow> it_goroutine \<Rightarrow> bool" where
  "it_knows rb t err ItStart \<longleftrightarrow> True"
| "it_knows rb t err (ItMonitor bid) \<longleftrightarrow> it_started rb t bid"
| "it_knows rb t err (ItStatus bid) \<longleftrightarrow> it_started rb t bid"
| "it_knows rb t err ItDone \<longleftrightarrow> err \<or> it_passed rb t"

definition it_known :: "'s FuranExecutorClient \<Rightarrow> IntegrationTest list \<Rightarrow> 's it_state \<Rightarrow> bool" where
  "it_known rb tests st \<longleftrightarrow>
     (\<forall>i < length tests. it_knows rb (tests ! i) (is_err st \<noteq> None) (is_gs st ! i))"

lemma it_knows_err: "it_knows rb t err g \<Longrightarrow> it_knows rb t True g"
  by (cases g) simp_all

lemma it_verdict_Ok: "it_verdict (it_ExpectFailure t) (it_ExpectSkipped t) x = Ok () \<longleftrightarrow> x \<in> it_accepted t"
  by (auto simp: it_verdict_def it_accepted_def)

lemma it_final_Ok:
  "it_final rb (it_ExpectFailure t) (it_ExpectSkipped t) bid s = (s1, ls, Ok ()) \<Longrightarrow> it_started rb t bid \<Longrightarrow>
     it_passed rb t"
  by (auto simp: it_final_def it_passed_def it_verdict_Ok split: prod.splits go.splits)

lemma it_next_known:
  assumes "it_known rb tests st" "length (is_gs st) = length tests"
    and "r = Ok () \<Longrightarrow> it_knows rb (tests ! i) (is_err st \<noteq> None) g"
  shows "it_known rb tests (it_next i g s ls r st)"
  using assms
  by (cases r; cases "i < length tests")
     (auto simp: it_next_def it_known_def nth_list_update intro: it_knows_err split: option.split)

lemma it_known_builds [simp]: "it_known rb tests (st\<lparr>is_builds := x\<rparr>) = it_known rb tests st"
  by (simp add: it_known_def)

lemma it_step_known:
  assumes "it_known rb tests st" "length (is_gs st) = length tests"
  shows "it_known rb tests (it_step rb tests a st)"
proof (cases "is_crash st = None \<and> (\<exists>j. a = ItGo j \<and> j < length tests)")
  case True
  then obtain j where a: "a = ItGo j" "j < length tests" "is_crash st = None" by blast
  note k = it_next_known [OF assms]
  show ?thesis
  proof (cases "is_gs st ! j")
    case ItStart
    have "it_known rb tests (it_start rb j (tests ! j) st)"
      unfolding it_start_def Let_def
      by (auto intro!: it_next_known simp: assms it_started_def split: prod.split go.split) blast
    with ItStart a assms(2) show ?thesis by (simp add: it_step_def)
  next
    case (ItMonitor bid)
    with assms a have "it_started rb (tests ! j) bid" by (fastforce simp: it_known_def)
    then have "it_known rb tests (it_next j (ItStatus bid) s1 ls r st)" for s1 ls r by (intro k) simp
    with ItMonitor a assms(2) show ?thesis by (simp add: it_step_def split: prod.split)
  next
    case (ItStatus bid)
    with assms a have "it_started rb (tests ! j) bid" by (fastforce simp: it_known_def)
    from it_final_Ok [OF _ this] have "it_known rb tests (it_next j ItDone s1 ls r st)"
      if "it_final rb (it_ExpectFailure (tests ! j)) (it_ExpectSkipped (tests ! j)) bid (is_s st) = (s1, ls, r)" for s1 ls r
      using that by (intro k) simp
    with ItStatus a assms(2) show ?thesis by (simp add: it_step_def Let_def split: prod.split)
  qed (use a assms in \<open>simp add: it_step_def\<close>)
qed (use assms in \<open>auto simp: it_step_def it_known_def split: it_act.splits\<close>)

lemma fold_known:
  "it_known rb tests st \<Longrightarrow> length (is_gs st) = length tests \<Longrightarrow> it_known rb tests (fold (it_step rb tests) sched st)"
  by (induction sched arbitrary: st) (simp_all add: it_step_known)

lemma it_run_known: "it_known rb tests (it_run rb tests sched s)"
  unfolding it_run_def by (rule fold_known) (simp_all add: it_known_def)

text \<open>The command passes only if every test has.\<close>

lemma it_builds_Ok:
  assumes "it_builds rb tests sched ord s = Some (s', out, Ok ())" "t \<in> set tests"
  shows "it_passed rb t"
proof -
  let ?st = "it_run rb tests sched s"
  from assms(1) have st: "is_err ?st = None" "list_all (\<lambda>g. g = ItDone) (is_gs ?st)"
    by (auto simp: it_builds_def Let_def split: option.splits if_splits)
  from assms(2) obtain i where i: "i < length tests" "tests ! i = t" by (auto simp: in_set_conv_nth)
  then have "is_gs ?st ! i = ItDone" using st(2) by (simp add: list_all_length it_run_def)
  with it_run_known [of rb tests sched s] i st(1) show ?thesis by (fastforce simp: it_known_def)
qed

lemma nil_never_passes: "\<not> it_passed nil_RemoteBuilder t"
  by (auto simp: it_passed_def it_started_def rb_StartBuild_def bind_act_Ok wrap_act_def nil_RemoteBuilder_def)

text \<open>The goroutines of a nil client crash the command as soon as one of them is scheduled.\<close>

lemma nil_client_crashes:
  assumes "is_crash st = None" "i < length tests" "length (is_gs st) = length tests"
    and "list_all (\<lambda>g. g = ItStart) (is_gs st)" "\<exists>a \<in> set sched. is_go i a"
  shows "is_crash (fold (it_step nil_RemoteBuilder tests) sched st) = Some nil_deref"
  using assms
proof (induction sched arbitrary: st)
  case (Cons a sched)
  have start: "it_step nil_RemoteBuilder tests (ItGo j) st = it_start nil_RemoteBuilder j (tests ! j) st"
    "is_crash (it_start nil_RemoteBuilder j (tests ! j) st) = Some nil_deref" if "j < length tests" for j
    using that Cons.prems
    by (simp_all add: it_step_def list_all_length it_start_def it_next_def rb_StartBuild_def
        nil_RemoteBuilder_def bind_act_def wrap_act_def Let_def)
  show ?case
  proof (cases "\<exists>j. a = ItGo j \<and> j < length tests")
    case True
    then obtain j where "a = ItGo j" "j < length tests" by blast
    with start show ?thesis by (simp add: fold_crashed)
  next
    case False
    then have "it_step nil_RemoteBuilder tests a st = (case a of ItWorld f \<Rightarrow> st\<lparr>is_s := f (is_s st)\<rparr> | _ \<Rightarrow> st)"
      by (auto simp: it_step_def Cons.prems(1) split: it_act.splits)
    moreover have "\<exists>a \<in> set sched. is_go i a" using Cons.prems(2,5) False by (cases a) auto
    ultimately show ?thesis using Cons.IH Cons.prems by (cases a) auto
  qed
qed simp

section \<open>Lemmas: the command\<close>

lemma fill_credentials_length: "fill_credentials env ts s = (s', Ok ts') \<Longrightarrow> length ts' = length ts"
  by (induction ts arbitrary: s s' ts') (auto simp: ret_act_def bind_act_Ok Let_def)

lemma WaitForFuranServer_ends:
  assumes "\<And>s d. ie_Now env s + d \<le> ie_Now env (ie_Sleep env d s)"
    and "\<And>s a. ie_Now env s \<le> ie_Now env (fst (ie_Dial env a s))"
  shows "\<exists>r. WaitForFuranServer env tmout addr s = Some r"
proof -
  have "ie_Now env s < ie_Now env (ie_Sleep env (10 ^ 9) s)" for s
    using assms(1) [of s "10 ^ 9"] by simp
  then show ?thesis unfolding WaitForFuranServer_def by (intro poll_ends assms(2))
qed

lemma it_prepare_Ok:
  assumes "it_prepare env v s = (s', Ok (tests, apikey))"
  shows "\<exists>ts s1. read_tests env (iv_integrationTestsFile v) = Ok ts \<and> fill_credentials env ts s = (s1, Ok tests)
    \<and> length tests = length ts \<and> tests \<noteq> []"
proof -
  from assms obtain ts s1 where ts: "read_tests env (iv_integrationTestsFile v) = Ok ts" "fill_credentials env ts s = (s1, Ok tests)"
    by (auto simp: it_prepare_def bind_act_Ok ret_act_def)
  from ts(1) have "ts \<noteq> []" by (auto simp: read_tests_def bind_go_eq_Ok split: if_splits)
  with ts fill_credentials_length [OF ts(2)] show ?thesis by fastforce
qed

section \<open>Properties\<close>


text \<open>A cluster whose state is its clock, and a server that has built everything.\<close>

definition demo_test :: IntegrationTest where
  "demo_test =
     \<lparr>it_Name = ''ecr'', it_Build =
        \<lparr>bd_GithubRepo = ''acme/app'', bd_GithubCredential = [], bd_DockerfilePath = ''.'', bd_Ref = ''master'', bd_Tags = [''v1''],
         bd_TagWithCommitSha = False, bd_Args = [], bd_CacheOptions = None, bd_Resources = None\<rparr>,
      it_ImageRepos = [''quay.io/acme/app''], it_SkipIfExists = False, it_ExpectFailure = False, it_ExpectSkipped = False,
      it_GitHubToken = ''github-token''\<rparr>"

definition demo_builder :: "int FuranExecutorClient" where
  "demo_builder =
     \<lparr>fc_StartBuild = (\<lambda>_ _ s. (s, Ok (uuid_String 5))),
      fc_GetBuildStatus = (\<lambda>_ i s. (s, Ok (zero_StatusResponse\<lparr>sr_BuildId := i, sr_State := BuildState_SUCCESS\<rparr>))),
      fc_GetBuildEvents = (\<lambda>_ _ s. (s, Err (ErrMsg ''unused''))), fc_MonitorBuild = (\<lambda>_ _ s. (s, Ok ([], ErrEOF))),
      fc_CancelBuild = (\<lambda>_ _ s. (s, Err (ErrMsg ''unused''))), fc_ListBuilds = (\<lambda>_ _ s. (s, Ok []))\<rparr>"

definition demo_integration :: "(int, unit, unit) integration_env" where
  "demo_integration =
     \<lparr>ie_Open = (\<lambda>_. Ok ()), ie_Size = (\<lambda>_. Ok 1200), ie_ReadAll = (\<lambda>_. Ok ''tests:''),
      ie_Unmarshal = (\<lambda>_. Ok [demo_test]), ie_InClusterConfig = Ok (), ie_NewForConfig = Ok (),
      ie_Secret = (\<lambda>_ _ s. (s, Ok [(''token'', ''s3cr3t'')])), ie_Getenv = (\<lambda>_. ''furan''), ie_ParseConfig = (\<lambda>_. Ok ()),
      ie_ConnectConfig = (\<lambda>_. Ok ()), ie_RootKey = (\<lambda>_ s. (s, Ok 7)), ie_Now = (\<lambda>s. s), ie_Dial = (\<lambda>_ s. (s, Ok ())),
      ie_Sleep = (\<lambda>d s. s + d), ie_client = (\<lambda>_. Ok demo_builder)\<rparr>"

definition demo_steps :: "int it_act list" where
  "demo_steps = [ItGo 0, ItWorld (\<lambda>s. s + 1), ItGo 0, ItGo 0]"

lemma demo_wait: "WaitForFuranServer demo_integration d a 0 = Some (0, if 0 < d then Ok () else Err (ErrMsg (''timeout waiting for furan server ('' @ Duration_String d @ '')'')))"
  unfolding WaitForFuranServer_def by (subst poll.simps) (simp add: demo_integration_def)

lemma demo_client: "ie_client demo_integration opts = Ok demo_builder"
  by (simp add: demo_integration_def)

lemma demo_reads: "read_tests demo_integration path = Ok [demo_test]"
  by (simp add: read_tests_def demo_integration_def NewInClusterK8sClient_def)

lemma demo_prepare:
  "it_prepare demo_integration v 0
     = (0, Ok ([demo_test\<lparr>it_Build := (it_Build demo_test)\<lparr>bd_GithubCredential := ''s3cr3t''\<rparr>\<rparr>], 7))"
  by (simp add: it_prepare_def demo_reads ret_act_def bind_act_def wrap_act_def integration_GetAPIKey_def NewRawPGClient_def)
     (simp add: demo_integration_def ret_act_def bind_act_def)

lemma demo_builds:
  "\<exists>s' out. it_builds demo_builder [demo_test\<lparr>it_Build := d\<rparr>] demo_steps (\<lambda>xs. xs) 0 = Some (s', out, Ok ())"
  by (simp add: it_builds_def it_run_def demo_steps_def it_step_def it_start_def it_next_def it_events_def it_final_def
      rb_StartBuild_def rb_MonitorBuild_def rb_GetBuildStatus_def bind_act_def wrap_act_def ret_act_def
      demo_builder_def demo_test_def it_verdict_def Let_def)




text \<open>
  The error of \<^verbatim>\<open>client.New\<close> is dropped: if the connection cannot be made, the command does not report
  it but crashes, on every schedule on which a goroutine gets a step.
\<close>

theorem client_error_crashes:
  assumes "it_prepare env v s = (s1, Ok (tests, apikey))"
    and "WaitForFuranServer env (iv_furanServerConnectTimeout v) (iv_furanaddr v) s1 = Some (s2, Ok ())"
    and "ie_client env \<lparr>cl_Address = iv_furanaddr v, cl_APIKey = uuid_String apikey, cl_TLSInsecureSkipVerify = True\<rparr> = Err e"
    and "\<exists>a \<in> set sched. is_go i a" "i < length tests"
  shows "\<exists>s' out. integration env v sched ord s = Some (s', out, Panic nil_deref)"
proof -
  have "is_crash (it_run nil_RemoteBuilder tests sched s2) = Some nil_deref"
    unfolding it_run_def using assms(4,5) by (intro nil_client_crashes [of _ i]) (simp_all add: list_all_length)
  then show ?thesis unfolding integration_def using assms(1-3) by (simp add: it_builds_def Let_def)
qed

text \<open>A test that expects its build to be skipped passes as well when the build was run.\<close>

lemma expected_skip_not_required: "it_verdict False True BuildState_SUCCESS = Ok ()"
  by (simp add: it_verdict_def)

end
