(* ===== verification/Furan_Doubles.thy ===== *)
theory Furan_Doubles
  imports Furan_Builder Furan_Fake
begin

text \<open>
  The test doubles of the interfaces of \<^verbatim>\<open>pkg/models\<close> (\<^verbatim>\<open>fake.go\<close> of \<^verbatim>\<open>pkg/builder\<close>, \<^verbatim>\<open>buildkit\<close>, \<^verbatim>\<open>github\<close>,
  \<^verbatim>\<open>tagcheck\<close> and \<^verbatim>\<open>jobrunner\<close>), and progress of \<^verbatim>\<open>Run\<close>: \<open>Furan_Builder\<close> shows that a run ends; here it
  is shown that a run whose parts all answer and that nobody interrupts ends with success.
\<close>

section \<open>The doubles\<close>

text \<open>A function that was not set is replaced by one that does nothing and returns zero values.\<close>

record 's FakeBuildManager =
  fbm_StartFunc :: "(ctx \<Rightarrow> BuildOpts \<Rightarrow> ('s, unit) act) option"
  fbm_RunFunc :: "(ctx \<Rightarrow> uuid \<Rightarrow> ('s, unit) act) option"

definition fbm_Start :: "'s FakeBuildManager \<Rightarrow> ctx \<Rightarrow> BuildOpts \<Rightarrow> ('s, unit) act" where
  "fbm_Start fb c opts = (case fbm_StartFunc fb of Some f \<Rightarrow> f c opts | None \<Rightarrow> ret_act (Ok ()))"

definition fbm_Run :: "'s FakeBuildManager \<Rightarrow> ctx \<Rightarrow> uuid \<Rightarrow> ('s, unit) act" where
  "fbm_Run fb c bid = (case fbm_RunFunc fb of Some f \<Rightarrow> f c bid | None \<Rightarrow> ret_act (Ok ()))"

record 's FakeBuilder =
  fr_BuildFunc :: "(ctx \<Rightarrow> BuildOpts \<Rightarrow> ('s, unit) act) option"

definition fr_Build :: "'s FakeBuilder \<Rightarrow> ctx \<Rightarrow> BuildOpts \<Rightarrow> ('s, unit) act" where
  "fr_Build fr c opts = (case fr_BuildFunc fr of Some f \<Rightarrow> f c opts | None \<Rightarrow> ret_act (Ok ()))"

record 's FakeFetcher =
  ff_FetchFunc :: "(ctx \<Rightarrow> string \<Rightarrow> string \<Rightarrow> string \<Rightarrow> ('s, unit) act) option"
  ff_GetCommitSHAFunc :: "(ctx \<Rightarrow> string \<Rightarrow> string \<Rightarrow> ('s, string) act) option"

definition ff_Fetch :: "'s FakeFetcher \<Rightarrow> ctx \<Rightarrow> string \<Rightarrow> string \<Rightarrow> string \<Rightarrow> ('s, unit) act" where
  "ff_Fetch ff c repo ref dest = (case ff_FetchFunc ff of Some f \<Rightarrow> f c repo ref dest | None \<Rightarrow> ret_act (Ok ()))"

definition ff_GetCommitSHA :: "'s FakeFetcher \<Rightarrow> ctx \<Rightarrow> string \<Rightarrow> string \<Rightarrow> ('s, string) act" where
  "ff_GetCommitSHA ff c repo ref = (case ff_GetCommitSHAFunc ff of Some f \<Rightarrow> f c repo ref | None \<Rightarrow> ret_act (Ok []))"

definition ff_CodeFetcher :: "'s FakeFetcher \<Rightarrow> 's CodeFetcher" where
  "ff_CodeFetcher ff = \<lparr>cf_GetCommitSHA = ff_GetCommitSHA ff, cf_Fetch = ff_Fetch ff\<rparr>"

record 's FakeChecker =
  fc_AllTagsExistFunc :: "(string list \<Rightarrow> string \<Rightarrow> ('s, bool \<times> string list) act) option"

definition fc_AllTagsExist :: "'s FakeChecker \<Rightarrow> string list \<Rightarrow> string \<Rightarrow> ('s, bool \<times> string list) act" where
  "fc_AllTagsExist fc tags repo =
     (case fc_AllTagsExistFunc fc of Some f \<Rightarrow> f tags repo | None \<Rightarrow> ret_act (Ok (False, [])))"

text \<open>
  The channels of a job: the errors that a goroutine of the test is about to send, and whether the running
  channel is closed.
\<close>

record FakeJob =
  fj_ErrorChan :: "goerr list"
  fj_RunningChan :: bool
  fj_LogContent :: "(string \<times> (string \<times> string) list) list"

definition NewFakeJob :: "(string \<times> (string \<times> string) list) list \<Rightarrow> FakeJob" where
  "NewFakeJob logs = \<lparr>fj_ErrorChan = [], fj_RunningChan = False, fj_LogContent = logs\<rparr>"

definition fj_Logs :: "FakeJob \<Rightarrow> ('s, (string \<times> (string \<times> string) list) list) act" where
  "fj_Logs fj = ret_act (Ok (fj_LogContent fj))"

record 's FakeJobRunner =
  fjr_RunFunc :: "(Build \<Rightarrow> ('s, FakeJob) act) option"

definition fjr_Run :: "'s FakeJobRunner \<Rightarrow> Build \<Rightarrow> ('s, FakeJob) act" where
  "fjr_Run fj b = (case fjr_RunFunc fj of Some f \<Rightarrow> f b | None \<Rightarrow> ret_act (Ok (NewFakeJob [])))"

text \<open>The manager of the tests of \<^verbatim>\<open>pkg/builder\<close>.\<close>

definition double_manager ::
  "'s FakeBuilder \<Rightarrow> 's FakeJobRunner \<Rightarrow> 's FakeChecker \<Rightarrow> (string \<Rightarrow> 's FakeFetcher) \<Rightarrow> string \<Rightarrow> 's DataLayer
     \<Rightarrow> ('s, FakeJob) Manager" where
  "double_manager fr fj fc ff key dl =
     \<lparr>m_BRunner = Some (fr_Build fr), m_JRunner = Some (fjr_Run fj), m_TCheck = Some (fc_AllTagsExist fc),
      m_FetcherFactory = Some (\<lambda>tkn. ff_CodeFetcher (ff tkn)), m_GitHubTokenKey = key, m_DL = Some dl\<rparr>"

section \<open>Calls that succeed\<close>

text \<open>Started where \<open>Q\<close> holds, \<open>f\<close> returns a value and no error, and then \<open>P\<close> holds.\<close>

definition ends :: "('s \<Rightarrow> bool) \<Rightarrow> ('s, 'a) act \<Rightarrow> ('a \<Rightarrow> 's \<Rightarrow> bool) \<Rightarrow> bool" where
  "ends Q f P \<longleftrightarrow> (\<forall>s. Q s \<longrightarrow> (\<exists>s' x. f s = (s', Ok x) \<and> P x s'))"

lemma endsD: "ends Q f P \<Longrightarrow> Q s \<Longrightarrow> \<exists>s' x. f s = (s', Ok x) \<and> P x s'"
  by (simp add: ends_def)

lemma ends_mono: "ends Q f P \<Longrightarrow> (\<And>x s. P x s \<Longrightarrow> P' x s) \<Longrightarrow> ends Q f P'"
  unfolding ends_def by blast

lemma ends_bind: "ends Q m P \<Longrightarrow> (\<And>x. ends (P x) (f x) P') \<Longrightarrow> ends Q (bind_act m f) P'"
  unfolding ends_def bind_act_def by fastforce

lemma ends_wrap: "ends Q m P \<Longrightarrow> ends Q (wrap_act p m) P"
  unfolding ends_def by auto

lemma ends_ret: "(\<And>s. Q s \<Longrightarrow> P x s) \<Longrightarrow> ends Q (ret_act (Ok x)) P"
  by (simp add: ends_def ret_act_def)

lemma ends_ignore: "acts_ok Q f \<Longrightarrow> ends Q (ignore f) (\<lambda>_. Q)"
  unfolding ends_def acts_ok_def keeps_def calm_def ignore_def
  by (fastforce split: prod.splits go.splits)

text \<open>
  The parts of a run of a build of \<open>repo\<close> all answer while the context is active, and the archive has one
  directory.
\<close>

definition parts_work ::
  "('s \<Rightarrow> bool) \<Rightarrow> 's OS \<Rightarrow> string \<Rightarrow> (ctx \<Rightarrow> BuildOpts \<Rightarrow> ('s, unit) act)
     \<Rightarrow> (string list \<Rightarrow> string \<Rightarrow> ('s, bool \<times> string list) act) \<Rightarrow> (string \<Rightarrow> 's CodeFetcher) \<Rightarrow> bool" where
  "parts_work Q os repo brun tc ff \<longleftrightarrow>
     (\<forall>opts. ends Q (brun Active opts) (\<lambda>_. Q)) \<and> (\<forall>tags r. ends Q (tc tags r) (\<lambda>_. Q))
     \<and> (\<forall>tkn ref. ends Q (cf_GetCommitSHA (ff tkn) Active repo ref) (\<lambda>_. Q))
     \<and> (\<forall>tkn ref d. ends Q (cf_Fetch (ff tkn) Active repo ref d) (\<lambda>_. Q))
     \<and> ends Q (os_TempDir os) (\<lambda>_. Q) \<and> (\<forall>p. ends Q (os_Open os p) (\<lambda>_. Q))
     \<and> (\<forall>p. ends Q (os_Readdir os p) (\<lambda>fi s. length fi = 1 \<and> Q s))"

text \<open>Nobody sends a signal, cancels the build or ends its context.\<close>

definition undisturbed :: "'s schedule \<Rightarrow> bool" where
  "undisturbed sched \<longleftrightarrow> (\<forall>n. \<forall>a \<in> set (sched n). (\<exists>f. a = Others f) \<or> a = ListenFails)"

lemma env_step_active:
  "(\<exists>f. a = Others f) \<or> a = ListenFails \<Longrightarrow> rs_ctx2 (env_step dl bid a r) = rs_ctx2 r"
  by auto

lemma tick_active:
  assumes "undisturbed sched"
  shows "rs_ctx2 (tick dl bid sched r) = rs_ctx2 r"
proof -
  have "rs_ctx2 (fold (env_step dl bid) as r) = rs_ctx2 r" if "set as \<subseteq> set (sched n)" for as n
    using that
  proof (induction as arbitrary: r)
    case (Cons a as)
    then have "rs_ctx2 (env_step dl bid a r) = rs_ctx2 r"
      using assms by (intro env_step_active) (auto simp: undisturbed_def)
    with Cons show ?case by simp
  qed simp
  from this [OF subset_refl] show ?thesis by (simp add: tick_def)
qed

section \<open>Progress of a run\<close>

context reliable_layer
begin

abbreviation going :: "uuid \<Rightarrow> 's rs \<Rightarrow> bool" where
  "going bid r \<equiv> alive bid (rs_s r) \<and> rs_ctx2 r = Active"

lemma call2_ends:
  assumes "after_ok (alive bid) os sched" "undisturbed sched" "ends (alive bid) (f Active) P"
  shows "ends (going bid) (call2 dl bid sched f) (\<lambda>x r. P x (rs_s r) \<and> rs_ctx2 r = Active)"
  unfolding ends_def
proof (intro allI impI)
  fix r assume r: "going bid r"
  let ?r = "tick dl bid sched r"
  have a: "alive bid (rs_s ?r)" "rs_ctx2 ?r = Active"
    using tick_keeps [OF assms(1) event_alive] tick_active [OF assms(2)] r by auto
  from endsD [OF assms(3) a(1)] obtain s' x where "f Active (rs_s ?r) = (s', Ok x)" "P x s'" by blast
  with a(2) show "\<exists>r' x. call2 dl bid sched f r = (r', Ok x) \<and> P x (rs_s r') \<and> rs_ctx2 r' = Active"
    by (auto simp: call2_def Let_def)
qed

lemma call_goes:
  assumes "after_ok (alive bid) os sched" "undisturbed sched" "ends (alive bid) (f Active) (\<lambda>_. alive bid)"
  shows "ends (going bid) (call2 dl bid sched f) (\<lambda>_. going bid)"
  using call2_ends [where f = f and P = "\<lambda>_. alive bid", OF assms] .

lemma running_ends: "ends (alive bid) (dl_SetBuildAsRunning dl Active bid) (\<lambda>_. alive bid)"
  unfolding ends_def
proof (intro allI impI)
  fix s assume s: "alive bid s"
  with running_works [of s bid] obtain s' where s': "dl_SetBuildAsRunning dl Active bid s = (s', Ok ())"
    by (auto simp: store_alive_def)
  with keepsD [OF running_alive(1) s this]
  show "\<exists>s' x. dl_SetBuildAsRunning dl Active bid s = (s', Ok x) \<and> alive bid s'" by blast
qed

lemma completed_ends:
  assumes "TerminalState st"
  shows "ends (alive bid) (dl_SetBuildAsCompleted dl Active bid st) (\<lambda>_. at bid st)"
  unfolding ends_def
proof (intro allI impI)
  fix s assume s: "alive bid s"
  obtain s' r where c: "dl_SetBuildAsCompleted dl Active bid st s = (s', r)" by fastforce
  with completed_at [OF assms s c] show "\<exists>s' x. dl_SetBuildAsCompleted dl Active bid st s = (s', Ok x) \<and> at bid st s'" by blast
qed

lemma call_running:
  assumes "after_ok (alive bid) os sched" "undisturbed sched"
  shows "ends (going bid) (call2 dl bid sched (\<lambda>c. dl_SetBuildAsRunning dl c bid)) (\<lambda>_. going bid)"
  using running_ends by (intro call_goes [OF assms])

lemma call_completes:
  assumes "after_ok (alive bid) os sched" "undisturbed sched" "TerminalState st"
  shows "ends (going bid) (call2 dl bid sched (\<lambda>c. dl_SetBuildAsCompleted dl c bid st)) (\<lambda>_ r. at bid st (rs_s r))"
  using call2_ends [where f = "\<lambda>c. dl_SetBuildAsCompleted dl c bid st" and P = "\<lambda>_. at bid st",
      OF assms(1,2) completed_ends [OF assms(3)]] by (rule ends_mono) simp

lemma event_goes:
  assumes "after_ok (alive bid) os sched" "undisturbed sched"
  shows "ends (going bid) (ignore (call2 dl bid sched (\<lambda>c. dl_AddEvent dl c bid e))) (\<lambda>_. going bid)"
  unfolding ends_def
proof (intro allI impI)
  fix r assume r: "going bid r"
  let ?f = "call2 dl bid sched (\<lambda>c. dl_AddEvent dl c bid e)"
  from endsD [OF ends_ignore [OF call_event [OF assms(1)]]] r obtain r' x
    where 1: "ignore ?f r = (r', Ok x)" "alive bid (rs_s r')" by blast
  have "rs_ctx2 (fst (?f r)) = Active"
    using tick_active [OF assms(2)] r by (simp add: call2_def Let_def split: prod.splits)
  moreover have "fst (ignore ?f r) = fst (?f r)" by (simp add: ignore_def split: prod.splits go.splits)
  ultimately show "\<exists>r' x. ignore ?f r = (r', Ok x) \<and> going bid r'" using 1 by auto
qed

lemma getContextSubdir_ends:
  assumes "parts_work Q os repo brun tc ff"
  shows "ends Q (getContextSubdir os p) (\<lambda>_. Q)"
  unfolding getContextSubdir_def
proof (intro ends_bind ends_wrap)
  show "ends Q (os_Open os p) (\<lambda>_. Q)" using assms by (simp add: parts_work_def)
  show "ends Q (os_Readdir os p) (\<lambda>fi s. length fi = 1 \<and> Q s)" using assms by (simp add: parts_work_def)
  fix fi :: "string list"
  show "ends (\<lambda>s. length fi = 1 \<and> Q s)
      (if length fi \<noteq> 1 then ret_act (Err (ErrMsg (''expected exactly one subdirectory, got '' @ itoa (int (length fi)))))
       else ret_act (Ok (fi ! 0))) (\<lambda>_. Q)"
    by (cases "length fi = 1") (auto simp: ends_def ret_act_def)
qed

lemma check_repos_goes:
  assumes "after_ok (alive bid) os sched" "undisturbed sched" "parts_work (alive bid) os r brun tc ff"
  shows "ends (going bid) (check_repos dl bid sched tc tags repos) (\<lambda>_. going bid)"
proof (induction repos)
  case (Cons repo repos)
  have "ends (going bid) (call0 dl bid sched (tc tags repo)) (\<lambda>_. going bid)"
    unfolding call0_def by (rule call_goes [OF assms(1,2)]) (use assms(3) in \<open>simp add: parts_work_def\<close>)
  moreover have "ends (going bid) (case x of (e, _) \<Rightarrow> if e then check_repos dl bid sched tc tags repos else ret_act (Ok False)) (\<lambda>_. going bid)"
    for x :: "bool \<times> string list"
    using Cons.IH by (auto simp: ends_ret split: prod.splits)
  ultimately show ?case by (auto intro!: ends_bind ends_wrap)
qed (simp add: ends_ret)

text \<open>What the check for existing images leaves behind.\<close>

definition checked :: "uuid \<Rightarrow> Build \<Rightarrow> bool \<Rightarrow> 's rs \<Rightarrow> bool" where
  "checked bid b skipped r \<longleftrightarrow>
     (if skipped then rq_SkipIfExists (b_Request b) \<and> at bid BuildStatusSkipped (rs_s r) else going bid r)"

lemma skip_check_ends:
  assumes "after_ok (alive bid) os sched" "undisturbed sched" "parts_work (alive bid) os (b_GitHubRepo b) brun tc ff" "b_ID b = bid"
    and "rq_SkipIfExists (b_Request b) \<longrightarrow> rq_Build (b_Request b) \<noteq> None"
  shows "ends (going bid) (skip_check dl bid sched tc b csha) (checked bid b)"
proof (cases "rq_SkipIfExists (b_Request b)")
  case True
  with assms(5) obtain d where d: "rq_Build (b_Request b) = Some d" by blast
  let ?fin = "\<lambda>msg. bind_act (ignore (call2 dl bid sched (\<lambda>c. dl_AddEvent dl c bid msg)))
     (\<lambda>_. bind_act (wrap_act ''error setting build as skipped: ''
        (call2 dl bid sched (\<lambda>c. dl_SetBuildAsCompleted dl c bid BuildStatusSkipped))) (\<lambda>_. ret_act (Ok True)))"
  have fin: "ends (going bid) (?fin msg) (checked bid b)" for msg
    by (rule ends_bind ends_wrap event_goes [OF assms(1,2)] call_completes [OF assms(1,2)] ends_ret
        | simp add: checked_def True)+
  then show ?thesis unfolding skip_check_def assms(4) d option.case Let_def
    using True by (auto intro!: ends_bind [OF check_repos_goes [OF assms(1-3)]] ends_ret simp: checked_def)
qed (auto simp: skip_check_def checked_def intro: ends_ret)

lemma build_in_ends:
  assumes "after_ok (alive bid) os sched" "undisturbed sched" "parts_work (alive bid) os (b_GitHubRepo b) brun tc ff" "b_ID b = bid"
  shows "ends (going bid) (build_in os dl bid sched brun (ff tkn) b opts tdir) (\<lambda>_ r. at bid BuildStatusSuccess (rs_s r))"
proof -
  note go = call_goes [OF assms(1,2)]
  have "ends (going bid) (call2 dl bid sched (\<lambda>c. cf_Fetch (ff tkn) c (b_GitHubRepo b) ref tdir)) (\<lambda>_. going bid)"
    "ends (going bid) (call0 dl bid sched (getContextSubdir os tdir)) (\<lambda>_. going bid)"
    "ends (going bid) (call2 dl bid sched (\<lambda>c. brun c o')) (\<lambda>_. going bid)"
    "ends (going bid) (call2 dl bid sched (\<lambda>c. dl_SetBuildAsCompleted dl c bid BuildStatusSuccess)) (\<lambda>_ r. at bid BuildStatusSuccess (rs_s r))"
    for ref o'
    using assms(3) getContextSubdir_ends [OF assms(3)] call_completes [OF assms(1,2)]
    unfolding call0_def by (auto simp: parts_work_def intro!: go)
  then show ?thesis unfolding build_in_def assms(4) Let_def by (intro ends_bind ends_wrap)
qed

lemma with_tempdir_ends:
  assumes "after_ok (alive bid) os sched" "after_ok (at bid st) os sched" "undisturbed sched" "parts_work (alive bid) os r brun tc ff"
    and "\<And>tdir. ends (going bid) (f tdir) (\<lambda>_ r. at bid st (rs_s r))"
  shows "ends (going bid) (with_tempdir os dl bid sched f) (\<lambda>_ r. at bid st (rs_s r))"
  unfolding with_tempdir_def
proof (rule ends_bind, rule ends_wrap)
  show "ends (going bid) (call0 dl bid sched (os_TempDir os)) (\<lambda>_. going bid)"
    unfolding call0_def by (rule call_goes [OF assms(1,3)]) (use assms(4) in \<open>simp add: parts_work_def\<close>)
  fix tdir
  have rm: "keeps (\<lambda>r. at bid st (rs_s r)) (call0 dl bid sched (os_RemoveAll os tdir))"
    using assms(2) unfolding call0_def by (intro call2_keeps [OF assms(2) event_at]) (simp add: after_ok_def acts_ok_def)
  show "ends (going bid) (\<lambda>r. case f tdir r of (r1, x) \<Rightarrow> (fst (call0 dl bid sched (os_RemoveAll os tdir) r1), x)) (\<lambda>_ r. at bid st (rs_s r))"
    using assms(5) [of tdir] rm unfolding ends_def keeps_def by fastforce
qed

lemma run_body_ends:
  assumes "run_world view inv healthy bid sched os brun tc (only_for (b_GitHubRepo b) ff)" "undisturbed sched" "parts_work (alive bid) os (b_GitHubRepo b) brun tc ff" "b_ID b = bid"
    and "rq_SkipIfExists (b_Request b) \<longrightarrow> rq_Build (b_Request b) \<noteq> None" "GetGitHubCredential open_box b key = Ok tkn"
  shows "ends (going bid) (run_body open_box os dl bid sched brun tc ff key b)
    (\<lambda>_ r. at bid BuildStatusSuccess (rs_s r) \<or> rq_SkipIfExists (b_Request b) \<and> at bid BuildStatusSkipped (rs_s r))"
proof -
  let ?P = "\<lambda>_ r. at bid BuildStatusSuccess (rs_s r) \<or> rq_SkipIfExists (b_Request b) \<and> at bid BuildStatusSkipped (rs_s r)"
  have a: "after_ok (alive bid) os sched" "after_ok (at bid BuildStatusSuccess) os sched"
    using assms(1) by (auto simp: run_world_def)
  have sha: "ends (going bid) (call2 dl bid sched (\<lambda>c. cf_GetCommitSHA (ff tkn) c (b_GitHubRepo b) (b_GitHubRef b))) (\<lambda>_. going bid)"
    by (rule call_goes [OF a(1) assms(2)]) (use assms(3) in \<open>simp add: parts_work_def\<close>)
  have body: "ends (checked bid b skipped) (if skipped then ret_act (Ok ()) else with_tempdir os dl bid sched
      (build_in os dl bid sched brun (ff tkn) b opts)) ?P" for skipped opts
    using ends_mono [OF with_tempdir_ends [OF a assms(2,3) build_in_ends [OF a(1) assms(2-4)]]]
    by (cases skipped) (auto simp: checked_def [abs_def] intro: ends_ret)
  have rest: "ends (\<lambda>r. going bid r \<and> t = tkn) (bind_act (wrap_act ''error getting commit sha: ''
      (call2 dl bid sched (\<lambda>c. cf_GetCommitSHA (ff t) c (b_GitHubRepo b) (b_GitHubRef b)))) (\<lambda>csha.
      bind_act (skip_check dl bid sched tc b csha) (\<lambda>skipped. if skipped then ret_act (Ok ()) else with_tempdir os dl bid sched
        (build_in os dl bid sched brun (ff t) b ((b_BuildOptions b)\<lparr>bo_BuildID := b_ID b, bo_CommitSHA := csha\<rparr>))))) ?P" for t
  proof (cases "t = tkn")
    case True
    then show ?thesis by (simp only: simp_thms)
        (rule ends_bind ends_wrap sha skip_check_ends [OF a(1) assms(2-5)] body)+
  qed (simp add: ends_def)
  show ?thesis unfolding run_body_def assms(6)
    by (rule ends_bind [OF ends_wrap [OF ends_ret [where P = "\<lambda>t r. going bid r \<and> t = tkn"]] rest]) auto
qed

text \<open>A run that nothing disturbs and whose parts all answer succeeds.\<close>

theorem Run_succeeds:
  assumes m: "m_BRunner m = Some brun" "m_TCheck m = Some tc" "m_FetcherFactory m = Some ff" "m_DL m = Some dl"
    and w: "run_world view inv healthy bid sched os brun tc (only_for (b_GitHubRepo b) ff)" "undisturbed sched" "parts_work (alive bid) os (b_GitHubRepo b) brun tc ff"
    and s: "inv s" "healthy s" "view s bid = Some b" "b_Status b = BuildStatusNotStarted"
    and b: "rq_SkipIfExists (b_Request b) \<longrightarrow> rq_Build (b_Request b) \<noteq> None"
      "GetGitHubCredential open_box b (m_GitHubTokenKey m) = Ok tkn"
  shows "\<exists>s'. Run open_box os m sched Active bid s = (s', Ok ())
    \<and> (status_of (view s') bid = Some BuildStatusSuccess
       \<or> rq_SkipIfExists (b_Request b) \<and> status_of (view s') bid = Some BuildStatusSkipped)"
proof -
  from get_found [OF s(1-3)] obtain s1 b1 where g: "dl_GetBuildByID dl Active bid s = (s1, Ok b1)" "healthy s1" by blast
  from get_step [OF s(1) g(1)] s(3) have s1: "inv s1" "view s1 = view s" and e: "erase b1 = b" and i: "b_ID b1 = bid" by auto
  have al: "alive bid s1" using s1 g(2) s(3) by (simp add: store_alive_def)
  have b1: "b_Status b1 = BuildStatusNotStarted" "rq_SkipIfExists (b_Request b1) \<longrightarrow> rq_Build (b_Request b1) \<noteq> None"
    "b_GitHubRepo b1 = b_GitHubRepo b" "GetGitHubCredential open_box b1 (m_GitHubTokenKey m) = Ok tkn" "rq_SkipIfExists (b_Request b1) = rq_SkipIfExists (b_Request b)"
    using e s(4) b by (auto simp: GetGitHubCredential_def)
  let ?r0 = "\<lparr>rs_s = s1, rs_ctx2 = Active, rs_cancelled = False, rs_listener = LNotStarted, rs_sigwait = True, rs_point = 0\<rparr>"
  have a: "after_ok (alive bid) os sched" using w(1) by (simp add: run_world_def)
  have "going bid ?r0" using al by simp
  from endsD [OF call_running [OF a w(2)] this] obtain r1
    where 1: "call2 dl bid sched (\<lambda>c. dl_SetBuildAsRunning dl c bid) ?r0 = (r1, Ok ())" "going bid r1" by auto
  then have "going bid (r1\<lparr>rs_listener := LWaiting\<rparr>)" by simp
  from endsD [OF run_body_ends [OF w [folded b1(3)] i b1(2,4)] this] obtain r2 st
    where 2: "run_body open_box os dl bid sched brun tc ff (m_GitHubTokenKey m) b1 (r1\<lparr>rs_listener := LWaiting\<rparr>) = (r2, Ok ())"
      and at: "at bid st (rs_s r2)" "TerminalState st" "st = BuildStatusSuccess \<or> rq_SkipIfExists (b_Request b1) \<and> st = BuildStatusSkipped"
    by fastforce
  have h: "run_handoff open_box os dl bid sched brun tc ff (m_GitHubTokenKey m) b1 ?r0 = (r2\<lparr>rs_ctx2 := Done\<rparr>, Ok ())"
    by (simp add: run_handoff_def i 1(1) 2 mark_completed_def)
  let ?s' = "rs_s (kill_deferred os dl bid sched (r2\<lparr>rs_ctx2 := Done\<rparr>))"
  have "Run open_box os m sched Active bid s = (?s', Ok ())" using g(1) h b1(1) by (simp add: Run_def m Let_def)
  moreover have "at bid st ?s'"
    using kill_deferred_keeps [of "at bid st" os sched bid "r2\<lparr>rs_ctx2 := Done\<rparr>"] event_at w(1) at(1,2) by (simp add: run_world_def)
  ultimately show ?thesis using at(3) b1(5) by (auto simp: store_at_def)
qed

end

section \<open>Doubles whose functions are not set\<close>

lemma unset_doubles:
  "fr_Build \<lparr>fr_BuildFunc = None\<rparr> c opts = ret_act (Ok ())"
  "fc_AllTagsExist \<lparr>fc_AllTagsExistFunc = None\<rparr> tags repo = ret_act (Ok (False, []))"
  "cf_Fetch (ff_CodeFetcher \<lparr>ff_FetchFunc = None, ff_GetCommitSHAFunc = g\<rparr>) c repo ref d = ret_act (Ok ())"
  "cf_GetCommitSHA (ff_CodeFetcher \<lparr>ff_FetchFunc = f, ff_GetCommitSHAFunc = None\<rparr>) c repo ref = ret_act (Ok [])"
  by (simp_all add: fr_Build_def fc_AllTagsExist_def ff_CodeFetcher_def ff_Fetch_def ff_GetCommitSHA_def)

lemma unset_manager:
  "fbm_Start \<lparr>fbm_StartFunc = None, fbm_RunFunc = g\<rparr> c opts = ret_act (Ok ())"
  "fbm_Run \<lparr>fbm_StartFunc = f, fbm_RunFunc = None\<rparr> c bid = ret_act (Ok ())"
  by (simp_all add: fbm_Start_def fbm_Run_def)

text \<open>
  The channels of the job that the double of the job runner returns are open and empty: \<^verbatim>\<open>Start\<close> returns
  only when the test sends on one of them or ends the context.
\<close>

lemma Start_with_double:
  assumes "dl_GetBuildByID dl c (bo_BuildID opts) s = (s1, Ok b)"
  shows "Start (double_manager fr \<lparr>fjr_RunFunc = None\<rparr> fc ff key dl) c opts evs s = start_loop dl c (b_ID b) evs s1"
  using assms by (simp add: Start_def double_manager_def fjr_Run_def ret_act_def)

end
