(* ===== verification/Furan_Main.thy ===== *)
theory Furan_Main
  imports Furan_Server
begin

text \<open>
  The process of a job: \<^verbatim>\<open>main.go\<close>, \<^verbatim>\<open>Execute\<close> of \<^verbatim>\<open>cmd/root.go\<close> and the command \<^verbatim>\<open>runbuild\<close> with its \<^verbatim>\<open>PreRun\<close>,
  and what the exit status of the process, by which Kubernetes judges the job, says of the stored build.
\<close>

section \<open>The process\<close>

text \<open>
  The library runs \<^verbatim>\<open>PreRun\<close> and then \<^verbatim>\<open>RunE\<close> of the command.  The three configurations that the secrets
  fill are variables of the package.
\<close>

definition runbuildCmd ::
  "jwt_file \<Rightarrow> (pvc_option list \<Rightarrow> SecretsClient go)
     \<Rightarrow> ('s bk_env \<Rightarrow> 's DataLayer \<Rightarrow> ctx \<Rightarrow> BuildOpts \<Rightarrow> ('s, unit) act) \<Rightarrow> ('s, 'd, 'p, 'c) runbuild_env
     \<Rightarrow> runbuild_vars \<Rightarrow> root_vars \<Rightarrow> 's schedule \<Rightarrow> 's \<Rightarrow> ('s \<times> unit go cli) option" where
  "runbuildCmd jf newclient build env v rv sched s =
     (case all_secrets jf newclient rv of
        CliErr e \<Rightarrow> Some (s, CliErr e)
      | CliPanic p \<Rightarrow> Some (s, CliPanic p)
      | CliOk rv1 \<Rightarrow> runbuild build env v rv1 sched s)"

text \<open>
  The argument of the call of \<^verbatim>\<open>exit\<close> with which the process ends: an error that the command returns ends it
  in \<^verbatim>\<open>Execute\<close>, \<^verbatim>\<open>clierr\<close> ends it with 1, a panic with 2, and a return from \<^verbatim>\<open>main\<close> with 0.
\<close>

fun Execute :: "unit go cli \<Rightarrow> int" where
  "Execute (CliOk (Ok _)) = 0"
| "Execute (CliOk (Err _)) = -1"
| "Execute (CliOk (Panic _)) = 2"
| "Execute (CliErr _) = 1"
| "Execute (CliPanic _) = 2"

text \<open>The parent sees the low eight bits.\<close>

definition exit_status :: "unit go cli \<Rightarrow> nat" where
  "exit_status r = nat (Execute r mod 256)"

lemma exit_status_0: "exit_status r = 0 \<longleftrightarrow> r = CliOk (Ok ())"
  by (cases r rule: Execute.cases) (simp_all add: exit_status_def)

section \<open>What the exit status says\<close>

text \<open>
  The world of a job for a build of \<open>repo\<close>: the parts that its manager is made of leave the build to \<^verbatim>\<open>Run\<close>, and dialling BuildKit
  and sleeping do not touch the database.
\<close>

definition job_world ::
  "('s \<Rightarrow> store) \<Rightarrow> ('s \<Rightarrow> bool) \<Rightarrow> ('s \<Rightarrow> bool)
     \<Rightarrow> ('s bk_env \<Rightarrow> 's DataLayer \<Rightarrow> ctx \<Rightarrow> BuildOpts \<Rightarrow> ('s, unit) act) \<Rightarrow> ('s, 'd, 'p, 'c) runbuild_env
     \<Rightarrow> runbuild_vars \<Rightarrow> uuid \<Rightarrow> string \<Rightarrow> 's schedule \<Rightarrow> bool" where
  "job_world view Inv healthy build env v bid repo sched \<longleftrightarrow>
     (\<forall>rv pg brun tc ff. m_BRunner (job_manager build env v rv (pgDL pg)) = Some brun
        \<longrightarrow> m_TCheck (job_manager build env v rv (pgDL pg)) = Some tc
        \<longrightarrow> m_FetcherFactory (job_manager build env v rv (pgDL pg)) = Some ff
        \<longrightarrow> run_world view Inv healthy bid sched (re_os env) brun tc (only_for repo ff))
     \<and> (\<forall>V addr. keeps (\<lambda>s. Inv s \<and> healthy s \<and> view s = V) (bk_Dial (re_bk env) addr))
     \<and> (\<forall>V d s. Inv s \<and> healthy s \<and> view s = V \<longrightarrow>
          Inv (bk_Sleep (re_bk env) d s) \<and> healthy (bk_Sleep (re_bk env) d s) \<and> view (bk_Sleep (re_bk env) d s) = V)"

lemma poll_keeps:
  assumes "poll now dial sleep timeout deadline s = Some y"
  shows "keeps Q dial \<longrightarrow> (\<forall>s. Q s \<longrightarrow> Q (sleep s)) \<longrightarrow> Q s \<longrightarrow> Q (fst y)"
proof (rule poll.raw_induct [OF _ assms], goal_cases)
  case (1 poll now dial sleep timeout deadline s y)
  show ?case
  proof (intro impI)
    assume q: "keeps Q dial" "\<forall>s. Q s \<longrightarrow> Q (sleep s)" "Q s"
    obtain s1 r where d: "dial s = (s1, r)" by fastforce
    with q have "Q s1" by (metis keepsD)
    with 1 q d show "Q (fst y)" by (cases r) (auto simp: keeps_def split: if_splits)
  qed
qed

text \<open>The wait for the socket leaves the database alone.\<close>

lemma VerifyAddr_keeps:
  assumes "job_world view Inv healthy build env v bid repo sched" "VerifyAddr (job_solver env v aws dl) s = Some (s1, r)"
    and "Inv s" "healthy s"
  shows "Inv s1 \<and> healthy s1 \<and> view s1 = view s"
  using poll_keeps [OF assms(2) [unfolded VerifyAddr_def], of "\<lambda>t. Inv t \<and> healthy t \<and> view t = view s"] assms(1,3,4)
  by (auto simp: job_world_def job_solver_def Let_def)

text \<open>
  A process that runs a build either does not get to the run, and then the database is as before, or its
  outcome is that of \<^verbatim>\<open>Run\<close>.
\<close>

lemma NewPostgresDBLayer_is_layer:
  "NewPostgresDBLayer parse connect layer uri = Ok pg \<Longrightarrow> \<exists>p lp. pg = layer p lp"
  by (auto simp: NewPostgresDBLayer_def Let_def bind_go_eq_Ok)

lemma runbuild_cases:
  assumes "runbuild build env v rv sched s = Some (s', res)" "FromString (bv_buildid v) = Ok bid" "0 < bv_runbuildtimeout v"
  obtains "s' = s" "res \<noteq> CliOk (Ok ())"
    | p lp r1 where "VerifyAddr (job_solver env v (rv_awsConfig rv) (pgDL (re_layer env p lp))) s = Some (s', r1)"
        "res \<noteq> CliOk (Ok ())"
    | p lp s1 r where "VerifyAddr (job_solver env v (rv_awsConfig rv) (pgDL (re_layer env p lp))) s = Some (s1, Ok ())"
        "Run (re_open env) (re_os env) (job_manager build env v rv (pgDL (re_layer env p lp))) sched Active bid s1 = (s', r)"
        "res = CliOk r"
proof -
  define pre where "pre = bind_go (wrap_err ''error configuring database: ''
      (NewPostgresDBLayer (re_ParseConfig env) (re_ConnectConfig env) (re_layer env) (db_PostgresURI (rv_dbConfig rv)))) (\<lambda>pg.
    bind_go (wrap_err ''error initializing build solver: '' (NewBuildSolver (bv_bkaddr v) (re_bkclient env))) (\<lambda>_.
    bind_go (wrap_err ''invalid build id: '' (FromString (bv_buildid v))) (\<lambda>bid. Ok (pg, bid))))"
  note r = assms(1) [unfolded runbuild_def pre_def [symmetric]]
  show ?thesis
  proof (cases "or_clierr ''error starting profiler: '' (if bv_Profiling v then re_Profiler env else Ok ())")
    case (CliOk u)
    show ?thesis
    proof (cases pre)
      case (Ok x)
      then obtain pg where x: "x = (pg, bid)" and "NewPostgresDBLayer (re_ParseConfig env) (re_ConnectConfig env) (re_layer env)
          (db_PostgresURI (rv_dbConfig rv)) = Ok pg"
        using assms(2) by (auto simp: pre_def bind_go_eq_Ok)
      then obtain p lp where pg: "pg = re_layer env p lp" using NewPostgresDBLayer_is_layer by blast
      let ?s = "job_solver env v (rv_awsConfig rv) (pgDL (re_layer env p lp))"
      from r CliOk Ok x pg obtain s1 r1 where 1: "VerifyAddr ?s s = Some (s1, r1)" by (auto split: option.splits)
      show ?thesis
      proof (cases r1)
        case (Ok u)
        obtain s2 r2 where "Run (re_open env) (re_os env) (job_manager build env v rv (pgDL (re_layer env p lp))) sched Active bid s1 = (s2, r2)"
          by fastforce
        with r CliOk \<open>pre = Ok x\<close> x pg 1 Ok assms(3) that(3) show ?thesis by simp
      qed (use r CliOk Ok x pg 1 that(2) in auto)
    qed (use r CliOk that(1) in auto)
  qed (use r that(1) in auto)
qed

lemma runbuildCmd_cases:
  assumes "runbuildCmd jf nc build env v rv sched s = Some (s', res)" "FromString (bv_buildid v) = Ok bid"
    and "job_world view Inv healthy build env v bid repo sched" "Inv s" "healthy s" "0 < bv_runbuildtimeout v"
  obtains (stopped) "view s' = view s" "res \<noteq> CliOk (Ok ())"
    | (ran) rv1 p lp s1 r where "Run (re_open env) (re_os env) (job_manager build env v rv1 (pgDL (re_layer env p lp))) sched Active bid s1 = (s', r)"
        "res = CliOk r" "Inv s1" "healthy s1" "view s1 = view s"
proof (cases "all_secrets jf nc rv")
  case (CliOk rv1)
  with assms(1) have "runbuild build env v rv1 sched s = Some (s', res)" by (simp add: runbuildCmd_def)
  from this assms(2,6) show ?thesis
  proof (cases rule: runbuild_cases)
    case 1
    then show ?thesis using stopped by simp
  next
    case 2
    with VerifyAddr_keeps [OF assms(3) 2(1) assms(4,5)] show ?thesis using stopped by simp
  next
    case 3
    with VerifyAddr_keeps [OF assms(3) 3(1) assms(4,5)] show ?thesis using ran by blast
  qed
qed (use assms(1) stopped in \<open>auto simp: runbuildCmd_def\<close>)

text \<open>How a run on one of the layers of a job ends.\<close>

lemma job_Run_ends:
  assumes dl: "reliable_layer (pgDL pg) view keys Inv healthy" and w: "job_world view Inv healthy build env v bid (b_GitHubRepo b) sched"
    and s: "Inv s" "healthy s" "view s bid = Some b" "b_Status b = BuildStatusNotStarted"
    and b: "24 \<le> length (b_EncryptedGitHubCredential b)" "rq_SkipIfExists (b_Request b) \<longrightarrow> rq_Build (b_Request b) \<noteq> None"
    and r: "Run (re_open env) (re_os env) (job_manager build env v rv (pgDL pg)) sched Active bid s = (s', r)"
  shows "(\<exists>e. r = Err (Wrapf ''error setting build status to running: '' e))
    \<or> (r = Ok () \<and> status_of (view s') bid \<in> {Some BuildStatusSuccess, Some BuildStatusSkipped})
    \<or> ((\<exists>e. r = Err e) \<and> status_of (view s') bid \<in> {Some BuildStatusFailure, Some BuildStatusCancelled})"
proof -
  let ?m = "job_manager build env v rv (pgDL pg)"
  obtain brun tc ff where m: "m_BRunner ?m = Some brun" "m_TCheck ?m = Some tc" "m_FetcherFactory ?m = Some ff"
      "m_DL ?m = Some (pgDL pg)"
    using job_manager_parts by blast
  from w m have w: "run_world view Inv healthy bid sched (re_os env) brun tc (only_for (b_GitHubRepo b) ff)"
    unfolding job_world_def by blast
  from reliable_layer.Run_ends_repo [OF dl m w s b r] show ?thesis by blast
qed

end
