(* ===== verification/Spec2Isabelle.thy ===== *)
theory Spec2Isabelle
  imports Furan_Alike Furan_Integration Furan_Doubles Furan_Main
begin

text \<open>
  Furan builds container images.  A client sends a build request to the server (gRPC); the server
  checks it, seals the GitHub credential, stores the build and starts a Kubernetes job; the job runs
  \<^verbatim>\<open>furan runbuild\<close>, which fetches the code, has BuildKit build and push the image and records the
  result.  The parts meet in one place, the data layer: the server and the job are different
  processes that see each other's work only through the table of builds and its notifications.

  \<^bold>\<open>Parts.\<close>  Paths are relative to \<^verbatim>\<open>src/\<close>.

  \<^item> \<open>Furan_Prelude\<close>: Go's outcomes (\<open>'a go\<close>: a value, an error, a panic), state-passing actions
    (\<open>('s, 'a) act\<close>), and what the code uses of \<^verbatim>\<open>strings\<close>, \<^verbatim>\<open>strconv\<close>, \<^verbatim>\<open>path/filepath\<close> and \<^verbatim>\<open>context\<close>.
  \<^item> \<open>Furan_Uuid\<close>: \<^verbatim>\<open>String\<close> and \<^verbatim>\<open>FromString\<close> of \<^verbatim>\<open>gofrs/uuid\<close> with its six input formats.
  \<^item> \<open>Furan_Models\<close>: \<^verbatim>\<open>pkg/models\<close> and the messages of \<^verbatim>\<open>pkg/generated/furanrpc/api.pb.go\<close>; statuses,
    wire states, time stamps, the sealed credential.
  \<^item> \<open>Furan_Datalayer\<close>: the interface \<^verbatim>\<open>DataLayer\<close> as a record of functions, its contract as the
    locales \<open>data_layer\<close> and \<open>reliable_layer\<close> over an abstract store (identifier to build).
  \<^item> \<open>Furan_Fake\<close>: \<^verbatim>\<open>pkg/datalayer/fake.go\<close>, an interpretation of \<open>reliable_layer\<close>.
  \<^item> \<open>Furan_Postgres\<close>: \<^verbatim>\<open>PostgresDBLayer\<close> of \<^verbatim>\<open>pkg/datalayer/datalayer.go\<close>, statement by statement.
    \<open>Furan_PgService\<close>: the laws of the database server as the locales \<open>pg_service\<close> and \<open>pg_up\<close>; by
    \<open>sublocale\<close> every such server gives a \<open>data_layer\<close> and a \<open>reliable_layer\<close>; a reference server in
    memory (\<open>refPG\<close>) is an interpretation of \<open>pg_up\<close>.
  \<^item> \<open>Furan_Contract\<close>: the full contract of a data layer, the locale \<open>full_layer\<close>, which extends \<open>data_layer\<close>
    by time stamps, API keys, listings and listeners that wait.  \<open>Furan_Testsuite\<close>: \<^verbatim>\<open>pkg/datalayer/testsuite\<close>,
    with a proof inside \<open>full_layer\<close> that every test passes.  \<open>Furan_FakeSuite\<close>: the fake interprets the full
    contract.  \<open>Furan_PgSuite\<close>: the laws of a working database server with its connections and
    notifications (\<open>pg_full\<close>), a \<open>sublocale\<close> of \<open>full_layer\<close>; the reference server interprets it.
    \<open>Furan_Alike\<close>: an abstract machine for programs on a data layer, which both layers refine.
  \<^item> \<open>Furan_Builder\<close>: \<^verbatim>\<open>Start\<close> and \<^verbatim>\<open>Run\<close> of \<^verbatim>\<open>pkg/builder/builder.go\<close>.
  \<^item> \<open>Furan_Doubles\<close>: the test doubles of these parts (\<^verbatim>\<open>fake.go\<close> of \<^verbatim>\<open>pkg/builder\<close>, \<^verbatim>\<open>buildkit\<close>,
    \<^verbatim>\<open>github\<close>, \<^verbatim>\<open>tagcheck\<close>, \<^verbatim>\<open>jobrunner\<close>) and the progress of \<^verbatim>\<open>Run\<close> over parts that answer.
  \<^item> \<open>Furan_Grpc\<close>: the handlers and the authentication of \<^verbatim>\<open>pkg/grpc/grpc.go\<close>, the stream adapter
    (\<^verbatim>\<open>streamadapter.go\<close>) and the REST handlers (\<^verbatim>\<open>pkg/jsonapi/jsonapi.go\<close>).
  \<^item> \<open>Furan_Jobrunner\<close>: \<^verbatim>\<open>pkg/jobrunner\<close>: the job of a build, its watcher, logs and cleanup.
  \<^item> \<open>Furan_Github\<close>: \<^verbatim>\<open>pkg/github/github.go\<close>, the code fetcher with the extraction of the archive.
  \<^item> \<open>Furan_Registry\<close>: \<^verbatim>\<open>pkg/tagcheck\<close> (Quay, GCR, ECR) and \<^verbatim>\<open>pkg/auth/auth.go\<close>.
  \<^item> \<open>Furan_Buildkit\<close>: \<^verbatim>\<open>pkg/buildkit/buildkit.go\<close> and the cache of \<^verbatim>\<open>pkg/s3/s3.go\<close>.
  \<^item> \<open>Furan_Secrets\<close>: \<^verbatim>\<open>pkg/config\<close>, \<^verbatim>\<open>pkg/secrets\<close> and the secrets of \<^verbatim>\<open>cmd/root.go\<close>.
  \<^item> \<open>Furan_Client\<close>: \<^verbatim>\<open>pkg/client/client.go\<close> and the commands \<^verbatim>\<open>trigger\<close>, \<^verbatim>\<open>list\<close>, \<^verbatim>\<open>events\<close>, \<^verbatim>\<open>cancel\<close>.
  \<^item> \<open>Furan_Server\<close>: the commands \<^verbatim>\<open>server\<close>, \<^verbatim>\<open>runbuild\<close> and \<^verbatim>\<open>migrate\<close> with the constructors they call.
  \<^item> \<open>Furan_Main\<close>: \<^verbatim>\<open>Execute\<close> of \<^verbatim>\<open>cmd/root.go\<close>, which \<^verbatim>\<open>main.go\<close> calls, and the process of \<^verbatim>\<open>furan runbuild\<close>
    with its exit status.
  \<^item> \<open>Furan_Integration\<close>: the command \<^verbatim>\<open>integration\<close>, which runs builds in parallel and judges them.
  \<^item> This theory: the properties that span components, and the inputs of their witnesses.

  \<^bold>\<open>Conventions.\<close>  A Go string is the list of its bytes, a struct a record, a pointer an option, an
  interface value a record of functions.  An operation takes the state and returns the new state
  with its outcome; the state is a type variable wherever the code goes through an interface, so
  that one theorem holds for both data layers.  Every error return and every panic of the source is
  a branch.  Definitions have the names of the source; a suffix or a prefix (\<open>fake_\<close>, \<open>grpc_\<close>)
  separates methods of the same name.  Durations, seconds and file modes keep their width where
  the code computes with them; counters of loops are numbers.

  \<^bold>\<open>Libraries.\<close>  What is not in the repository is an argument, and a theorem that relies on it says so
  in a hypothesis: \<^verbatim>\<open>secretbox\<close> (\<open>seal\<close>, \<open>open_box\<close>: opening inverts sealing), the database server
  (\<open>pg_service\<close>: statements of a transaction take effect at its commit or not at all, a query returns
  the rows that satisfy its condition; \<open>pg_up\<close>: it answers; \<open>pg_full\<close>: what a connection listens to is
  delivered in order, and the clocks of server and client agree), the Kubernetes client and its quantities
  (\<open>k8s\<close>, \<open>quantity_lib\<close>), GitHub, HTTP, AWS, BuildKit, the file system, the secrets library
  (\<open>holds_key\<close>: the store has a key), the RPC library (\<open>delivers\<close>, \<open>dials\<close>: an answer that the stub
  returns is that of the handler behind the interceptor, and a crash of the server an error).
  \<open>run_world\<close> says that the parts \<^verbatim>\<open>Run\<close> calls return without a panic and leave the stored
  build to \<^verbatim>\<open>Run\<close>, \<open>job_world\<close> the same of the parts of a job's process, \<open>parts_work\<close> that they also
  succeed; of a code fetcher they speak for the repository of the build only (\<open>only_for\<close>).  \<open>fetch_quiet\<close> says that a code fetcher does not write to the data layer.  The witnesses
  instantiate each of them with concrete functions.

  \<^bold>\<open>Concurrency and time.\<close>  \<^verbatim>\<open>Run\<close> has two helper goroutines; everything that they and other processes do
  between two calls of the main goroutine is a schedule, a list of actions for each such point, and
  the theorems hold for every schedule.  The listeners of the data layer take what others do before
  the registration and while the call waits as functions on the state; the tests of the listeners say which of the two it is.  The watcher of jobs is a
  transition system of its two goroutines and the reader, with reachability and invariants by rule
  induction; the goroutines of the integration command take the steps of a schedule.  A deadline is an event of the schedule; a context is \<open>Active\<close>
  or \<open>Done\<close>.

  \<^bold>\<open>Termination.\<close>  Loops over data are structural recursions or have a measure.  The wait for BuildKit's socket (\<open>poll\<close>, which the
  integration command uses as well) and
  the forwarding of events (\<open>event_loop\<close>) may run for ever and are values of type option, with \<open>None\<close>
  for a call that does not return; the wait for the socket returns if the clock does not run backwards and a sleep takes as long
  as asked.
  The handoff of a build to its job waits until an event or its timeout; a wait that nothing ends is
  a value of the model, not a missing case.  No definition uses fuel.

  \<^bold>\<open>What is shown.\<close>
  \<^item> A build's way through the system: whatever happens around it, a run ends with a terminal status
    in the store that agrees with its return value, and a run that nothing disturbs succeeds; the client then reads that status under the
    identifier it was given; a build runs at most once; a job that cannot start is recorded as failed;
    the job has the key to decrypt the credential that the server has sealed; the exit status of the
    job's process, by which Kubernetes judges it, agrees with the stored status.
  \<^item> The data layers: both implement the contract; PostgreSQL's listing returns exactly the builds
    that its options select, and the two layers agree; both layers pass the test suite they share, and
    both answer a program's calls as one abstract machine; no event is added after the end; event texts cannot leave
    their SQL literal; placeholders and arguments of the listing query match.
  \<^item> The interface of the server: only stored keys pass, a read-only key only for the methods that
    read; an accepted request is stored as it was asked for, within the limits of resources; accepted
    resources never make the job runner panic; the effects of \<^verbatim>\<open>furan cancel\<close> and \<^verbatim>\<open>furan list\<close> from
    the flags to the store; the stream of a completed build; the integration command returns, and
    passes only if the server's last answer on every build is one its test accepts.
  \<^item> Jobs, registries, files: names of jobs, the command a job runs, exactly which jobs are cleaned up,
    what the watcher signals; exactly which tags are reported missing; credentials by host;
    where the extraction of an archive writes.
  \<^item> Round trips and bounds: identifiers, time stamps, statuses, credentials; the length of the key;
    the outcome of retries.
  \<^item> Races and limits, as theorems about the code as it is: a cancellation can overwrite a status
    written meanwhile, a wake-up can be lost between the look at the status and the registration, a
    completion listener can take the notification of another build, a cancelled build can be recorded as failed,
    a credential of fewer than 24 bytes leaves its build running, the watcher can report that
    a build is running although listening for it failed.

  \<^bold>\<open>Bounds.\<close>  Identifiers are 128 bits, so no store can create builds for ever: \<open>full_layer\<close> names the
  identifiers that are drawn next (\<open>ready us\<close>), and the test suite needs eighteen.  Times are bounded by
  the range of PostgreSQL (\<open>storable\<close>), event texts by the size of a notification (\<open>event_text\<close>).

  \<^bold>\<open>Not modelled.\<close>  The command line library, which picks the command and parses its flags; the marshalling of the generated code; logging, tracing and metrics;
  the help texts of flags; the SQL of the migrations other than the schema the laws of
  \<open>pg_service\<close> state; the alignment of printed tables; the methods that only answer that they are not implemented.
\<close>

section \<open>Concrete inputs for the witnesses\<close>

definition ex_id :: uuid where
  "ex_id = 0x6ba7b8109dad11d180b400c04fd430c8"

definition ex_request :: BuildRequest where
  "ex_request =
     \<lparr>rq_Build = Some \<lparr>bd_GithubRepo = ''acme/app'', bd_GithubCredential = ''s3cr3t'',
                      bd_DockerfilePath = ''Dockerfile'', bd_Ref = ''master'', bd_Tags = [''v1''],
                      bd_TagWithCommitSha = False, bd_Args = [], bd_CacheOptions = None,
                      bd_Resources = None\<rparr>,
      rq_Push = None, rq_SkipIfExists = False\<rparr>"

definition ex_build :: Build where
  "ex_build = zero_Build\<lparr>b_ID := ex_id, b_GitHubRepo := ''acme/app'', b_GitHubRef := ''master'',
      b_Created := Time 100 0,
      b_EncryptedGitHubCredential := replicate 24 CHR ''n'' @ ''sealed'', b_Tags := [''v1''],
      b_ImageRepos := [''quay.io/acme/app''], b_Request := ex_request,
      b_Status := BuildStatusNotStarted\<rparr>"

definition ex_fake :: FakeDataLayer where
  "ex_fake = (fake_init (Time 100 0) (\<lambda>_. Ok ex_id))\<lparr>fd_d := [(ex_id, ex_build)]\<rparr>"

definition ex_pg :: refpg where
  "ex_pg = ref_init (Time 100 0) (\<lambda>_. Ok ex_id)"

text \<open>A world in which every part answers, and a builder that fails once its context is done.\<close>

definition ex_os :: "'s OS" where
  "ex_os =
     \<lparr>os_TempDir = (\<lambda>s. (s, Ok ''/tmp/furan-build-context-1'')), os_RemoveAll = (\<lambda>p s. (s, Ok ())),
      os_Open = (\<lambda>p s. (s, Ok ())), os_Readdir = (\<lambda>p s. (s, Ok [''acme-app-deadbeef''])),
      os_Processes = (\<lambda>s. (s, Ok [(1, ''pause''), (7, ''buildkitd'')])), os_Kill = (\<lambda>p s. (s, Ok ()))\<rparr>"

definition ex_fetcher :: "string \<Rightarrow> 's CodeFetcher" where
  "ex_fetcher tkn =
     \<lparr>cf_GetCommitSHA = (\<lambda>c repo ref s. (s, Ok ''deadbeef'')), cf_Fetch = (\<lambda>c repo ref d s. (s, Ok ()))\<rparr>"

definition ex_brun :: "ctx \<Rightarrow> BuildOpts \<Rightarrow> ('s, unit) act" where
  "ex_brun c opts s = (s, if c = Done then Err ErrCanceled else Ok ())"

definition ex_tc :: "string list \<Rightarrow> string \<Rightarrow> ('s, bool \<times> string list) act" where
  "ex_tc tags repo s = (s, Ok (False, tags))"

definition ex_manager :: "(FakeDataLayer, unit) Manager" where
  "ex_manager =
     \<lparr>m_BRunner = Some ex_brun, m_JRunner = None, m_TCheck = Some ex_tc,
      m_FetcherFactory = Some ex_fetcher, m_GitHubTokenKey = ''key'',
      m_DL = Some (fakeDL (\<lambda>xs. xs))\<rparr>"

definition ex_open :: "string \<Rightarrow> string \<Rightarrow> string \<Rightarrow> string option" where
  "ex_open nonce key box = Some box"

text \<open>The cancellation arrives before the build starts; the flag is set while the build fails.\<close>

definition ex_cancel :: "'s schedule" where
  "ex_cancel n = (if n = 4 then [CancelReceived] else if n = 5 then [CancelFlagSet] else [])"

lemma ex_world:
  "(\<And>n f. Others f \<notin> set (sched n)) \<Longrightarrow>
     run_world view Inv healthy bid sched ex_os ex_brun ex_tc ex_fetcher"
  by (auto simp: run_world_def parts_ok_def after_ok_def acts_ok_def keeps_def calm_def ex_os_def
      ex_brun_def ex_tc_def ex_fetcher_def)

text \<open>A manager of doubles none of whose functions is set.\<close>

definition ex_doubles :: "'s DataLayer \<Rightarrow> ('s, FakeJob) Manager" where
  "ex_doubles dl = double_manager \<lparr>fr_BuildFunc = None\<rparr> \<lparr>fjr_RunFunc = None\<rparr> \<lparr>fc_AllTagsExistFunc = None\<rparr>
     (\<lambda>_. \<lparr>ff_FetchFunc = None, ff_GetCommitSHAFunc = None\<rparr>) ''key'' dl"

lemma ex_doubles_parts:
  "m_BRunner (ex_doubles dl) = Some (fr_Build \<lparr>fr_BuildFunc = None\<rparr>)"
  "m_TCheck (ex_doubles dl) = Some (fc_AllTagsExist \<lparr>fc_AllTagsExistFunc = None\<rparr>)"
  "m_FetcherFactory (ex_doubles dl) = Some (\<lambda>_. ff_CodeFetcher \<lparr>ff_FetchFunc = None, ff_GetCommitSHAFunc = None\<rparr>)"
  "m_DL (ex_doubles dl) = Some dl"
  by (simp_all add: ex_doubles_def double_manager_def)

lemma ex_doubles_world:
  "run_world view Inv healthy bid (\<lambda>_. []) ex_os (fr_Build \<lparr>fr_BuildFunc = None\<rparr>)
     (fc_AllTagsExist \<lparr>fc_AllTagsExistFunc = None\<rparr>) (\<lambda>_. ff_CodeFetcher \<lparr>ff_FetchFunc = None, ff_GetCommitSHAFunc = None\<rparr>)"
  by (auto simp: run_world_def parts_ok_def after_ok_def acts_ok_def keeps_def calm_def ex_os_def unset_doubles ret_act_def)

lemma ex_doubles_work:
  "parts_work Q ex_os repo (fr_Build \<lparr>fr_BuildFunc = None\<rparr>) (fc_AllTagsExist \<lparr>fc_AllTagsExistFunc = None\<rparr>)
     (\<lambda>_. ff_CodeFetcher \<lparr>ff_FetchFunc = None, ff_GetCommitSHAFunc = None\<rparr>)"
  by (auto simp: parts_work_def ends_def ex_os_def unset_doubles ret_act_def)

lemma ex_undisturbed: "undisturbed (\<lambda>_. [])"
  by (simp add: undisturbed_def)

lemma ex_fake_inv: "fake_inv ex_fake"
  by (simp add: ex_fake_def fake_inv_def fake_init_def ex_build_def)

text \<open>A server over the in-memory data layer, and a request with resources.\<close>

definition ex_nonce :: string where
  "ex_nonce = replicate 24 CHR ''n''"

definition ex_seal :: "string \<Rightarrow> string \<Rightarrow> string \<Rightarrow> string" where
  "ex_seal nonce key msg = msg"

definition ex_server :: "(FakeDataLayer, string) Server" where
  "ex_server =
     \<lparr>gr_DL = fakeDL (\<lambda>xs. xs),
      gr_Start = (\<lambda>c opts s. (s, Err (ErrMsg ''no node fits''))),
      gr_CFFactory = ex_fetcher, gr_CredentialDecryptionKey = ''key'', gr_Cache = DefaultCacheOpts,
      gr_JobHandoffTimeout = 0,
      gr_MaxResources = \<lparr>mx_MaxCPUReq = ''1000'', mx_MaxMemReq = ''1000'', mx_MaxCPULim = ''1000'', mx_MaxMemLim = ''1000''\<rparr>,
      gr_methods = Some [(''/furanrpc.FuranExecutor/StartBuild'', False),
                         (''/furanrpc.FuranExecutor/GetBuildStatus'', True)]\<rparr>"

definition ex_push_request :: BuildRequest where
  "ex_push_request = ex_request\<lparr>rq_Push := Some \<lparr>pd_Registries = [Some \<lparr>pr_Repo = ''quay.io/acme/app''\<rparr>]\<rparr>,
     rq_Build := map_option (\<lambda>d. d\<lparr>bd_Resources := Some \<lparr>br_CpuRequest = ''2'', br_CpuLimit = ''4'',
       br_MemoryRequest = ''1G'', br_MemoryLimit = []\<rparr>\<rparr>) (rq_Build ex_request)\<rparr>"

lemmas ex_start_eval = StartBuild_def make_build_def ex_push_request_def ex_request_def ex_server_def ex_fetcher_def
  EncryptAndSetGitHubCredential_def check_resources_def check_quantity_def demo_ql_def Let_def fakeDL_def
  fake_CreateBuild_def fake_newid_def fake_init_def ex_nonce_def ex_seal_def cache_options_def DefaultCacheOpts_def
  GetRegistries_def

lemma ex_quiet: "fetch_quiet view Inv ex_fetcher"
  by (simp add: fetch_quiet_def ex_fetcher_def)

text \<open>A store with a read-only API key.\<close>

definition ex_readonly :: FakeDataLayer where
  "ex_readonly = ex_fake\<lparr>fd_apikeys := [(ex_id, \<lparr>ak_ID = ex_id, ak_Created = zero_time, ak_GitHubUser = ''ann'',
     ak_Name = ''ci'', ak_Description = [], ak_ReadOnly = True\<rparr>)]\<rparr>"

lemma ex_readonly_inv: "fake_inv ex_readonly"
  using ex_fake_inv by (simp add: ex_readonly_def fake_inv_def)

text \<open>A cluster on which jobs can be created but not watched.\<close>

definition ex_k8s :: "('s, string) k8s" where
  "ex_k8s =
     \<lparr>k_GetPod = (\<lambda>ns name s. (s, Err ErrNotFound)),
      k_CreateJob = (\<lambda>ns j s. (s, Ok \<lparr>jo_Name = ''furan-build-1'', jo_Namespace = ns,
        jo_CreationTimestamp = Time 100 0, jo_Selector = Some []\<rparr>)),
      k_WatchJobs = (\<lambda>ns sel s. (s, Err (ErrMsg ''forbidden''))),
      k_ListJobs = (\<lambda>c ns sel s. (s, Ok [])), k_DeleteJob = (\<lambda>c ns name s. (s, Ok ())),
      k_ListPods = (\<lambda>ns sel s. (s, Ok None)), k_GetLogs = (\<lambda>ns pod cont n. None)\<rparr>"

definition ex_job_build :: Build where
  "ex_job_build = zero_Build\<lparr>b_ID := ex_id, b_GitHubRepo := ''acme/app''\<rparr>"

definition ex_runner :: "(FakeDataLayer, string) K8sJobRunner" where
  "ex_runner =
     \<lparr>kr_client = Some ex_k8s, kr_dl = fakeDL (\<lambda>xs. xs), kr_imageInfo = demo_info,
      kr_JobFunc = Some (FuranJobFunc demo_ql BuildKitImage JobLabel (\<lambda>_. []))\<rparr>"

text \<open>The build in other states.\<close>

definition ex_running :: FakeDataLayer where
  "ex_running = ex_fake\<lparr>fd_d := [(ex_id, ex_build\<lparr>b_Status := BuildStatusRunning\<rparr>)]\<rparr>"

definition ex_short :: FakeDataLayer where
  "ex_short = ex_fake\<lparr>fd_d := [(ex_id, ex_build\<lparr>b_EncryptedGitHubCredential := ''short''\<rparr>)]\<rparr>"

definition ex_ended :: FakeDataLayer where
  "ex_ended = ex_fake\<lparr>fd_d := [(ex_id, ex_build\<lparr>b_Status := BuildStatusSuccess, b_Events := [''job created'']\<rparr>)]\<rparr>"

definition ex_skip :: Build where
  "ex_skip = ex_build\<lparr>b_ImageRepos := [''quay.io/a'', ''quay.io/b''], b_Request := ex_request\<lparr>rq_SkipIfExists := True\<rparr>\<rparr>"

lemma ex_running_at: "store_at fake_view fake_inv (\<lambda>_. True) ex_id BuildStatusRunning ex_running"
  by (simp add: store_at_def store_alive_def ex_running_def fake_inv_def fake_view_def status_of_def ex_build_def)

lemma ex_short_inv: "fake_inv ex_short"
  by (simp add: ex_short_def fake_inv_def ex_build_def)

lemma ex_ended_inv: "fake_inv ex_ended"
  by (simp add: ex_ended_def fake_inv_def ex_build_def)

text \<open>A stub that calls the server directly, and an API key that may write.\<close>

definition crash_is_error :: "('s, 'a) act \<Rightarrow> ('s, 'a) act" where
  "crash_is_error f s = (case f s of (s', Panic p) \<Rightarrow> (s', Err (ErrMsg ''unavailable'')) | x \<Rightarrow> x)"

definition ex_stub :: "(FakeDataLayer, string) Server \<Rightarrow> rpcCreds \<Rightarrow> FakeDataLayer FuranExecutorClient" where
  "ex_stub gr rc =
     \<lparr>fc_StartBuild = (\<lambda>c req. crash_is_error (bind_act (intercept gr c (Some (call_metadata rc)) (method_name ''StartBuild'')
        (StartBuild ex_seal (ex_nonce, 24, None) demo_ql gr c req)) (\<lambda>x. ret_act (Ok (fst x))))),
      fc_GetBuildStatus = (\<lambda>c i. crash_is_error (intercept gr c (Some (call_metadata rc)) (method_name ''GetBuildStatus'') (GetBuildStatus gr c i))),
      fc_GetBuildEvents = (\<lambda>c i. crash_is_error (intercept gr c (Some (call_metadata rc)) (method_name ''GetBuildEvents'') (GetBuildEvents gr c i))),
      fc_MonitorBuild = (\<lambda>c i s. (s, Ok ([], ErrEOF))),
      fc_CancelBuild = (\<lambda>c i. crash_is_error (intercept gr c (Some (call_metadata rc)) (method_name ''CancelBuild'') (grpc_CancelBuild gr c i))),
      fc_ListBuilds = (\<lambda>c req. crash_is_error (bind_act (intercept gr c (Some (call_metadata rc)) (method_name ''ListBuilds'')
        (grpc_ListBuilds gr c req)) (\<lambda>x. ret_act (Ok (map Some x)))))\<rparr>"

lemma answered_crash: "answered (crash_is_error f) f (\<lambda>x. x)"
  by (auto simp: answered_def crash_is_error_def split: prod.splits go.splits)

lemma answered_crash_bind: "answered (crash_is_error (bind_act f (\<lambda>x. ret_act (Ok (g x))))) f g"
  by (auto simp: answered_def crash_is_error_def bind_act_def ret_act_def split: prod.splits go.splits)

lemma ex_stub_delivers: "delivers ex_seal (ex_nonce, 24, None) demo_ql gr rc (ex_stub gr rc)"
  by (simp add: delivers_def ex_stub_def answered_crash answered_crash_bind)

definition ex_options :: client_Options where
  "ex_options = \<lparr>cl_Address = ''furan:4000'', cl_APIKey = uuid_String ex_id, cl_TLSInsecureSkipVerify = False\<rparr>"

definition ex_admin :: FakeDataLayer where
  "ex_admin = ex_running\<lparr>fd_apikeys := [(ex_id, \<lparr>ak_ID = ex_id, ak_Created = zero_time, ak_GitHubUser = ''ann'',
     ak_Name = ''ci'', ak_Description = [], ak_ReadOnly = False\<rparr>)]\<rparr>"

lemma ex_admin_inv: "fake_inv ex_admin"
  using ex_running_at by (simp add: ex_admin_def fake_inv_def store_at_def store_alive_def)

definition ex_list :: list_vars where
  "ex_list =
     \<lparr>lv_listOps = \<lparr>lr_WithGithubRepo = ''acme/app'', lr_WithGithubRef = [], lr_WithImageRepo = [], lr_WithBuildState = 0,
        lr_CompletedAfter = None, lr_StartedAfter = None, lr_CompletedBefore = None, lr_StartedBefore = None, lr_Limit = 0\<rparr>,
      lv_statusstr = ''running'', lv_completedafter = 0, lv_startedafter = 0, lv_completedbefore = 0, lv_startedbefore = 0\<rparr>"

text \<open>A server process on the reference database: its pod, its flags, GitHub.\<close>

definition ex_github :: "'s github_api" where
  "ex_github =
     \<lparr>gh_GetCommitSHA1 = (\<lambda>c owner name ref s. (s, Ok ''deadbeef'')),
      gh_GetArchiveLink = (\<lambda>c owner name ref s. (s, Err ErrNotFound)), gh_NewRequest = (\<lambda>u. Ok ()),
      gh_Get = (\<lambda>u s. (s, Ok None))\<rparr>"

definition ex_fs :: "'s fs" where
  "ex_fs =
     \<lparr>fs_NotExist = (\<lambda>p s. True), fs_MkdirAll = (\<lambda>p m s. (s, Ok ())), fs_Create = (\<lambda>p s. (s, Ok ())),
      fs_Chmod = (\<lambda>p m s. (s, Ok ())), fs_Copy = (\<lambda>p c s. (s, Ok ())), fs_Lstat = (\<lambda>p s. (s, Err ErrNotFound)),
      fs_Remove = (\<lambda>p s. (s, Ok ())), fs_Symlink = (\<lambda>a b s. (s, Ok ())), fs_Link = (\<lambda>a b s. (s, Ok ()))\<rparr>"

definition ex_pod :: "string Pod" where
  "ex_pod =
     \<lparr>pod_Name = ''furan-0'', pod_Namespace = ''furan'', pod_ImagePullSecrets = [], pod_ServiceAccountName = ''furan'',
      pod_Containers = [furan_container\<lparr>c_Image := ''furan:v2'', c_Args := [''server'']\<rparr>], pod_ContainerStatuses = []\<rparr>"

definition ex_env :: "(refpg, string, unit, unit) server_env" where
  "ex_env =
     \<lparr>se_Profiler = Ok (), se_ParseConfig = (\<lambda>u. Ok ()), se_ConnectConfig = (\<lambda>c. Ok ()), se_layer = (\<lambda>p lp. refPG),
      se_InClusterConfig = Ok (), se_NewForConfig = Ok (ex_k8s\<lparr>k_GetPod := (\<lambda>ns name s. (s, Ok ex_pod))\<rparr>),
      se_podenv = \<lparr>pe_LookupEnv = (\<lambda>v. Some v), pe_NamespaceFile = Ok ''furan''\<rparr>,
      se_quantity = demo_ql, se_reqjson = (\<lambda>r. []), se_LoadX509KeyPair = (\<lambda>c k. Ok ()),
      se_github = (\<lambda>tkn. ex_github), se_fs = ex_fs, se_selects = (\<lambda>opts s. [])\<rparr>"

definition ex_server_vars :: server_vars where
  "ex_server_vars =
     \<lparr>sv_Profiling = False, sv_SeedKey = [], sv_builderimg = [], sv_jcinterval = 1, sv_jcage = 1, sv_tlscert = [],
      sv_tlskey = [],
      sv_maxResources = \<lparr>mr_CPUReq = ''1000'', mr_MemReq = ''1000'', mr_CPULim = ''1000'', mr_MemLim = ''1000''\<rparr>,
      sv_defaultcachetype = ''disabled'', sv_defaultcachemaxmode = False\<rparr>"

lemma ex_server_starts: "\<exists>s1 gr label. server ex_env ex_server_vars db s = (s1, CliOk (gr, label))"
proof -
  have "Split JobLabel CHR '':'' = [''created-by'', ''furan2'']" by code_simp
  then show ?thesis
    by (simp add: server_def ex_env_def ex_server_vars_def NewPostgresDBLayer_def NewRawPGClient_def or_clierr_def
        NewInClusterRunner_def image_def ex_pod_def furan_container_def bind_act_def wrap_act_def ret_act_def process_def
        StartCleanup_def demo_ql_def Let_def)
qed

lemma ex_server_parts:
  assumes "server ex_env ex_server_vars db s = (s1, CliOk (gr, label))"
  shows "gr_DL gr = pgDL refPG" "gr_CFFactory gr = (\<lambda>tkn. NewGitHubFetcher ex_github ex_fs)"
    "gr_MaxResources gr = \<lparr>mx_MaxCPUReq = ''1000'', mx_MaxMemReq = ''1000'', mx_MaxCPULim = ''1000'', mx_MaxMemLim = ''1000''\<rparr>"
  using server_Ok [OF assms]
  by (auto simp: ex_env_def ex_server_vars_def NewPostgresDBLayer_def NewRawPGClient_def process_def demo_ql_def)

lemma ex_github_quiet: "fetch_quiet view Inv (\<lambda>tkn. NewGitHubFetcher ex_github fs)"
  by (auto simp: fetch_quiet_def NewGitHubFetcher_def gh_GetCommitSHA_def ex_github_def bind_act_def ret_act_def
      split: go.splits)

lemma ex_server_accepts:
  assumes "gr_DL gr = pgDL refPG" "gr_CFFactory gr = (\<lambda>tkn. NewGitHubFetcher ex_github ex_fs)"
    and "gr_MaxResources gr = \<lparr>mx_MaxCPUReq = ''1000'', mx_MaxMemReq = ''1000'', mx_MaxCPULim = ''1000'', mx_MaxMemLim = ''1000''\<rparr>"
  shows "\<exists>s' sid opts s2 b. StartBuild ex_seal (ex_nonce, 24, None) demo_ql gr Active ex_push_request ex_pg = (s', Ok (sid, opts))
    \<and> dl_GetBuildByID (gr_DL gr) Active (bo_BuildID opts) s' = (s2, Ok b)"
proof -
  have "SplitN2 ''acme/app'' CHR ''/'' = [''acme'', ''app'']" by code_simp
  then show ?thesis
    by (simp add: StartBuild_def make_build_def ex_push_request_def ex_request_def assms NewGitHubFetcher_def
        gh_GetCommitSHA_def owner_repo_def ex_github_def bind_act_def ret_act_def GetRegistries_def
        EncryptAndSetGitHubCredential_def check_resources_def check_quantity_def demo_ql_def Let_def pgDL_def
        CreateBuild_def GetBuildByID_def retry_first ex_pg_def ref_eval)
qed

text \<open>A job on the reference database: GitHub has no archive of the code, the registries do not answer.\<close>

definition ex_job_env :: "(refpg, unit, unit, unit) runbuild_env" where
  "ex_job_env =
     \<lparr>re_Profiler = Ok (), re_ParseConfig = (\<lambda>u. Ok ()), re_ConnectConfig = (\<lambda>c. Ok ()), re_layer = (\<lambda>p lp. refPG),
      re_bkclient = Ok (),
      re_bk = \<lparr>bk_Fetch = (\<lambda>c b s. (s, Err ErrNotFound)), bk_Save = (\<lambda>c b p s. (s, Ok ())),
        bk_TempDir = (\<lambda>p s. (s, Ok ''/tmp/1'')), bk_RemoveAll = (\<lambda>p s. (s, Ok ())), bk_Dial = (\<lambda>a s. (s, Ok ())),
        bk_Now = (\<lambda>s. 0), bk_Sleep = (\<lambda>d s. s), bk_Solve = (\<lambda>c opt s. (s, Ok ())), bk_Progress = [], bk_Sink = None,
        bk_Getenv = (\<lambda>_. []), bk_addr = []\<rparr>,
      re_s3 = \<lparr>e_session = (\<lambda>s. (s, Err ErrNotFound)), e_TempFile = (\<lambda>p s. (s, Ok p)), e_Remove = (\<lambda>p s. (s, Ok ())),
        e_TempDir = (\<lambda>p s. (s, Ok p)), e_RemoveAll = (\<lambda>p s. (s, Ok ())), e_Download = (\<lambda>c b k p s. (s, Err ErrNotFound)),
        e_Upload = (\<lambda>c b k p s. (s, Ok ())), e_Unarchive = (\<lambda>a b s. (s, Ok ())), e_Archive = (\<lambda>fs p s. (s, Ok ())),
        e_ReadDir = (\<lambda>p s. (s, Ok [])), e_Open = (\<lambda>p s. (s, Ok ())), e_Size = (\<lambda>p s. (s, Ok 0)), e_Since = (\<lambda>s. [])\<rparr>,
      re_http = (\<lambda>u a s. (s, Err ErrNotFound)), re_parsetags = (\<lambda>_. Ok []), re_basicauth = (\<lambda>u p. p),
      re_ecr = \<lparr>ecr_extract = (\<lambda>h. Err ErrNotFound), ecr_session = (\<lambda>r s. (s, Ok ())), ecr_describe = (\<lambda>n t s. (s, [], None))\<rparr>,
      re_github = (\<lambda>tkn. ex_github), re_fs = ex_fs, re_os = ex_os, re_open = ex_open\<rparr>"

definition ex_job_vars :: runbuild_vars where
  "ex_job_vars = runbuild_defaults\<lparr>bv_buildid := uuid_String ex_id, bv_bkaddr := ''unix:///run/buildkit/buildkitd.sock''\<rparr>"

definition ex_job_pg :: refpg where
  "ex_job_pg = ex_pg\<lparr>rp_tabs := \<lparr>t_builds = [ex_id \<mapsto> (ex_build, None, None)], t_keys = Map.empty\<rparr>, rp_ids := [ex_id]\<rparr>"

definition ex_build_call :: "'s bk_env \<Rightarrow> 's DataLayer \<Rightarrow> ctx \<Rightarrow> BuildOpts \<Rightarrow> ('s, unit) act" where
  "ex_build_call bk dl c opts s = (s, Ok ())"

lemma ex_job_tags:
  "\<exists>r. AllTagsExist (re_http ex_job_env) (re_parsetags ex_job_env) (re_basicauth ex_job_env) (re_ecr ex_job_env) qc gc tags repo s
     = (s, r) \<and> (\<forall>p. r \<noteq> Panic p)"
proof -
  have h: "re_http ex_job_env u a s = (s, Err ErrNotFound)" for u a s by (simp add: ex_job_env_def)
  have q: "quay_checkTag (re_http ex_job_env) qc repo t s = (s, Err (Wrapf ''error performing API call: '' ErrNotFound))" for t
    by (simp add: quay_checkTag_def h Let_def)
  have g: "gcr_checkTag (re_http ex_job_env) (re_parsetags ex_job_env) (re_basicauth ex_job_env) gc repo t s
      = (s, Err (Wrapf ''error performing API call: '' ErrNotFound))" for t
    by (simp add: gcr_checkTag_def h Let_def)
  have e: "\<not> IsECR (re_ecr ex_job_env) repo" by (simp add: IsECR_def ex_job_env_def)
  have m: "\<exists>r. missing_tags check tags [] s = (s, r) \<and> (\<forall>p. r \<noteq> Panic p)" if "\<And>t. check t s = (s, Err x)" for check x
    using that by (cases tags) simp_all
  show ?thesis using m [of "quay_checkTag (re_http ex_job_env) qc repo", OF q]
      m [of "gcr_checkTag (re_http ex_job_env) (re_parsetags ex_job_env) (re_basicauth ex_job_env) gc repo", OF g]
    by (simp add: AllTagsExist_def quay_AllTagsExist_def gcr_AllTagsExist_def e)
qed

lemma ex_job_fetch:
  "acts_ok Q (cf_GetCommitSHA (only_for ''acme/app'' (\<lambda>tkn. NewGitHubFetcher (re_github ex_job_env tkn) (re_fs ex_job_env)) tkn) c repo ref)"
  "acts_ok Q (cf_Fetch (only_for ''acme/app'' (\<lambda>tkn. NewGitHubFetcher (re_github ex_job_env tkn) (re_fs ex_job_env)) tkn) c repo ref d)"
proof -
  have "SplitN2 ''acme/app'' CHR ''/'' = [''acme'', ''app'']" by code_simp
  then show "acts_ok Q (cf_GetCommitSHA (only_for ''acme/app'' (\<lambda>tkn. NewGitHubFetcher (re_github ex_job_env tkn) (re_fs ex_job_env)) tkn) c repo ref)"
    "acts_ok Q (cf_Fetch (only_for ''acme/app'' (\<lambda>tkn. NewGitHubFetcher (re_github ex_job_env tkn) (re_fs ex_job_env)) tkn) c repo ref d)"
    by (simp_all add: acts_ok_def keeps_def calm_def only_for_def NewGitHubFetcher_def gh_GetCommitSHA_def gh_Fetch_def
        owner_repo_def ex_job_env_def ex_github_def bind_act_def ret_act_def flat_act_def)
qed

lemma ex_job_world:
  "job_world view Inv healthy ex_build_call ex_job_env v bid ''acme/app'' (\<lambda>_. [])"
proof -
  have tags: "acts_ok Q (AllTagsExist (re_http ex_job_env) (re_parsetags ex_job_env) (re_basicauth ex_job_env) (re_ecr ex_job_env) qc gc tags repo)"
    for Q qc gc tags repo
    unfolding acts_ok_def keeps_def calm_def using ex_job_tags [of qc gc tags repo] by (metis fst_conv snd_conv)
  have os: "re_os ex_job_env = ex_os" "bk_Dial (re_bk ex_job_env) a s = (s, Ok ())" "bk_Sleep (re_bk ex_job_env) d s = s" for a d s
    by (simp_all add: ex_job_env_def)
  have oks: "acts_ok Q (os_TempDir ex_os)" "acts_ok Q (os_Open ex_os p)" "acts_ok Q (os_Readdir ex_os p)" "acts_ok Q (os_RemoveAll ex_os p)"
    "acts_ok Q (os_Processes ex_os)" "acts_ok Q (os_Kill ex_os n)" "acts_ok Q (ex_build_call bk dl c opts)" for Q p n bk dl c opts
    by (simp_all add: acts_ok_def keeps_def calm_def ex_os_def ex_build_call_def)
  show ?thesis
    by (auto simp: job_world_def job_manager_def Let_def run_world_def parts_ok_def after_ok_def os oks tags ex_job_fetch keeps_def)
qed

lemma ex_job_runs:
  "\<exists>s' res. runbuildCmd demo_jwt (\<lambda>_. Ok demo_sc) ex_build_call ex_job_env ex_job_vars (demo_vars ''vault'') (\<lambda>_. []) ex_job_pg = Some (s', res)"
proof -
  have "VerifyAddr (job_solver ex_job_env v aws dl) s = Some (s, Ok ())" for v aws dl s
    unfolding VerifyAddr_def by (subst poll.simps) (simp add: job_solver_def Let_def ex_job_env_def SocketConnectTimeout_def)
  then show ?thesis by (simp add: runbuildCmd_def runbuild_def split: cli.splits go.splits prod.splits)
qed

section \<open>Running a build\<close>



text \<open>
  C2: progress of a run.  If nobody cancels the build, sends a signal or ends its context, and the code
  fetcher, the tag checker, the builder, the data layer and the file system all answer, then \<^verbatim>\<open>Run\<close> of a
  build that has not started returns no error and the build is recorded as a success, or as skipped if
  its request asks for that.
\<close>

theorem run_succeeds:
  assumes "reliable_layer dl view keys Inv healthy"
    and "m_BRunner m = Some brun" "m_TCheck m = Some tc" "m_FetcherFactory m = Some ff" "m_DL m = Some dl"
    and "run_world view Inv healthy bid sched os brun tc (only_for (b_GitHubRepo b) ff)" "undisturbed sched"
      "parts_work (store_alive view Inv healthy bid) os (b_GitHubRepo b) brun tc ff"
    and "Inv s" "healthy s" "view s bid = Some b" "b_Status b = BuildStatusNotStarted"
    and "rq_SkipIfExists (b_Request b) \<longrightarrow> rq_Build (b_Request b) \<noteq> None"
      "GetGitHubCredential open_box b (m_GitHubTokenKey m) = Ok tkn"
  shows "\<exists>s'. Run open_box os m sched Active bid s = (s', Ok ())
    \<and> (status_of (view s') bid = Some BuildStatusSuccess
       \<or> rq_SkipIfExists (b_Request b) \<and> status_of (view s') bid = Some BuildStatusSkipped)"
  by (rule reliable_layer.Run_succeeds [OF assms])

theorem run_succeeds_witness:
  "\<exists>s'. Run ex_open ex_os (ex_doubles (fakeDL (\<lambda>xs. xs))) (\<lambda>_. []) Active ex_id ex_fake = (s', Ok ())
    \<and> status_of (fake_view s') ex_id = Some BuildStatusSuccess"
proof -
  have v: "fake_view ex_fake ex_id = Some (erase ex_build)" by (simp add: fake_view_def ex_fake_def)
  note w = run_succeeds [OF fake.reliable_layer_axioms [of "\<lambda>xs. xs"] ex_doubles_parts
      run_world_only_for [OF ex_doubles_world] ex_undisturbed ex_doubles_work ex_fake_inv TrueI v, where open_box = ex_open]
  show ?thesis using w by (simp add: ex_build_def ex_request_def ex_open_def GetGitHubCredential_def)
qed

section \<open>The data layers\<close>

text \<open>
  The in-memory data layer implements the contract of a data layer, with calls that
  always succeed.
\<close>

theorem fake_implements_contract:
  "reliable_layer (fakeDL ord) fake_view fake_keys fake_inv (\<lambda>_. True)"
  by (rule fake.reliable_layer_axioms)





section \<open>From a request to a result\<close>

lemma make_build_sealed:
  assumes "make_build seal (nonce, n, err) ql gr req d irepos = Ok (b, opts)" "length nonce = 24"
    and "n = 24 \<or> err \<noteq> None"
  shows "b_EncryptedGitHubCredential b = nonce @ seal nonce (gr_CredentialDecryptionKey gr) (bd_GithubCredential d)"
  using assms
  by (auto simp: make_build_def Let_def EncryptAndSetGitHubCredential_def status_err_def bind_go_eq_Ok
      split: if_splits option.splits)

text \<open>
  C10: \<^verbatim>\<open>StartBuild\<close>.  If the call returns an identifier, then exactly one build was added to the
  store, under that identifier: not started, for the repository, the reference, the tags and all
  image repositories of the request, which are not empty; with the request's resources, each of them
  empty or a quantity within the limit of the server; and with a credential from which the key of
  the server recovers the credential of the request.
\<close>

theorem start_build_creates:
  assumes "data_layer dl view keys Inv" "Inv s" "gr_DL gr = dl"
    and "StartBuild seal (nonce, 24, None) ql gr c req s = (s', Ok (sid, opts))"
    and "fetch_quiet view Inv (gr_CFFactory gr)"
    and "length nonce = 24" "\<And>m. open_box nonce (gr_CredentialDecryptionKey gr)
      (seal nonce (gr_CredentialDecryptionKey gr) m) = Some m"
  shows "\<exists>d irepos b' bid. rq_Build req = Some d \<and> FromString sid = Ok bid \<and> bo_BuildID opts = bid
    \<and> view s' = (view s)(bid \<mapsto> b') \<and> b_ID b' = bid \<and> b_Status b' = BuildStatusNotStarted
    \<and> b_GitHubRepo b' = bd_GithubRepo d \<and> bd_GithubRepo d \<noteq> []
    \<and> b_GitHubRef b' = bd_Ref d \<and> bd_Ref d \<noteq> [] \<and> b_Tags b' = bd_Tags d
    \<and> registry_repos (GetRegistries (rq_Push req)) = Ok irepos \<and> b_ImageRepos b' = irepos \<and> irepos \<noteq> []
    \<and> GetGitHubCredential open_box b' (gr_CredentialDecryptionKey gr) = Ok (bd_GithubCredential d)
    \<and> (case bd_Resources d of
         None \<Rightarrow> bo_Resources (b_BuildOptions b') = zero_Resources
       | Some r \<Rightarrow> bo_Resources (b_BuildOptions b') = r
           \<and> within ql (br_CpuRequest r) (mx_MaxCPUReq (gr_MaxResources gr))
           \<and> within ql (br_CpuLimit r) (mx_MaxCPULim (gr_MaxResources gr))
           \<and> within ql (br_MemoryRequest r) (mx_MaxMemReq (gr_MaxResources gr))
           \<and> within ql (br_MemoryLimit r) (mx_MaxMemLim (gr_MaxResources gr)))"
proof -
  from data_layer.StartBuild_creates [OF assms(1-5)] obtain d irepos b b' bid
    where x: "rq_Build req = Some d" "bd_GithubRepo d \<noteq> []" "bd_Ref d \<noteq> []"
      "registry_repos (GetRegistries (rq_Push req)) = Ok irepos" "irepos \<noteq> []"
      and mk: "make_build seal (nonce, 24, None) ql gr req d irepos = Ok (b, b_BuildOptions b)"
      and bf: "build_for req d irepos b" and cr: "created_as b bid b'"
      and v: "view s' = (view s)(bid \<mapsto> b')" "FromString sid = Ok bid"
        "opts = (b_BuildOptions b)\<lparr>bo_BuildID := bid\<rparr>" by blast
  note m = make_build_Ok [OF mk] and sealed = make_build_sealed [OF mk assms(6)]
  have enc: "GetGitHubCredential open_box b' (gr_CredentialDecryptionKey gr) = Ok (bd_GithubCredential d)"
    using cr sealed m assms(6,7) by (simp add: GetGitHubCredential_def created_as_def Let_def)
  have res: "case bd_Resources d of
       None \<Rightarrow> bo_Resources (b_BuildOptions b') = zero_Resources
     | Some r \<Rightarrow> bo_Resources (b_BuildOptions b') = r
         \<and> within ql (br_CpuRequest r) (mx_MaxCPUReq (gr_MaxResources gr))
         \<and> within ql (br_CpuLimit r) (mx_MaxCPULim (gr_MaxResources gr))
         \<and> within ql (br_MemoryRequest r) (mx_MaxMemReq (gr_MaxResources gr))
         \<and> within ql (br_MemoryLimit r) (mx_MaxMemLim (gr_MaxResources gr))"
    using bf cr m by (cases "bd_Resources d") (auto simp: build_for_def created_as_def check_resources_Ok)
  have fields: "b_ID b' = bid" "b_Status b' = BuildStatusNotStarted" "b_GitHubRepo b' = bd_GithubRepo d"
      "b_GitHubRef b' = bd_Ref d" "b_Tags b' = bd_Tags d" "b_ImageRepos b' = irepos"
    using bf cr by (simp_all add: build_for_def created_as_def)
  have "bo_BuildID opts = bid" by (simp add: v(3))
  with x v(1,2) fields enc res show ?thesis by blast
qed

theorem start_build_creates_witness:
  "\<exists>s' sid opts d b' bid. StartBuild ex_seal (ex_nonce, 24, None) demo_ql ex_server Active ex_push_request (fake_init (Time 100 0) (\<lambda>_. Ok ex_id))
      = (s', Ok (sid, opts))
    \<and> rq_Build ex_push_request = Some d \<and> FromString sid = Ok bid \<and> fake_view s' bid = Some b'
    \<and> GetGitHubCredential ex_open b' ''key'' = Ok (bd_GithubCredential d)"
proof -
  let ?s = "fake_init (Time 100 0) (\<lambda>_. Ok ex_id)"
  obtain s' sid opts where r: "StartBuild ex_seal (ex_nonce, 24, None) demo_ql ex_server Active ex_push_request ?s = (s', Ok (sid, opts))"
    by (simp add: ex_start_eval)
  have k: "gr_CredentialDecryptionKey ex_server = ''key''" "gr_DL ex_server = fakeDL (\<lambda>xs. xs)"
    by (simp_all add: ex_server_def)
  from start_build_creates [OF fake.data_layer_axioms fake_init_inv k(2) r, of ex_open]
  obtain d bid b' where "rq_Build ex_push_request = Some d" "FromString sid = Ok bid" "fake_view s' = (fake_view ?s)(bid \<mapsto> b')"
    "GetGitHubCredential ex_open b' ''key'' = Ok (bd_GithubCredential d)"
    by (auto simp: ex_quiet ex_server_def ex_open_def ex_seal_def ex_nonce_def)
  with r show ?thesis by auto
qed



section \<open>Authentication\<close>

text \<open>
  C9: behind the interceptor a handler runs only for a method of the service, with exactly one API
  key in the metadata, which is the identifier of a stored key, and for a read-only key only if the
  method is read-only; the store is then the one the call found.  Otherwise the call fails with
  \<^verbatim>\<open>Unauthenticated\<close> and changes no build, whatever the handler does.
\<close>

theorem only_stored_keys_pass:
  assumes "data_layer dl view keys Inv" "Inv s" "gr_DL gr = dl"
    and "intercept gr c md rpcname handler s = (s', r)"
  shows "(\<exists>methods ro m apik kid akey s1. gr_methods gr = Some methods \<and> map_of methods rpcname = Some ro
      \<and> md = Some m \<and> md_Get m APIKeyLabel = [apik] \<and> FromString apik = Ok kid \<and> keys s kid = Some akey
      \<and> (ak_ReadOnly akey \<longrightarrow> ro) \<and> view s1 = view s \<and> handler s1 = (s', r))
    \<or> (r = Err (StatusErr Unauthenticated ''failed API key authentication'') \<and> view s' = view s)"
proof (cases "apiKeyAuth gr c md rpcname s")
  case (Pair s1 ok)
  show ?thesis
  proof (cases ok)
    case True
    with Pair have auth: "apiKeyAuth gr c md rpcname s = (s1, True)" by simp
    from data_layer.auth_key_stored [OF assms(1-3) auth] obtain ro m apik kid akey
      where "view s1 = view s" "map_of (the (gr_methods gr)) rpcname = Some ro" "md = Some m"
        "md_Get m APIKeyLabel = [apik]" "FromString apik = Ok kid" "keys s kid = Some akey" "ak_ReadOnly akey \<longrightarrow> ro"
      by blast
    moreover have "handler s1 = (s', r)" using assms(4) Pair True by (simp add: intercept_def)
    moreover have "gr_methods gr \<noteq> None" using auth by (cases "gr_methods gr") (simp_all add: apiKeyAuth_def)
    ultimately show ?thesis by (cases "gr_methods gr") auto
  next
    case False
    with data_layer.refused_no_effect [OF assms] Pair show ?thesis by simp
  qed
qed

theorem only_stored_keys_pass_witness:
  "\<exists>s' r. intercept ex_server Active (Some [(APIKeyLabel, [uuid_String ex_id])])
       ''/furanrpc.FuranExecutor/StartBuild'' (\<lambda>s. (s\<lparr>fd_d := []\<rparr>, Ok ())) ex_readonly = (s', r)
     \<and> r = Err (StatusErr Unauthenticated ''failed API key authentication'') \<and> fake_view s' = fake_view ex_readonly"
proof -
  obtain s' r where i: "intercept ex_server Active (Some [(APIKeyLabel, [uuid_String ex_id])])
       ''/furanrpc.FuranExecutor/StartBuild'' (\<lambda>s. (s\<lparr>fd_d := []\<rparr>, Ok ())) ex_readonly = (s', r)" by fastforce
  have d: "gr_DL ex_server = fakeDL (\<lambda>xs. xs)" by (simp add: ex_server_def)
  have k: "fake_keys ex_readonly kid = Some akey \<Longrightarrow> ak_ReadOnly akey" for kid akey
    by (auto simp: ex_readonly_def fake_keys_def split: if_splits)
  have m: "gr_methods ex_server = Some methods \<Longrightarrow> map_of methods ''/furanrpc.FuranExecutor/StartBuild'' = Some ro \<Longrightarrow> \<not> ro"
    for methods ro by (auto simp: ex_server_def)
  from only_stored_keys_pass [OF fake.data_layer_axioms ex_readonly_inv d i] i k m show ?thesis by blast
qed

section \<open>Jobs\<close>

lemma put_quantity_Ok: "within ql str maxq \<Longrightarrow> \<exists>l. put_quantity ql key str out = Ok l"
  by (auto simp: within_def put_quantity_def MustParse_def)

lemma resources_Ok:
  assumes "within ql (br_CpuRequest r) m1" "within ql (br_CpuLimit r) m2"
    and "within ql (br_MemoryRequest r) m3" "within ql (br_MemoryLimit r) m4"
    and "bo_Resources (b_BuildOptions b) = r"
  shows "\<exists>x. resources ql b = Ok x"
proof -
  from put_quantity_Ok [OF assms(1)] obtain o0 where 0: "put_quantity ql ''cpu'' (br_CpuRequest r) None = Ok o0" by blast
  from put_quantity_Ok [OF assms(3)] obtain o0' where 1: "put_quantity ql ''memory'' (br_MemoryRequest r) o0 = Ok o0'" by blast
  from put_quantity_Ok [OF assms(2)] obtain o1 where 2: "put_quantity ql ''cpu'' (br_CpuLimit r) None = Ok o1" by blast
  from put_quantity_Ok [OF assms(4)] obtain o1' where 3: "put_quantity ql ''memory'' (br_MemoryLimit r) o1 = Ok o1'" by blast
  show ?thesis by (simp add: resources_def assms(5) Let_def 0 1 2 3)
qed

text \<open>
  C24: resources that \<^verbatim>\<open>StartBuild\<close> accepted never make the job runner panic: for every build the
  server created, reading it back from the store and turning its resources into the quantities of
  the job (\<^verbatim>\<open>resource.MustParse\<close>) succeeds.
\<close>

theorem accepted_resources_parse:
  assumes "data_layer dl view keys Inv" "Inv s" "gr_DL gr = dl"
    and "StartBuild seal rd ql gr c req s = (s1, Ok (sid, opts))"
    and "fetch_quiet view Inv (gr_CFFactory gr)"
    and "dl_GetBuildByID dl c' (bo_BuildID opts) s1 = (s2, Ok b)"
  shows "\<exists>x. resources ql b = Ok x"
proof -
  from data_layer.StartBuild_creates [OF assms(1-5)] obtain d irepos b0 b' bid
    where mk: "make_build seal rd ql gr req d irepos = Ok (b0, b_BuildOptions b0)"
      and bf: "build_for req d irepos b0" and cr: "created_as b0 bid b'" and i1: "Inv s1"
      and v: "view s1 = (view s)(bid \<mapsto> b')" "opts = (b_BuildOptions b0)\<lparr>bo_BuildID := bid\<rparr>" by blast
  have bid: "bo_BuildID opts = bid" by (simp add: v(2))
  from data_layer.get_step [OF assms(1) i1 assms(6)] have "erase b = b'" by (auto simp: v bid)
  then have r: "bo_Resources (b_BuildOptions b) = bo_Resources (b_BuildOptions b0)"
    using cr by (auto simp: created_as_def)
  show ?thesis
  proof (cases "bd_Resources d")
    case None
    with bf r show ?thesis
      by (simp add: build_for_def resources_def put_quantity_def zero_Resources_def Let_def)
  next
    case (Some q)
    with make_build_Ok [OF mk] have c: "check_resources ql (gr_MaxResources gr) q = Ok ()" by simp
    have "bo_Resources (b_BuildOptions b) = q" using bf r Some by (simp add: build_for_def)
    with c [unfolded check_resources_Ok] show ?thesis by (intro resources_Ok [where r = q]) auto
  qed
qed

theorem accepted_resources_parse_witness:
  "\<exists>s1 sid opts s2 b x. StartBuild ex_seal (ex_nonce, 24, None) demo_ql ex_server Active ex_push_request
      (fake_init (Time 100 0) (\<lambda>_. Ok ex_id)) = (s1, Ok (sid, opts))
    \<and> dl_GetBuildByID (fakeDL (\<lambda>xs. xs)) Active (bo_BuildID opts) s1 = (s2, Ok b)
    \<and> resources demo_ql b = Ok x"
proof -
  obtain s1 sid opts s2 b where r: "StartBuild ex_seal (ex_nonce, 24, None) demo_ql ex_server Active ex_push_request
      (fake_init (Time 100 0) (\<lambda>_. Ok ex_id)) = (s1, Ok (sid, opts))"
    and g: "dl_GetBuildByID (fakeDL (\<lambda>xs. xs)) Active (bo_BuildID opts) s1 = (s2, Ok b)"
    by (simp add: ex_start_eval fake_GetBuildByID_def)
  have p: "gr_DL ex_server = fakeDL (\<lambda>xs. xs)" "fetch_quiet fake_view fake_inv (gr_CFFactory ex_server)"
    by (simp_all add: ex_server_def ex_quiet)
  from accepted_resources_parse [OF fake.data_layer_axioms fake_init_inv p(1) r p(2) g] r g show ?thesis by blast
qed

text \<open>
  C23: if the job of a build cannot be started, or the handoff times out, the goroutine of
  \<^verbatim>\<open>StartBuild\<close> records the build as failed.
\<close>

theorem failed_start_is_recorded:
  assumes "reliable_layer dl view keys Inv healthy"
    and "store_alive view Inv healthy (bo_BuildID opts) s" "gr_DL gr = dl"
    and "\<And>s. store_alive view Inv healthy (bo_BuildID opts) s \<Longrightarrow>
      \<exists>s1 e. gr_Start gr Active opts s = (s1, Err e) \<and> store_alive view Inv healthy (bo_BuildID opts) s1"
  shows "\<exists>s'. start_job gr timedout took opts s = (s', Ok ())
    \<and> status_of (view s') (bo_BuildID opts) = Some BuildStatusFailure"
  by (rule reliable_layer.start_job_failure [OF assms(1-3) refl assms(4)])

theorem failed_start_is_recorded_witness:
  "\<exists>s'. start_job ex_server True ''1s'' (zero_BuildOpts\<lparr>bo_BuildID := ex_id\<rparr>) ex_fake = (s', Ok ())
    \<and> status_of (fake_view s') ex_id = Some BuildStatusFailure"
proof -
  have "store_alive fake_view fake_inv (\<lambda>_. True) (bo_BuildID (zero_BuildOpts\<lparr>bo_BuildID := ex_id\<rparr>)) ex_fake"
    by (simp add: store_alive_def ex_fake_inv) (simp add: fake_view_def ex_fake_def)
  from failed_start_is_recorded [OF fake.reliable_layer_axioms this, of ex_server "\<lambda>xs. xs" True "''1s''"]
  show ?thesis by (simp add: ex_server_def)
qed

text \<open>
  The error of \<^verbatim>\<open>Watch\<close> is dropped: the job runner reports that the job was started, and the
  watcher then panics at its first \<^verbatim>\<open>select\<close>, since its watch is nil.
\<close>

theorem watch_error_dropped:
  assumes "kr_JobFunc kr = Some jf" "kr_client kr = Some k8s" "resources ql build = Ok r"
    and "jf (kr_imageInfo kr) build r = Ok j" "k_CreateJob k8s (ii_Namespace (kr_imageInfo kr)) j s = (s1, Ok jo)"
    and "jo_Selector jo = Some ml" "\<And>ns sel t. \<exists>t' e. k_WatchJobs k8s ns sel t = (t', Err e)"
  shows "\<exists>s' jw. jr_Run ql kr build s = (s', Ok jw) \<and> jw_JobName jw = jo_Name jo \<and> jm (jw_start jw) = MPanicked"
proof -
  define s2 where "s2 = fst (dl_AddEvent (kr_dl kr) Active (b_ID build) (''job created: '' @ jo_Name jo) s1)"
  from assms(7) obtain t' e where "k_WatchJobs k8s (ii_Namespace (kr_imageInfo kr))
      (''metadata.name='' @ jo_Name jo @ '',metadata.namespace='' @ jo_Namespace jo) s2 = (t', Err e)" by blast
  with assms(1-6) show ?thesis by (simp add: jr_Run_def Let_def jw_start_def s2_def)
qed

theorem watch_error_dropped_witness:
  "\<exists>s' jw. jr_Run demo_ql ex_runner ex_job_build ex_fake = (s', Ok jw) \<and> jw_JobName jw = ''furan-build-1''
    \<and> jm (jw_start jw) = MPanicked"
proof -
  from demo_job_Ok obtain j where j: "demo_job ''acme/app'' ex_id = Ok j" by blast
  have r: "resources demo_ql ex_job_build = Ok (None, None)"
    by (simp add: resources_def put_quantity_def ex_job_build_def zero_Build_def zero_BuildOpts_def zero_Resources_def)
  let ?jo = "\<lparr>jo_Name = ''furan-build-1'', jo_Namespace = ''furan'', jo_CreationTimestamp = Time 100 0, jo_Selector = Some []\<rparr>"
  have f: "FuranJobFunc demo_ql BuildKitImage JobLabel (\<lambda>_. []) (kr_imageInfo ex_runner) ex_job_build (None, None) = Ok j"
    using j by (simp add: demo_job_def ex_runner_def ex_job_build_def)
  have p: "kr_JobFunc ex_runner = Some (FuranJobFunc demo_ql BuildKitImage JobLabel (\<lambda>_. []))"
    "kr_client ex_runner = Some ex_k8s" "k_CreateJob ex_k8s (ii_Namespace (kr_imageInfo ex_runner)) j ex_fake = (ex_fake, Ok ?jo)"
    "\<exists>t' e. k_WatchJobs ex_k8s ns sel (t :: FakeDataLayer) = (t', Err e)" for ns sel t
    by (simp_all add: ex_runner_def ex_k8s_def demo_info_def)
  from watch_error_dropped [OF p(1,2) r f p(3) _ p(4)] show ?thesis by simp
qed

text \<open>
  C21: a build is attempted at most once: \<^verbatim>\<open>Run\<close> of a build whose status is not NotStarted returns an
  error and leaves the status as it is.
\<close>

theorem attempted_once:
  assumes "reliable_layer dl view keys Inv healthy"
    and "m_BRunner m = Some brun" "m_TCheck m = Some tc" "m_FetcherFactory m = Some ff" "m_DL m = Some dl"
    and "after_ok (store_at view Inv healthy bid st) os sched" "store_at view Inv healthy bid st s"
    and "st \<noteq> BuildStatusNotStarted"
    and "Run open_box os m sched Active bid s = (s', res)"
  shows "(\<exists>msg. res = Err (ErrMsg msg)) \<and> status_of (view s') bid = Some st"
  using reliable_layer.Run_refused [OF assms] by (simp add: store_at_def)

theorem attempted_once_witness:
  "\<exists>s' res. Run ex_open ex_os ex_manager ex_cancel Active ex_id ex_running = (s', res)
    \<and> (\<exists>msg. res = Err (ErrMsg msg)) \<and> status_of (fake_view s') ex_id = Some BuildStatusRunning"
proof -
  obtain s' res where r: "Run ex_open ex_os ex_manager ex_cancel Active ex_id ex_running = (s', res)" by fastforce
  have p: "m_BRunner ex_manager = Some ex_brun" "m_TCheck ex_manager = Some ex_tc"
      "m_FetcherFactory ex_manager = Some ex_fetcher" "m_DL ex_manager = Some (fakeDL (\<lambda>xs. xs))"
    by (simp_all add: ex_manager_def)
  have a: "after_ok Q ex_os ex_cancel" for Q :: "FakeDataLayer \<Rightarrow> bool"
    by (auto simp: after_ok_def acts_ok_def keeps_def calm_def ex_os_def ex_cancel_def)
  have "BuildStatusRunning \<noteq> BuildStatusNotStarted" by simp
  from attempted_once [OF fake.reliable_layer_axioms p a ex_running_at this r] r show ?thesis by blast
qed

text \<open>
  C40: a stored credential with fewer than 24 bytes makes \<^verbatim>\<open>Run\<close> panic in \<^verbatim>\<open>GetGitHubCredential\<close>,
  after the build was recorded as running; the deferred function sees no error then, and the build
  stays in the status Running.
\<close>

theorem short_credential_leaves_running:
  assumes "reliable_layer dl view keys Inv healthy"
    and "m_BRunner m = Some brun" "m_TCheck m = Some tc" "m_FetcherFactory m = Some ff" "m_DL m = Some dl"
    and "after_ok (store_at view Inv healthy bid BuildStatusRunning) os (\<lambda>_. [])"
    and "Inv s" "healthy s" "view s bid = Some b" "b_Status b = BuildStatusNotStarted"
    and "length (b_EncryptedGitHubCredential b) < 24"
    and "Run open_box os m (\<lambda>_. []) Active bid s = (s', res)"
  shows "(\<exists>p. res = Panic p) \<and> status_of (view s') bid = Some BuildStatusRunning"
  using reliable_layer.Run_short_credential [OF assms] by (simp add: store_at_def)

theorem short_credential_leaves_running_witness:
  "\<exists>s' res. Run ex_open ex_os ex_manager (\<lambda>_. []) Active ex_id ex_short = (s', res)
    \<and> (\<exists>p. res = Panic p) \<and> status_of (fake_view s') ex_id = Some BuildStatusRunning"
proof -
  obtain s' res where r: "Run ex_open ex_os ex_manager (\<lambda>_. []) Active ex_id ex_short = (s', res)" by fastforce
  have p: "m_BRunner ex_manager = Some ex_brun" "m_TCheck ex_manager = Some ex_tc"
      "m_FetcherFactory ex_manager = Some ex_fetcher" "m_DL ex_manager = Some (fakeDL (\<lambda>xs. xs))"
    by (simp_all add: ex_manager_def)
  have a: "after_ok Q ex_os (\<lambda>_. [])" for Q :: "FakeDataLayer \<Rightarrow> bool"
    by (auto simp: after_ok_def acts_ok_def keeps_def calm_def ex_os_def)
  have v: "fake_view ex_short ex_id = Some (erase (ex_build\<lparr>b_EncryptedGitHubCredential := ''short''\<rparr>))"
    by (simp add: fake_view_def ex_short_def)
  from short_credential_leaves_running [OF fake.reliable_layer_axioms p a ex_short_inv TrueI v _ _ r] r show ?thesis
    by (simp add: ex_build_def)
qed

text \<open>
  Whether a cancelled build is recorded as cancelled is a race: the listener first cancels the
  context and sets the flag afterwards.  If the build fails in between, it is recorded as failed;
  with the flag set in time, the same build is recorded as cancelled.
\<close>

theorem cancellation_races_with_flag:
  "status_of (fake_view (fst (Run ex_open ex_os ex_manager ex_cancel Active ex_id ex_fake))) ex_id
     = Some BuildStatusCancelled
   \<and> status_of (fake_view (fst (Run ex_open ex_os ex_manager (\<lambda>n. if n = 4 then [CancelReceived] else [])
        Active ex_id ex_fake))) ex_id = Some BuildStatusFailure"
  by code_simp

text \<open>
  C22: a build that asks to be skipped if its images exist is skipped exactly if, in every image
  repository, all its tags exist (with the commit as a tag, where the request asks for it).
\<close>

theorem skipped_iff_all_exist:
  assumes "\<And>tags repo s s' ex m. tc tags repo s = (s', Ok (ex, m)) \<Longrightarrow> ex = present tags repo"
    and "rq_SkipIfExists (b_Request b)" "rq_Build (b_Request b) = Some d"
    and "skip_check dl bid sched tc b csha r = (r', Ok skipped)"
  shows "skipped \<longleftrightarrow> list_all (present (if bd_TagWithCommitSha d then b_Tags b @ [csha] else b_Tags b)) (b_ImageRepos b)"
proof -
  let ?tags = "if bd_TagWithCommitSha d then b_Tags b @ [csha] else b_Tags b"
  from assms(2-4) obtain r1 allexist where c: "check_repos dl bid sched tc ?tags (b_ImageRepos b) r = (r1, Ok allexist)"
    and s: "skipped = allexist"
    by (auto simp: skip_check_def Let_def bind_act_Ok ret_act_def split: if_splits)
  from check_repos_exact [where present = "present ?tags", OF _ c] assms(1) s show ?thesis by blast
qed

theorem skipped_iff_all_exist_witness:
  "\<exists>r' skipped. skip_check (fakeDL (\<lambda>xs. xs)) ex_id (\<lambda>_. []) (\<lambda>tags repo s. (s, Ok (repo = ''quay.io/a'', [])))
      ex_skip ''cafe'' \<lparr>rs_s = ex_fake, rs_ctx2 = Active, rs_cancelled = False, rs_listener = LWaiting, rs_sigwait = True, rs_point = 0\<rparr>
      = (r', Ok skipped)
    \<and> \<not> skipped"
proof -
  let ?tc = "\<lambda>(tags :: string list) (repo :: string) (s :: FakeDataLayer). (s, Ok (repo = ''quay.io/a'', [] :: string list))"
  obtain r' where r: "skip_check (fakeDL (\<lambda>xs. xs)) ex_id (\<lambda>_. []) ?tc ex_skip ''cafe''
      \<lparr>rs_s = ex_fake, rs_ctx2 = Active, rs_cancelled = False, rs_listener = LWaiting, rs_sigwait = True, rs_point = 0\<rparr> = (r', Ok False)"
    by (simp add: skip_check_def ex_skip_def ex_request_def call0_def call2_def tick_def bind_act_def wrap_act_def ret_act_def Let_def)
  from skipped_iff_all_exist [where present = "\<lambda>tags repo. repo = ''quay.io/a''", OF _ _ _ r] r show ?thesis
    by (auto simp: ex_skip_def ex_request_def)
qed

section \<open>Clients\<close>

text \<open>
  A cancellation that the server accepts finds the build running and leaves exactly it in the
  status CancelRequested; the response names the build.
\<close>

theorem accepted_cancellation:
  assumes "data_layer dl view keys Inv" "Inv s" "gr_DL gr = dl" "grpc_CancelBuild gr c sid s = (s', Ok r)"
  shows "\<exists>bid. FromString sid = Ok bid \<and> r = uuid_String bid
    \<and> status_of (view s) bid = Some BuildStatusRunning
    \<and> view s' = set_status (view s) bid BuildStatusCancelRequested"
  by (rule data_layer.grpc_CancelBuild_Ok [OF assms])

theorem accepted_cancellation_witness:
  "\<exists>s' r. grpc_CancelBuild ex_server Active (uuid_String ex_id) ex_running = (s', Ok r) \<and> r = uuid_String ex_id
    \<and> status_of (fake_view s') ex_id = Some BuildStatusCancelRequested"
proof -
  obtain s' r where c: "grpc_CancelBuild ex_server Active (uuid_String ex_id) ex_running = (s', Ok r)"
    by (simp add: grpc_CancelBuild_def find_build_def ex_server_def fakeDL_def fake_GetBuildByID_def fake_CancelBuild_def
        ex_running_def ex_fake_def ex_build_def bind_act_def Running_def Let_def)
  have "gr_DL ex_server = fakeDL (\<lambda>xs. xs)" by (simp add: ex_server_def)
  from accepted_cancellation [OF fake.data_layer_axioms conjunct1 [OF ex_running_at [unfolded store_at_def store_alive_def], THEN conjunct1] this c] c
  show ?thesis by (auto simp: status_of_def set_status_apply split: if_splits)
qed

text \<open>
  C35: the stream of a completed build has every event of the build in the order in which they were
  added, then the message that names the final status, and ends without an error.
\<close>

theorem monitor_of_completed_build:
  assumes "reliable_layer dl view keys Inv healthy" "store_alive view Inv healthy bid s" "gr_DL gr = dl"
    and "FromString sid = Ok bid" "view s bid = Some b" "TerminalState (b_Status b)"
    and "records f sent send" "\<And>s. sent (fst (dl_GetBuildByID dl Active bid s)) = sent s"
  shows "\<exists>s'. MonitorBuild gr send live gap1 gap2 Active sid s = (s', Ok ())
    \<and> sent s' = sent s @ map (\<lambda>m. f (event_of b m)) (b_Events b @ [''build has ended: '' @ BuildStatus_String (b_Status b)])"
proof -
  from reliable_layer.get_found [OF assms(1) _ _ assms(5)] assms(2) obtain s1 b1
    where g: "dl_GetBuildByID dl Active bid s = (s1, Ok b1)" and i: "Inv s" by (auto simp: store_alive_def)
  from data_layer.get_step [OF reliable_layer.axioms(1) [OF assms(1)] i g] assms(5) have b: "b = erase b1" by auto
  have sent: "sent s1 = sent s" using assms(8) [of s] g by simp
  have fb: "find_build gr Active sid s = (s1, Ok b1)" using g assms(3,4) by (simp add: find_build_def)
  have ev: "event_of b = event_of b1" by (rule ext) (simp add: event_of_def b)
  from MonitorBuild_completed [OF assms(7) fb, of live gap1 gap2] assms(6) sent show ?thesis by (simp add: b ev [unfolded b])
qed

theorem monitor_of_completed_build_witness:
  "\<exists>s'. MonitorBuild ex_server (\<lambda>e s. (s\<lparr>fd_mail := fd_mail s @ [(0, ev_Message e)]\<rparr>, Ok ())) [] (\<lambda>s. s) (\<lambda>s. s) Active
       (uuid_String ex_id) ex_ended = (s', Ok ())
    \<and> map snd (fd_mail s') = [''job created'', ''build has ended: BuildStatusSuccess'']"
proof -
  have f: "FromString (uuid_String ex_id) = Ok ex_id" "gr_DL ex_server = fakeDL (\<lambda>xs. xs)" by (simp_all add: ex_server_def)
  have v: "fake_view ex_ended ex_id = Some (erase (ex_build\<lparr>b_Status := BuildStatusSuccess, b_Events := [''job created'']\<rparr>))"
    by (simp add: fake_view_def ex_ended_def)
  have al: "store_alive fake_view fake_inv (\<lambda>_. True) ex_id ex_ended" using v ex_ended_inv by (simp add: store_alive_def)
  have rec: "records ev_Message (\<lambda>s. map snd (fd_mail s)) (\<lambda>e s. (s\<lparr>fd_mail := fd_mail s @ [(0, ev_Message e)]\<rparr>, Ok ()))"
    by (simp add: records_def)
  have "map snd (fd_mail ex_ended) = []" by (simp add: ex_ended_def ex_fake_def fake_init_def)
  moreover have "BuildStatus_String BuildStatusSuccess = ''BuildStatusSuccess''" by code_simp
  moreover have "TerminalState BuildStatusSuccess" by simp
  ultimately show ?thesis
    using monitor_of_completed_build [OF fake.reliable_layer_axioms al f(2,1) v _ rec, of "[]" "\<lambda>s. s" "\<lambda>s. s"]
    by (simp add: fakeDL_def fake_GetBuildByID_def event_of_def)
qed

text \<open>
  C16: \<^verbatim>\<open>furan cancel\<close> against a server that listens with the service of \<^verbatim>\<open>api.proto\<close>: if the command
  succeeds, then its API key is the identifier of a stored key that is not read-only, the build was
  running and now has the status CancelRequested, no other build has changed, and the command has
  printed the identifier of the build.
\<close>

theorem furan_cancel_effect:
  assumes "data_layer dl view keys Inv" "Inv s" "gr_DL gr = dl"
    and "Listen netlisten (Ok [FuranExecutor]) gr = Ok gr'" "dials seal rd ql gr' dial"
    and "cancel (client_New readfile pem dial opts) ids s = (s', out, Ok ())"
  shows "\<exists>bid kid akey. FromString ids = Ok bid \<and> FromString (cl_APIKey opts) = Ok kid
    \<and> keys s kid = Some akey \<and> \<not> ak_ReadOnly akey
    \<and> status_of (view s) bid = Some BuildStatusRunning
    \<and> view s' = set_status (view s) bid BuildStatusCancelRequested
    \<and> out = [''build cancellation requested: '' @ uuid_String bid]"
proof -
  let ?rc = "\<lparr>rc_apilabel = APIKeyLabel, rc_apikey = cl_APIKey opts\<rparr>"
  note gr' = Listen_methods [OF assms(4)]
  from assms(6) obtain rb bid r where n: "client_New readfile pem dial opts = Ok rb" and f: "FromString ids = Ok bid"
    and c: "fc_CancelBuild rb Background (uuid_String bid) s = (s', Ok r)"
    and o: "out = [''build cancellation requested: '' @ uuid_String bid]"
    by (auto simp: cancel_def rb_CancelBuild_def bind_act_def split: go.splits prod.splits)
  from client_New_Ok [OF n] assms(5) have "delivers seal rd ql gr' ?rc rb" by (auto simp: dials_def)
  then have "answered (fc_CancelBuild rb Background (uuid_String bid)) (intercept gr' Background (Some (call_metadata ?rc))
      (method_name ''CancelBuild'') (grpc_CancelBuild gr' Background (uuid_String bid))) (\<lambda>x. x)"
    by (simp add: delivers_def Let_def)
  from answered_Ok [OF this c] have i: "intercept gr' Background (Some (call_metadata ?rc))
      (method_name ''CancelBuild'') (grpc_CancelBuild gr' Background (uuid_String bid)) s = (s', Ok r)" by simp
  have m: "method_name ''CancelBuild'' = ''/furanrpc.FuranExecutor/CancelBuild''" by (simp add: method_name_def serviceName_def)
  have d: "gr_DL gr' = dl" using assms(3) by (simp add: gr')
  obtain ms where ms: "gr_methods gr' = Some ms" "map_of ms (method_name ''CancelBuild'') = Some False" by (simp add: gr' m)
  from data_layer.intercept_Ok [OF assms(1,2) d ms i] obtain s1 kid akey
    where k: "FromString (cl_APIKey opts) = Ok kid" "keys s kid = Some akey" "\<not> ak_ReadOnly akey"
      and s1: "Inv s1" "view s1 = view s" "grpc_CancelBuild gr' Background (uuid_String bid) s1 = (s', Ok r)"
    by blast
  from data_layer.grpc_CancelBuild_Ok [OF assms(1) s1(1) d s1(3)] s1(2) k f o show ?thesis by auto
qed

theorem furan_cancel_effect_witness:
  "\<exists>gr' s' out. Listen (Ok ()) (Ok [FuranExecutor]) ex_server = Ok gr'
    \<and> cancel (client_New (\<lambda>_. Ok ''ca'') (\<lambda>_. True) (\<lambda>addr rc t. Ok (ex_stub gr' rc)) ex_options) (uuid_String ex_id) ex_admin
        = (s', out, Ok ())
    \<and> status_of (fake_view s') ex_id = Some BuildStatusCancelRequested"
proof -
  let ?gr = "ex_server\<lparr>gr_methods := Some
    [(''/furanrpc.FuranExecutor/StartBuild'', False), (''/furanrpc.FuranExecutor/GetBuildStatus'', True),
     (''/furanrpc.FuranExecutor/GetBuildEvents'', True), (''/furanrpc.FuranExecutor/MonitorBuild'', True),
     (''/furanrpc.FuranExecutor/CancelBuild'', False), (''/furanrpc.FuranExecutor/ListBuilds'', True)]\<rparr>"
  have l: "Listen (Ok ()) (Ok [FuranExecutor]) ex_server = Ok ?gr"
  proof -
    have "\<exists>gr'. Listen (Ok ()) (Ok [FuranExecutor]) ex_server = Ok gr'"
      by (simp add: Listen_def methodsFromFuranService_def FuranExecutor_def)
    with Listen_methods show ?thesis by blast
  qed
  have dl: "gr_DL ex_server = fakeDL (\<lambda>xs. xs)" by (simp add: ex_server_def)
  have d: "dials ex_seal (ex_nonce, 24, None) demo_ql ?gr (\<lambda>addr rc t. Ok (ex_stub ?gr rc))"
    by (simp add: dials_def ex_stub_delivers)
  have m: "method_name ''CancelBuild'' = ''/furanrpc.FuranExecutor/CancelBuild''" by (simp add: method_name_def serviceName_def)
  obtain s' out where c: "cancel (client_New (\<lambda>_. Ok ''ca'') (\<lambda>_. True) (\<lambda>addr rc t. Ok (ex_stub ?gr rc)) ex_options)
      (uuid_String ex_id) ex_admin = (s', out, Ok ())"
    by (simp add: cancel_def client_New_def ex_options_def rb_CancelBuild_def ex_stub_def m intercept_def apiKeyAuth_def
        call_metadata_key ex_admin_def fake_GetAPIKey_def grpc_CancelBuild_def find_build_def ex_server_def fakeDL_def
        fake_GetBuildByID_def fake_CancelBuild_def ex_running_def ex_fake_def ex_build_def bind_act_def ret_act_def
        crash_is_error_def Running_def Let_def)
  from furan_cancel_effect [OF fake.data_layer_axioms ex_admin_inv dl l d c] l c show ?thesis
    by (auto simp: status_of_def set_status_apply split: if_splits)
qed

text \<open>
  C17: \<^verbatim>\<open>furan list\<close> against such a server: if the command succeeds, then the data layer was asked with
  exactly the options that the flags stand for (a status by its name, a time by a duration before
  now), in a store with the same builds, and the command printed one row for each build it returned,
  in the same order.
\<close>

theorem furan_list_effect:
  assumes "data_layer dl view keys Inv" "Inv s" "gr_DL gr = dl"
    and "Listen netlisten (Ok [FuranExecutor]) gr = Ok gr'" "dials seal rd ql gr' dial"
    and "flags_only (lv_listOps v)"
    and "list_cmd (client_New readfile pem dial opts) names now v s = (s', out, Ok ())"
  shows "\<exists>s1 builds rows. view s1 = view s \<and> dl_ListBuilds dl Background (list_options now v) s1 = (s', Ok builds)
    \<and> out = list_header # rows \<and> map Ok rows = map (\<lambda>b. list_row (buildStatusResponseFromBuild b)) builds"
proof -
  let ?rc = "\<lparr>rc_apilabel = APIKeyLabel, rc_apikey = cl_APIKey opts\<rparr>"
  note gr' = Listen_methods [OF assms(4)]
  from assms(7) obtain rb req resps rows where n: "client_New readfile pem dial opts = Ok rb"
    and q: "list_request names now v = Ok req"
    and c: "fc_ListBuilds rb Background req s = (s', Ok resps)"
    and rows: "list_rows (map (\<lambda>b. case b of None \<Rightarrow> zero_StatusResponse | Some bs \<Rightarrow> bs) resps) = Ok rows"
    and o: "out = list_header # rows"
    by (auto simp: list_cmd_def rb_ListBuilds_def bind_act_def wrap_act_def ret_act_def split: go.splits prod.splits)
  from client_New_Ok [OF n] assms(5) have "delivers seal rd ql gr' ?rc rb" by (auto simp: dials_def)
  then have "answered (fc_ListBuilds rb Background req) (intercept gr' Background (Some (call_metadata ?rc))
      (method_name ''ListBuilds'') (grpc_ListBuilds gr' Background req)) (map Some)"
    by (simp add: delivers_def Let_def)
  from answered_Ok [OF this c] obtain bs where i: "intercept gr' Background (Some (call_metadata ?rc))
      (method_name ''ListBuilds'') (grpc_ListBuilds gr' Background req) s = (s', Ok bs)" and r: "resps = map Some bs" by blast
  have m: "method_name ''ListBuilds'' = ''/furanrpc.FuranExecutor/ListBuilds''" by (simp add: method_name_def serviceName_def)
  have d: "gr_DL gr' = dl" using assms(3) by (simp add: gr')
  obtain ms where ms: "gr_methods gr' = Some ms" "map_of ms (method_name ''ListBuilds'') = Some True" by (simp add: gr' m)
  from data_layer.intercept_Ok [OF assms(1,2) d ms i] obtain s1
    where s1: "view s1 = view s" "grpc_ListBuilds gr' Background req s1 = (s', Ok bs)" by blast
  then obtain builds where b: "dl_ListBuilds dl Background (list_options now v) s1 = (s', Ok builds)"
    "bs = map buildStatusResponseFromBuild builds"
    by (auto simp: grpc_ListBuilds_def d status_err_def list_request_options [OF assms(6) q]
        split: if_splits go.splits prod.splits)
  from rows have "list_rows (map buildStatusResponseFromBuild builds) = Ok rows" by (simp add: r b(2) comp_def)
  from list_rows_Ok [OF this] s1(1) b(1) o show ?thesis by blast
qed

theorem furan_list_effect_witness:
  "\<exists>gr' s' out s1 builds rows. Listen (Ok ()) (Ok [FuranExecutor]) ex_server = Ok gr'
    \<and> list_cmd (client_New (\<lambda>_. Ok ''ca'') (\<lambda>_. True) (\<lambda>addr rc t. Ok (ex_stub gr' rc)) ex_options) [] (Time 100 0) ex_list ex_admin
        = (s', out, Ok ())
    \<and> dl_ListBuilds (fakeDL (\<lambda>xs. xs)) Background (list_options (Time 100 0) ex_list) s1 = (s', Ok builds)
    \<and> out = list_header # rows \<and> map Ok rows = map (\<lambda>b. list_row (buildStatusResponseFromBuild b)) builds"
proof -
  have "\<exists>gr'. Listen (Ok ()) (Ok [FuranExecutor]) ex_server = Ok gr'"
    by (simp add: Listen_def methodsFromFuranService_def FuranExecutor_def)
  then obtain gr where l: "Listen (Ok ()) (Ok [FuranExecutor]) ex_server = Ok gr" by blast
  have dl: "gr_DL ex_server = fakeDL (\<lambda>xs. xs)" by (simp add: ex_server_def)
  have d: "dials ex_seal (ex_nonce, 24, None) demo_ql gr (\<lambda>addr rc t. Ok (ex_stub gr rc))"
    by (simp add: dials_def ex_stub_delivers)
  have fl: "flags_only (lv_listOps ex_list)" by (simp add: flags_only_def ex_list_def)
  have m: "method_name ''ListBuilds'' = ''/furanrpc.FuranExecutor/ListBuilds''" by (simp add: method_name_def serviceName_def)
  have st: "State 3 = 3" by (simp add: State_def)
  obtain s' out where c: "list_cmd (client_New (\<lambda>_. Ok ''ca'') (\<lambda>_. True) (\<lambda>addr rc t. Ok (ex_stub gr rc)) ex_options) []
      (Time 100 0) ex_list ex_admin = (s', out, Ok ())"
    by (simp add: list_cmd_def list_request_def timeListOps_def cliStatuses_def ex_list_def client_New_def ex_options_def
        rb_ListBuilds_def ex_stub_def m intercept_def apiKeyAuth_def Listen_methods [OF l]
        call_metadata_key ex_admin_def fake_GetAPIKey_def grpc_ListBuilds_def ex_server_def fakeDL_def
        datalayerListBuildsOptions_def st BuildStatusFromState_def
        fake_ListBuilds_def zero_ListBuildsOptions_def IsZero_def zero_time_def ex_running_def ex_fake_def ex_build_def
        ex_request_def buildStatusResponseFromBuild_def list_row_def bind_act_def wrap_act_def ret_act_def
        crash_is_error_def Let_def)
  from furan_list_effect [OF fake.data_layer_axioms ex_admin_inv dl l d fl c] l c show ?thesis by blast
qed

section \<open>Server and job\<close>

text \<open>
  C11: a job can read what the server sealed.  The server and the job get their keys from secrets that
  hold the same key; then for every build that \<^verbatim>\<open>StartBuild\<close> of a server started with the \<^verbatim>\<open>server\<close>
  command has created, the manager of the \<^verbatim>\<open>runbuild\<close> command decrypts the stored credential to the
  credential of the request.
\<close>

theorem job_decrypts_credential:
  assumes "dbSecrets jf nc v = CliOk v1" "holds_key nc k" "f_sc (rv_sf v) = None"
    and "dbSecrets jf' nc' w = CliOk w1" "holds_key nc' k" "f_sc (rv_sf w) = None"
    and "server env sv (rv_dbConfig v1) s0 = (s1, CliOk (gr, label))"
    and "data_layer (gr_DL gr) view keys Inv" "Inv s"
    and "StartBuild seal (nonce, 24, None) ql gr c req s = (s', Ok (sid, opts))"
    and "fetch_quiet view Inv (gr_CFFactory gr)" "length nonce = 24" "\<And>m. open_box nonce k (seal nonce k m) = Some m"
    and "rq_Build req = Some d" "dl_GetBuildByID (gr_DL gr) c' (bo_BuildID opts) s' = (s2, Ok b)"
  shows "GetGitHubCredential open_box b (m_GitHubTokenKey (job_manager build env' bv w1 dl)) = Ok (bd_GithubCredential d)"
proof -
  have key: "gr_CredentialDecryptionKey gr = k" "m_GitHubTokenKey (job_manager build env' bv w1 dl) = k"
    using server_Ok [OF assms(7)] dbSecrets_holds [OF assms(1-3)] dbSecrets_holds [OF assms(4-6)]
    by (simp_all add: job_manager_def Let_def)
  from data_layer.StartBuild_creates [OF assms(8,9) refl assms(10,11)] assms(14) obtain irepos b0 b' bid
    where mk: "make_build seal (nonce, 24, None) ql gr req d irepos = Ok (b0, b_BuildOptions b0)"
      and cr: "created_as b0 bid b'" and i: "Inv s'"
      and v: "view s' = (view s)(bid \<mapsto> b')" "opts = (b_BuildOptions b0)\<lparr>bo_BuildID := bid\<rparr>" by auto
  from data_layer.get_step [OF assms(8) i assms(15)] v have "b' = erase b" by auto
  with cr make_build_sealed [OF mk assms(12)] make_build_Ok [OF mk] assms(12,13) key show ?thesis
    by (simp add: GetGitHubCredential_def created_as_def Let_def)
qed

theorem job_decrypts_credential_witness:
  "\<exists>v1 s1 gr label s' sid opts s2 b. dbSecrets demo_jwt (\<lambda>_. Ok demo_sc) (demo_vars ''vault'') = CliOk v1
    \<and> server ex_env ex_server_vars (rv_dbConfig v1) ex_pg = (s1, CliOk (gr, label))
    \<and> StartBuild ex_seal (ex_nonce, 24, None) demo_ql gr Active ex_push_request ex_pg = (s', Ok (sid, opts))
    \<and> dl_GetBuildByID (gr_DL gr) Active (bo_BuildID opts) s' = (s2, Ok b)
    \<and> (\<forall>build env' bv (dl :: unit DataLayer). GetGitHubCredential ex_open b (m_GitHubTokenKey (job_manager build env' bv v1 dl)) = Ok ''s3cr3t'')"
proof -
  obtain v1 where v1: "dbSecrets demo_jwt (\<lambda>_. Ok demo_sc) (demo_vars ''vault'') = CliOk v1"
    by (simp add: dbSecrets_def Database_def with_client_def fetcher_init_def backend_options_def k8s_options_def
        secretsSetup_def demo_vars_def demo_jwt_def demo_sc_def take_key_def or_clierr_def maxJWTSizeBytes_def Let_def)
  have h: "holds_key (\<lambda>_. Ok demo_sc) (replicate 32 CHR ''k'')" by (simp add: holds_key_def demo_sc_def)
  have n: "f_sc (rv_sf (demo_vars ''vault'')) = None" by (simp add: demo_vars_def Let_def)
  obtain s1 gr label where sv: "server ex_env ex_server_vars (rv_dbConfig v1) ex_pg = (s1, CliOk (gr, label))"
    using ex_server_starts by blast
  note gr = ex_server_parts [OF sv]
  obtain s' sid opts s2 b where st: "StartBuild ex_seal (ex_nonce, 24, None) demo_ql gr Active ex_push_request ex_pg = (s', Ok (sid, opts))"
    and g: "dl_GetBuildByID (gr_DL gr) Active (bo_BuildID opts) s' = (s2, Ok b)"
    using ex_server_accepts [OF gr] by blast
  obtain d where d: "rq_Build ex_push_request = Some d" "bd_GithubCredential d = ''s3cr3t''"
    by (simp add: ex_push_request_def ex_request_def)
  have dl: "data_layer (gr_DL gr) (\<lambda>s. tab_view (rp_tabs s)) (\<lambda>s. t_keys (rp_tabs s)) ref_inv"
    unfolding gr(1) by (rule reliable_layer.axioms(1) [OF pg_up.axioms_of_layer [OF refpg.pg_up_axioms]])
  have q: "fetch_quiet (\<lambda>s. tab_view (rp_tabs s)) ref_inv (gr_CFFactory gr)" unfolding gr(2) by (rule ex_github_quiet)
  have i: "ref_inv ex_pg" by (simp add: ex_pg_def ref_init_def ref_inv_def tabs_wf_def)
  have len: "length ex_nonce = 24" by (simp add: ex_nonce_def)
  have op: "ex_open ex_nonce (replicate 32 CHR ''k'') (ex_seal ex_nonce (replicate 32 CHR ''k'') m) = Some m" for m
    by (simp add: ex_open_def ex_seal_def)
  from job_decrypts_credential [where open_box = ex_open, OF v1 h n v1 h n sv dl i st q len op d(1) g] d(2) v1 sv st g show ?thesis by metis
qed



end
